(* ===== verification/AirPrelude.thy ===== *)
theory AirPrelude
  imports Main "HOL-Library.Word"
begin

unbundle bit_operations_syntax

text \<open>
  What every component shares: names for the machine integers of the firmware, the
  one-bit masks the code builds with \<open>1u << i\<close>, and lemmas on millisecond clocks that
  wrap around at \<open>2 ^ 32\<close>. The collection \<open>mask_simps\<close> turns the code's mask
  idioms (set with \<open>|=\<close>, clear with \<open>&= ~\<close>, test with \<open>&\<close>) into statements about
  single bits; \<open>clock_simps\<close> turns differences of clock readings into differences of
  the underlying time.
\<close>

named_theorems mask_simps \<open>bit masks read bit by bit\<close>
named_theorems clock_simps \<open>differences of wrapping clock readings\<close>

type_synonym u8 = "8 word"
type_synonym u16 = "16 word"
type_synonym u32 = "32 word"

definition bitMask :: "nat \<Rightarrow> 'a::len word" where
  "bitMask i = push_bit i 1"

definition maskSet :: "'a::len word \<Rightarrow> nat \<Rightarrow> 'a word" where
  "maskSet m i = m OR bitMask i"

definition maskClear :: "'a::len word \<Rightarrow> nat \<Rightarrow> 'a word" where
  "maskClear m i = m AND NOT (bitMask i)"

definition maskTest :: "'a::len word \<Rightarrow> nat \<Rightarrow> bool" where
  "maskTest m i \<longleftrightarrow> m AND bitMask i \<noteq> 0"

lemma bit_bitMask [mask_simps]:
  "bit (bitMask i :: 'a::len word) j \<longleftrightarrow> i = j \<and> j < LENGTH('a)"
  unfolding bitMask_def bit_push_bit_iff by (auto simp: bit_1_iff)

lemma bit_maskSet [mask_simps]:
  "bit (maskSet m i :: 'a::len word) j \<longleftrightarrow> bit m j \<or> (i = j \<and> j < LENGTH('a))"
  by (simp add: maskSet_def bit_or_iff bit_bitMask)

lemma bit_maskClear [mask_simps]:
  "bit (maskClear m i :: 'a::len word) j \<longleftrightarrow> bit m j \<and> i \<noteq> j"
  by (auto simp: maskClear_def bit_and_iff bit_not_iff bit_bitMask dest: bit_imp_le_length)

lemma maskTest_iff [mask_simps]:
  "maskTest (m :: 'a::len word) i \<longleftrightarrow> bit m i"
proof
  assume "maskTest m i"
  then obtain j where "bit (m AND bitMask i) j"
    by (auto simp: maskTest_def bit_eq_iff)
  then show "bit m i" by (auto simp: bit_and_iff bit_bitMask)
next
  assume "bit m i"
  then have "bit (m AND bitMask i) i"
    by (auto simp: bit_and_iff bit_bitMask dest: bit_imp_le_length)
  then show "maskTest m i" by (metis maskTest_def bit_0_eq bot_apply bot_bool_def)
qed

lemma mask_empty_iff [mask_simps]: "(m :: 'a::len word) = 0 \<longleftrightarrow> (\<forall>i. \<not> bit m i)"
  by (auto simp: bit_eq_iff dest: bit_imp_le_length)

text \<open>
  Clock readings: the 32-bit reading of time \<open>t\<close> (in ms since boot) is
  \<open>of_nat t\<close>. A difference of two readings less than \<open>2 ^ 32\<close> ms apart is the real
  difference, wherever the counter wrapped in between.
\<close>

lemma unat_clock_diff [clock_simps]:
  assumes "a \<le> b" and "b - a < 2 ^ 32"
  shows "unat ((of_nat b :: u32) - of_nat a) = b - a"
proof -
  have "(of_nat b :: u32) - of_nat a = of_nat (b - a)"
    using assms(1) by (simp add: of_nat_diff)
  then show ?thesis using assms(2) by (simp only: unat_of_nat) simp
qed

lemma clock_wraps: "(of_nat (t + 2 ^ 32) :: u32) = of_nat t"
proof -
  have "(of_nat (t + 2 ^ 32) :: u32) = of_nat t + of_nat (2 ^ 32)" by (rule of_nat_add)
  also have "(of_nat (2 ^ 32) :: u32) = 0" by (simp only: of_nat_power) (simp add: exp_eq_zero_iff)
  finally show ?thesis by (simp only: add_0_right)
qed

lemma unat_ucast_up:
  "LENGTH('a::len) \<le> LENGTH('b::len) \<Longrightarrow> unat (ucast (w :: 'a word) :: 'b word) = unat w"
  by (simp add: unsigned_ucast_eq take_bit_nat_eq_self less_le_trans [OF unsigned_less])

lemma word_Suc_less: "(w :: u8) < c \<Longrightarrow> unat (w + 1) = Suc (unat w)"
  using unsigned_less [of c, where ?'a = nat] by (simp add: unat_word_ariths word_less_nat_alt)

lemma unat_word_le_imp_diff:
  "(w :: 'a::len word) \<le> v \<Longrightarrow> unat (v - w) = unat v - unat w"
  by (rule unat_sub)

lemma fold_invariant:
  assumes "P s" and "\<And>x s. x \<in> set xs \<Longrightarrow> P s \<Longrightarrow> P (f x s)"
  shows "P (fold f xs s)"
  using assms by (induction xs arbitrary: s) auto

text \<open>Strings.\<close>

definition startsWith :: "string \<Rightarrow> string \<Rightarrow> bool" where
  "startsWith s p = (take (length p) s = p)"

text \<open>Numbers as \<open>printf\<close> writes them.\<close>

fun showNat :: "nat \<Rightarrow> string" where
  "showNat n = (if n < 10 then [char_of (48 + n)] else showNat (n div 10) @ [char_of (48 + n mod 10)])"

definition showInt :: "int \<Rightarrow> string" where
  "showInt i = (if i < 0 then ''-'' @ showNat (nat (- i)) else showNat (nat i))"

declare showNat.simps [simp del]

end
