(* ===== verification/TimeUtils.thy ===== *)
theory TimeUtils
  imports AirPrelude
begin

text \<open>
  \<open>lib/core/src/airalert/TimeUtils.h\<close>: elapsed time on the 32-bit millisecond counter.
\<close>

definition elapsedMs :: "u32 \<Rightarrow> u32 \<Rightarrow> u32" where
  "elapsedMs now since = now - since"

definition intervalPassed :: "u32 \<Rightarrow> u32 \<Rightarrow> u32 \<Rightarrow> bool" where
  "intervalPassed now since intervalMs \<longleftrightarrow> elapsedMs now since \<ge> intervalMs"

text \<open>Successive ticks: in order of time, and never more than \<open>2 ^ 31\<close> ms (24 days) apart.\<close>

fun tickGaps :: "nat \<Rightarrow> nat list \<Rightarrow> bool" where
  "tickGaps d [] = True"
| "tickGaps d (e # es) = (d \<le> e \<and> e - d \<le> 2 ^ 31 \<and> tickGaps e es)"

lemma unat_elapsedMs [clock_simps]:
  assumes "a \<le> b" and "b - a < 2 ^ 32"
  shows "unat (elapsedMs (of_nat b) (of_nat a)) = b - a"
  using assms by (simp add: elapsedMs_def unat_clock_diff)

lemma intervalPassed_clock [clock_simps]:
  assumes "a \<le> b" and "b - a < 2 ^ 32"
  shows "intervalPassed (of_nat b) (of_nat a) i \<longleftrightarrow> unat i \<le> b - a"
  using assms by (simp add: intervalPassed_def word_le_nat_alt unat_elapsedMs)

lemma intervalPassed_zero [simp]: "intervalPassed now since 0"
  by (simp add: intervalPassed_def)

lemma elapsedMs_self [simp]: "elapsedMs t t = 0"
  by (simp add: elapsedMs_def)

end
