(* ===== verification/Pattern.thy ===== *)
theory Pattern
  imports TimeUtils
begin

text \<open>
  \<open>lib/core/src/airalert/Pattern.h\<close>: siren patterns (a sequence of ON and pause steps in
  10 ms units, positive for ON, played \<open>repeat\<close> times) and the scheduler that plays one.
  \<open>steps\<close> is the 12-element array; a step is the value of the \<open>int16_t\<close>, which
  \<open>pattern_add\<close> keeps within 6000 in absolute value, so no conversion overflows.
  \<open>timeline\<close> and \<open>playAt\<close> are the abstract specification: the whole signal written
  out as a list of phases, and what it does \<open>d\<close> milliseconds after its start.
\<close>

abbreviation kMaxSteps :: nat where "kMaxSteps \<equiv> 12"
abbreviation kMaxStepMs :: u32 where "kMaxStepMs \<equiv> 60000"
abbreviation kUnitMs :: u32 where "kUnitMs \<equiv> 10"

record Pattern =
  pat_enabled :: bool
  pat_repeat :: u8
  pat_count :: u8
  pat_steps :: "int list"

definition emptyPattern :: Pattern where
  "emptyPattern = \<lparr>pat_enabled = True, pat_repeat = 1, pat_count = 0, pat_steps = replicate kMaxSteps 0\<rparr>"

definition pattern_add :: "Pattern \<Rightarrow> bool \<Rightarrow> u32 \<Rightarrow> bool \<times> Pattern" where
  "pattern_add p on ms =
     (if ms > kMaxStepMs then (False, p)
      else let units = uint ((ms + kUnitMs div 2) div kUnitMs) in
        if units = 0 then (ms = 0, p)
        else if unat (pat_count p) \<ge> kMaxSteps then (False, p)
        else (True, p\<lparr>pat_steps := (pat_steps p)[unat (pat_count p) := (if on then units else - units)],
                      pat_count := pat_count p + 1\<rparr>))"

definition pulses :: "u32 \<Rightarrow> u32 \<Rightarrow> u8 \<Rightarrow> bool \<Rightarrow> Pattern" where
  "pulses onMs offMs rpt enabled =
     (let p = emptyPattern\<lparr>pat_enabled := enabled, pat_repeat := rpt\<rparr>;
          p = snd (pattern_add p True onMs)
      in snd (pattern_add p False offMs))"

definition stepOn :: "Pattern \<Rightarrow> nat \<Rightarrow> bool" where
  "stepOn p i \<longleftrightarrow> pat_steps p ! i > 0"

definition stepMs :: "Pattern \<Rightarrow> nat \<Rightarrow> u32" where
  "stepMs p i = word_of_int (if pat_steps p ! i > 0 then pat_steps p ! i else - (pat_steps p ! i)) * kUnitMs"

definition hasOn :: "Pattern \<Rightarrow> bool" where
  "hasOn p = list_ex (stepOn p) [0..<unat (pat_count p)]"

definition firstMs :: "Pattern \<Rightarrow> bool \<Rightarrow> u32" where
  "firstMs p on = (case List.find (\<lambda>i. stepOn p i = on) [0..<unat (pat_count p)] of
     Some i \<Rightarrow> stepMs p i | None \<Rightarrow> 0)"

subsection \<open>The scheduler\<close>

record PatternScheduler =
  sch_pattern :: Pattern
  sch_phaseStart :: u32
  sch_idx :: u8
  sch_rep :: u8
  sch_running :: bool

definition initScheduler :: PatternScheduler where
  "initScheduler = \<lparr>sch_pattern = emptyPattern, sch_phaseStart = 0, sch_idx = 0, sch_rep = 0, sch_running = False\<rparr>"

definition skipSilence :: "PatternScheduler \<Rightarrow> PatternScheduler" where
  "skipSilence s =
     (if \<not> sch_running s then s
      else if sch_rep s \<ge> pat_repeat (sch_pattern s) then s\<lparr>sch_running := False\<rparr>
      else if unat (sch_rep s) + 1 < unat (pat_repeat (sch_pattern s)) then s
      else if list_ex (stepOn (sch_pattern s)) [unat (sch_idx s)..<unat (pat_count (sch_pattern s))] then s
      else s\<lparr>sch_running := False\<rparr>)"

definition sched_start :: "Pattern \<Rightarrow> u32 \<Rightarrow> PatternScheduler \<Rightarrow> PatternScheduler" where
  "sched_start p nowMs s =
     skipSilence (s\<lparr>sch_pattern := p, sch_rep := 0, sch_idx := 0, sch_phaseStart := nowMs,
                    sch_running := (pat_enabled p \<and> pat_repeat p > 0 \<and> hasOn p)\<rparr>)"

definition sched_stop :: "PatternScheduler \<Rightarrow> PatternScheduler" where
  "sched_stop s = s\<lparr>sch_running := False\<rparr>"

text \<open>The body of the \<open>while\<close> loop of \<open>tick\<close>: one phase boundary is passed.\<close>

definition sched_advance :: "PatternScheduler \<Rightarrow> PatternScheduler" where
  "sched_advance s =
     (let p = sch_pattern s;
          s = s\<lparr>sch_phaseStart := sch_phaseStart s + stepMs p (unat (sch_idx s)),
                sch_idx := sch_idx s + 1\<rparr>;
          s = (if sch_idx s \<ge> pat_count p then s\<lparr>sch_idx := 0, sch_rep := sch_rep s + 1\<rparr> else s)
      in skipSilence s)"

definition phaseDue :: "u32 \<Rightarrow> PatternScheduler \<Rightarrow> bool" where
  "phaseDue nowMs s \<longleftrightarrow> sch_running s \<and>
     intervalPassed nowMs (sch_phaseStart s) (stepMs (sch_pattern s) (unat (sch_idx s)))"

definition schedInRange :: "PatternScheduler \<Rightarrow> bool" where
  "schedInRange s \<longleftrightarrow> sch_rep s < pat_repeat (sch_pattern s) \<and>
     (sch_idx s < pat_count (sch_pattern s) \<or> pat_count (sch_pattern s) = 0)"

lemma skipSilence_simps [simp]:
  "sch_pattern (skipSilence s) = sch_pattern s"
  "sch_phaseStart (skipSilence s) = sch_phaseStart s"
  "sch_idx (skipSilence s) = sch_idx s"
  "sch_rep (skipSilence s) = sch_rep s"
  by (simp_all add: skipSilence_def)

lemma skipSilence_running:
  "sch_running (skipSilence s) \<Longrightarrow> sch_running s \<and> sch_rep s < pat_repeat (sch_pattern s)"
  by (auto simp: skipSilence_def not_le split: if_splits)

lemma sched_advance_simps [simp]:
  "sch_pattern (sched_advance s) = sch_pattern s"
  "sch_phaseStart (sched_advance s) = sch_phaseStart s + stepMs (sch_pattern s) (unat (sch_idx s))"
  by (simp_all add: sched_advance_def Let_def)

lemma sched_advance_idx:
  "sch_idx (sched_advance s) =
     (if sch_idx s + 1 \<ge> pat_count (sch_pattern s) then 0 else sch_idx s + 1)"
  by (simp add: sched_advance_def Let_def)

lemma sched_advance_rep:
  "sch_rep (sched_advance s) =
     (if sch_idx s + 1 \<ge> pat_count (sch_pattern s) then sch_rep s + 1 else sch_rep s)"
  by (simp add: sched_advance_def Let_def)

lemma sched_advance_running:
  "sch_running (sched_advance s) \<Longrightarrow> sch_running s \<and> sch_rep (sched_advance s) < pat_repeat (sch_pattern s)"
  by (auto simp: sched_advance_def Let_def dest!: skipSilence_running split: if_splits)

lemma sched_advance_inRange:
  "sch_running (sched_advance s) \<Longrightarrow> schedInRange (sched_advance s)"
  by (auto simp: schedInRange_def sched_advance_idx not_le word_gt_0 dest: sched_advance_running)

text \<open>
  Termination of the loop: from the first iteration on the repetition counter is below
  \<open>repeat\<close> and the index below \<open>count\<close> while the scheduler runs, so neither 8-bit
  counter wraps, and each iteration moves the index up or starts the next repetition.
\<close>

definition schedPhase :: "PatternScheduler \<Rightarrow> nat" where
  "schedPhase s = (if \<not> sch_running s then 0 else if schedInRange s then 1 else 2)"

definition repsLeft :: "PatternScheduler \<Rightarrow> nat" where
  "repsLeft s = unat (pat_repeat (sch_pattern s)) - unat (sch_rep s)"

definition stepsLeft :: "PatternScheduler \<Rightarrow> nat" where
  "stepsLeft s = unat (pat_count (sch_pattern s)) - unat (sch_idx s)"

lemma sched_advance_decreases:
  assumes "sch_running s"
  shows "(sched_advance s, s) \<in> measures [schedPhase, repsLeft, stepsLeft]"
proof (cases "sch_running (sched_advance s) \<and> schedInRange s")
  case False
  then show ?thesis
    using assms sched_advance_inRange [of s] by (auto simp: schedPhase_def)
next
  case True
  then have in_range: "schedInRange (sched_advance s)" and rep: "sch_rep s < pat_repeat (sch_pattern s)"
    using sched_advance_inRange by (auto simp: schedInRange_def)
  show ?thesis
  proof (cases "sch_idx s + 1 \<ge> pat_count (sch_pattern s)")
    case True
    then have "repsLeft (sched_advance s) < repsLeft s"
      using rep by (simp add: repsLeft_def sched_advance_rep word_Suc_less word_less_nat_alt)
    then show ?thesis
      using assms \<open>sch_running (sched_advance s) \<and> schedInRange s\<close> in_range
      by (simp add: schedPhase_def)
  next
    case not_end: False
    then have idx: "sch_idx s < pat_count (sch_pattern s)"
      using True by (auto simp: schedInRange_def)
    then have "stepsLeft (sched_advance s) < stepsLeft s"
      using not_end by (simp add: stepsLeft_def sched_advance_idx word_Suc_less word_less_nat_alt)
    moreover have "repsLeft (sched_advance s) = repsLeft s"
      using not_end by (simp add: repsLeft_def sched_advance_rep)
    ultimately show ?thesis
      using assms True in_range by (simp add: schedPhase_def)
  qed
qed

function sched_loop :: "u32 \<Rightarrow> PatternScheduler \<Rightarrow> PatternScheduler" where
  "sched_loop nowMs s = (if phaseDue nowMs s then sched_loop nowMs (sched_advance s) else s)"
  by pat_completeness auto
termination
  by (relation "inv_image (measures [schedPhase, repsLeft, stepsLeft]) snd")
    (auto simp: phaseDue_def simp del: in_measures dest: sched_advance_decreases)

declare sched_loop.simps [simp del]

definition sched_tick :: "PatternScheduler \<Rightarrow> u32 \<Rightarrow> bool \<times> PatternScheduler" where
  "sched_tick s nowMs =
     (let s = sched_loop nowMs s
      in (sch_running s \<and> stepOn (sch_pattern s) (unat (sch_idx s)), s))"

subsection \<open>Abstract signal\<close>

text \<open>
  One pass over the steps, the whole signal, and what it does \<open>d\<close> ms after the start.
\<close>

definition patternCycle :: "Pattern \<Rightarrow> (bool \<times> nat) list" where
  "patternCycle p = map (\<lambda>i. (stepOn p i, unat (stepMs p i))) [0..<unat (pat_count p)]"

definition timeline :: "Pattern \<Rightarrow> (bool \<times> nat) list" where
  "timeline p = (if pat_enabled p \<and> hasOn p
     then concat (replicate (unat (pat_repeat p)) (patternCycle p)) else [])"

fun playAt :: "(bool \<times> nat) list \<Rightarrow> nat \<Rightarrow> bool" where
  "playAt [] d = False"
| "playAt ((on, ms) # rest) d = (if ms \<le> d then playAt rest (d - ms) else on)"

definition totalMs :: "(bool \<times> nat) list \<Rightarrow> nat" where
  "totalMs phs = sum_list (map snd phs)"

definition patternWf :: "Pattern \<Rightarrow> bool" where
  "patternWf p \<longleftrightarrow> length (pat_steps p) = kMaxSteps \<and> unat (pat_count p) \<le> kMaxSteps \<and>
     (\<forall>i < unat (pat_count p). pat_steps p ! i \<noteq> 0 \<and> \<bar>pat_steps p ! i\<bar> \<le> 6000)"

fun runTicks :: "PatternScheduler \<Rightarrow> nat \<Rightarrow> nat list \<Rightarrow> bool list \<times> PatternScheduler" where
  "runTicks s t0 [] = ([], s)"
| "runTicks s t0 (d # ds) =
     (let (out, s1) = sched_tick s (of_nat (t0 + d)); (outs, s2) = runTicks s1 t0 ds
      in (out # outs, s2))"

subsection \<open>Well-formed patterns\<close>

lemma patternWf_empty: "patternWf emptyPattern"
  by (simp add: patternWf_def emptyPattern_def)

lemma uint_units_le: "ms \<le> kMaxStepMs \<Longrightarrow> uint ((ms + kUnitMs div 2) div kUnitMs) \<le> 6000"
proof -
  assume ms: "ms \<le> kMaxStepMs"
  have "uint (ms + 5) \<le> 60005"
    using ms by (simp add: uint_word_ariths word_le_def) 
  then show ?thesis by (simp add: uint_div)
qed

lemma pattern_add_wf:
  assumes wf: "patternWf p"
  shows "patternWf (snd (pattern_add p on ms))"
proof (cases "ms \<le> kMaxStepMs \<and> unat (pat_count p) < kMaxSteps \<and> uint ((ms + kUnitMs div 2) div kUnitMs) \<noteq> 0")
  case False
  then show ?thesis using wf by (auto simp: pattern_add_def Let_def not_le not_less)
next
  case True
  define u where "u = (if on then uint ((ms + kUnitMs div 2) div kUnitMs) else - uint ((ms + kUnitMs div 2) div kUnitMs))"
  have add: "snd (pattern_add p on ms) =
      p\<lparr>pat_steps := (pat_steps p)[unat (pat_count p) := u], pat_count := pat_count p + 1\<rparr>"
    using True by (auto simp: pattern_add_def Let_def u_def)
  have u: "u \<noteq> 0" "\<bar>u\<bar> \<le> 6000"
    using True uint_units_le [of ms] uint_nonnegative [of "(ms + kUnitMs div 2) div kUnitMs"]
    by (auto simp: u_def)
  have "unat (pat_count p + 1) = Suc (unat (pat_count p))"
    using True by (intro word_Suc_less [of _ 13]) (simp add: word_less_nat_alt)
  then show ?thesis
    using wf True u by (auto simp: add patternWf_def nth_list_update less_Suc_eq)
qed

lemma pulses_wf: "patternWf (pulses onMs offMs rpt en)"
proof -
  have "patternWf (emptyPattern\<lparr>pat_enabled := en, pat_repeat := rpt\<rparr>)"
    using patternWf_empty by (simp add: patternWf_def)
  then show ?thesis by (simp add: pulses_def Let_def pattern_add_wf)
qed

lemma stepMs_bound:
  assumes "patternWf p" and "i < unat (pat_count p)"
  shows "unat (stepMs p i) \<le> 60000"
proof -
  define u where "u = \<bar>pat_steps p ! i\<bar>"
  have u: "0 \<le> u" "u \<le> 6000" using assms by (auto simp: patternWf_def u_def)
  have "stepMs p i = word_of_int u * 10" by (auto simp: stepMs_def u_def)
  also have "\<dots> = of_nat (nat u * 10)" using u by simp
  finally have "unat (stepMs p i) = nat u * 10"
    using u by (simp only: unat_of_nat) simp
  then show ?thesis using u by simp
qed

subsection \<open>The scheduler plays the timeline\<close>

lemma length_patternCycle [simp]: "length (patternCycle p) = unat (pat_count p)"
  by (simp add: patternCycle_def)

lemma hasOn_count: "hasOn p \<Longrightarrow> 0 < pat_count p"
  by (auto simp: hasOn_def list_ex_iff word_gt_0)

lemma playAt_silent: "\<forall>x \<in> set phs. \<not> fst x \<Longrightarrow> \<not> playAt phs d"
  by (induction phs d rule: playAt.induct) auto

lemma playAt_over: "totalMs phs \<le> d \<Longrightarrow> \<not> playAt phs d"
  by (induction phs d rule: playAt.induct) (auto simp: totalMs_def)

text \<open>What a running scheduler still has to play, from the start of the current step.\<close>

definition remaining :: "PatternScheduler \<Rightarrow> (bool \<times> nat) list" where
  "remaining s = (let p = sch_pattern s in
     drop (unat (sch_idx s)) (patternCycle p) @
     concat (replicate (unat (pat_repeat p) - unat (sch_rep s) - 1) (patternCycle p)))"

definition schedOk :: "PatternScheduler \<Rightarrow> bool" where
  "schedOk s \<longleftrightarrow> (sch_running s \<longrightarrow>
     sch_rep s < pat_repeat (sch_pattern s) \<and> sch_idx s < pat_count (sch_pattern s))"

lemma remaining_head:
  assumes "sch_idx s < pat_count (sch_pattern s)"
  shows "remaining s = (stepOn (sch_pattern s) (unat (sch_idx s)), unat (stepMs (sch_pattern s) (unat (sch_idx s))))
     # tl (remaining s)"
  using assms
  by (simp add: remaining_def Let_def patternCycle_def drop_map upt_conv_Cons word_less_nat_alt)

lemma skipSilence_off_silent:
  assumes "sch_running s" and "\<not> sch_running (skipSilence s)" and "sch_rep s < pat_repeat (sch_pattern s)"
  shows "\<forall>x \<in> set (remaining s). \<not> fst x"
proof -
  have "\<not> list_ex (stepOn (sch_pattern s)) [unat (sch_idx s)..<unat (pat_count (sch_pattern s))]"
    and "unat (pat_repeat (sch_pattern s)) - unat (sch_rep s) - 1 = 0"
    using assms by (auto simp: skipSilence_def split: if_splits)
  then show ?thesis
    by (auto simp: remaining_def Let_def patternCycle_def drop_map list_ex_iff)
qed

text \<open>One pass of the loop consumes exactly the head of what remains.\<close>

lemma sched_advance_remaining:
  assumes ok: "schedOk s" and run: "sch_running s"
  shows "if sch_running (sched_advance s) then remaining (sched_advance s) = tl (remaining s)
         else (\<forall>x \<in> set (tl (remaining s)). \<not> fst x)"
proof -
  define p where "p = sch_pattern s"
  define s1 where "s1 = s\<lparr>sch_phaseStart := sch_phaseStart s + stepMs p (unat (sch_idx s)),
      sch_idx := (if sch_idx s + 1 \<ge> pat_count p then 0 else sch_idx s + 1),
      sch_rep := (if sch_idx s + 1 \<ge> pat_count p then sch_rep s + 1 else sch_rep s)\<rparr>"
  have adv: "sched_advance s = skipSilence s1"
    by (simp add: sched_advance_def Let_def s1_def p_def)
  have rep: "sch_rep s < pat_repeat p" and idx: "sch_idx s < pat_count p"
    using ok run by (auto simp: schedOk_def p_def)
  then have Suc_idx: "unat (sch_idx s + 1) = Suc (unat (sch_idx s))"
    and Suc_rep: "unat (sch_rep s + 1) = Suc (unat (sch_rep s))"
    by (auto intro: word_Suc_less)
  have rem_skip: "remaining (skipSilence s1) = remaining s1"
    by (simp add: remaining_def Let_def)
  show ?thesis
  proof (cases "sch_rep s1 < pat_repeat p")
    case True
    have "remaining s1 = tl (remaining s)"
    proof (cases "sch_idx s + 1 \<ge> pat_count p")
      case last: True
      have "unat (pat_count p) = Suc (unat (sch_idx s))"
        using last idx Suc_idx by (simp add: word_le_nat_alt word_less_nat_alt)
      moreover have "unat (pat_repeat p) - unat (sch_rep s) - 1
          = Suc (unat (pat_repeat p) - unat (sch_rep s + 1) - 1)"
        using True last Suc_rep by (simp add: s1_def word_less_nat_alt)
      ultimately show ?thesis
        using last by (simp add: remaining_def Let_def s1_def p_def [symmetric] patternCycle_def drop_map)
    next
      case False
      then show ?thesis
        using idx Suc_idx
        by (simp add: remaining_def Let_def s1_def p_def [symmetric] word_less_nat_alt
            Cons_nth_drop_Suc [of "unat (sch_idx s)" "patternCycle p", symmetric] del: drop_Suc)
    qed
    moreover have "sch_running s1" "sch_pattern s1 = p" using run by (simp_all add: s1_def p_def)
    ultimately show ?thesis
      using skipSilence_off_silent [of s1] True rem_skip by (auto simp: adv)
  next
    case False
    then have "\<not> sch_running (skipSilence s1)"
      by (auto simp: s1_def p_def dest: skipSilence_running)
    moreover have "sch_idx s + 1 \<ge> pat_count p" using False rep by (auto simp: s1_def split: if_splits)
    moreover have "unat (pat_count p) = Suc (unat (sch_idx s))" 
      using calculation(2) idx Suc_idx by (simp add: word_le_nat_alt word_less_nat_alt)
    moreover have "unat (pat_repeat p) - unat (sch_rep s) - 1 = 0"
      using False Suc_rep calculation(2) by (simp add: s1_def word_less_nat_alt)
    ultimately show ?thesis
      by (simp add: adv remaining_def Let_def p_def [symmetric] patternCycle_def drop_map)
  qed
qed

text \<open>
  \<open>tracks s t0 phs c\<close>: the current step began \<open>c\<close> ms after the start, and from there on
  what remains is what the whole signal \<open>phs\<close> still has to do.
\<close>

definition tracks :: "PatternScheduler \<Rightarrow> nat \<Rightarrow> (bool \<times> nat) list \<Rightarrow> nat \<Rightarrow> bool" where
  "tracks s t0 phs c \<longleftrightarrow> schedOk s \<and>
     (\<forall>x \<ge> c. playAt phs x \<longleftrightarrow> sch_running s \<and> playAt (remaining s) (x - c)) \<and>
     (sch_running s \<longrightarrow> sch_phaseStart s = of_nat (t0 + c) \<and> c + totalMs (remaining s) = totalMs phs)"

lemma schedOk_advance: "schedOk s \<Longrightarrow> schedOk (sched_advance s)"
proof (cases "sch_running (sched_advance s)")
  case True
  assume ok: "schedOk s"
  have "sch_running s" using sched_advance_running [OF True] by simp
  with ok have "0 < pat_count (sch_pattern s)" by (auto simp: schedOk_def intro: le_less_trans [OF word_zero_le])
  with sched_advance_inRange [OF True] show ?thesis
    by (auto simp: schedOk_def schedInRange_def)
qed (simp add: schedOk_def)

lemma tracks_advance:
  assumes "tracks s t0 phs c" and "sch_running s"
  shows "tracks (sched_advance s) t0 phs (c + unat (stepMs (sch_pattern s) (unat (sch_idx s))))"
proof -
  define m where "m = unat (stepMs (sch_pattern s) (unat (sch_idx s)))"
  define r where "r = tl (remaining s)"
  have ok: "schedOk s" using assms by (simp add: tracks_def)
  then have rem: "remaining s = (stepOn (sch_pattern s) (unat (sch_idx s)), m) # r"
    using assms(2) remaining_head [of s] by (simp add: schedOk_def m_def r_def)
  have play: "playAt phs x \<longleftrightarrow> playAt r (x - (c + m))" if "x \<ge> c + m" for x
  proof -
    have "m \<le> x - c" "c \<le> x" using that by arith+
    then show ?thesis using assms by (simp add: tracks_def rem diff_diff_add)
  qed
  have total: "c + m + totalMs r = totalMs phs"
    using assms by (simp add: tracks_def rem totalMs_def)
  have start: "sch_phaseStart (sched_advance s) = of_nat (t0 + (c + m))"
    using assms by (simp add: tracks_def m_def)
  show ?thesis
    using sched_advance_remaining [OF ok assms(2)] schedOk_advance [OF ok] play total start
    by (auto simp: tracks_def m_def [symmetric] r_def [symmetric] playAt_silent split: if_splits)
qed

lemma tracks_loop:
  assumes "tracks s t0 phs c" and "c \<le> d" and "sch_running s \<longrightarrow> d - c < 2 ^ 32"
  shows "\<exists>c' \<le> d. tracks (sched_loop (of_nat (t0 + d)) s) t0 phs c' \<and>
    (sch_running (sched_loop (of_nat (t0 + d)) s) \<longrightarrow> d - c' < 2 ^ 32) \<and>
    \<not> phaseDue (of_nat (t0 + d)) (sched_loop (of_nat (t0 + d)) s)"
  using assms
proof (induction "of_nat (t0 + d) :: u32" s arbitrary: c rule: sched_loop.induct)
  case (1 s)
  let ?now = "of_nat (t0 + d) :: u32"
  let ?m = "unat (stepMs (sch_pattern s) (unat (sch_idx s)))"
  show ?case
  proof (cases "phaseDue ?now s")
    case False
    then have "sched_loop ?now s = s" by (subst sched_loop.simps) simp
    with False "1.prems" show ?thesis by auto
  next
    case True
    then have run: "sch_running s" by (simp add: phaseDue_def)
    with "1.prems" have c: "d - c < 2 ^ 32" "sch_phaseStart s = of_nat (t0 + c)"
      by (auto simp: tracks_def)
    have due: "?m \<le> d - c"
      using True c "1.prems"(2) intervalPassed_clock [of "t0 + c" "t0 + d"] by (simp add: phaseDue_def)
    have "sched_loop ?now s = sched_loop ?now (sched_advance s)"
      using True by (subst sched_loop.simps) simp
    moreover have "c + ?m \<le> d" "d - (c + ?m) < 2 ^ 32" using due c "1.prems"(2) by arith+
    ultimately show ?thesis
      using "1.hyps" [OF True tracks_advance [OF "1.prems"(1) run]] by simp
  qed
qed

lemma not_due_head:
  assumes "tracks s t0 phs c" and "\<not> phaseDue (of_nat (t0 + d)) s" and "sch_running s"
    and "c \<le> d" and "d - c < 2 ^ 32"
  shows "d - c < unat (stepMs (sch_pattern s) (unat (sch_idx s)))"
  using assms intervalPassed_clock [of "t0 + c" "t0 + d"]
  by (auto simp: phaseDue_def tracks_def not_le)

text \<open>A tick at \<open>d\<close> ms answers what the signal does at \<open>d\<close>, and is over when the signal is.\<close>

lemma sched_tick_tracks:
  assumes "tracks s t0 phs c" and "c \<le> d" and "sch_running s \<longrightarrow> d - c < 2 ^ 32"
    and tick: "sched_tick s (of_nat (t0 + d)) = (out, s')"
  shows "out = playAt phs d"
    and "totalMs phs \<le> d \<Longrightarrow> \<not> sch_running s'"
    and "\<exists>c' \<le> d. tracks s' t0 phs c' \<and>
      (sch_running s' \<longrightarrow> d - c' < unat (stepMs (sch_pattern s') (unat (sch_idx s'))))"
proof -
  define r where "r = sched_loop (of_nat (t0 + d)) s"
  have out: "out = (sch_running r \<and> stepOn (sch_pattern r) (unat (sch_idx r)))" "s' = r"
    using tick by (auto simp: sched_tick_def r_def Let_def)
  obtain c' where c': "c' \<le> d" "tracks r t0 phs c'" "sch_running r \<longrightarrow> d - c' < 2 ^ 32"
      "\<not> phaseDue (of_nat (t0 + d)) r"
    using tracks_loop [OF assms(1-3)] by (auto simp: r_def)
  then have head: "sch_running r \<longrightarrow> d - c' < unat (stepMs (sch_pattern r) (unat (sch_idx r)))"
    using not_due_head by blast
  have rem: "sch_running r \<Longrightarrow> remaining r = (stepOn (sch_pattern r) (unat (sch_idx r)),
      unat (stepMs (sch_pattern r) (unat (sch_idx r)))) # tl (remaining r)"
    using c'(2) remaining_head by (simp add: tracks_def schedOk_def)
  have play: "playAt phs d \<longleftrightarrow> sch_running r \<and> playAt (remaining r) (d - c')"
    using c' by (simp add: tracks_def)
  show "out = playAt phs d"
  proof (cases "sch_running r")
    case True
    then show ?thesis using play head by (subst (asm) rem) (auto simp: out)
  qed (simp add: play out)
  show "\<not> sch_running s'" if total: "totalMs phs \<le> d"
  proof
    assume "sch_running s'"
    then have run: "sch_running r" by (simp add: out)
    have "totalMs (remaining r) \<ge> unat (stepMs (sch_pattern r) (unat (sch_idx r)))"
      by (subst rem [OF run]) (simp add: totalMs_def)
    then show False using c' head run total by (auto simp: tracks_def)
  qed
  show "\<exists>c' \<le> d. tracks s' t0 phs c' \<and>
      (sch_running s' \<longrightarrow> d - c' < unat (stepMs (sch_pattern s') (unat (sch_idx s'))))"
    using c' head by (auto simp: out)
qed

lemma sched_start_tracks: "tracks (sched_start p (of_nat t0) s) t0 (timeline p) 0"
proof (cases "pat_enabled p \<and> pat_repeat p > 0 \<and> hasOn p")
  case False
  then have "\<not> sch_running (sched_start p (of_nat t0) s)" and "timeline p = []"
    by (auto simp: sched_start_def skipSilence_def timeline_def word_gt_0)
  then show ?thesis by (simp add: tracks_def schedOk_def)
next
  case True
  define s1 where "s1 = s\<lparr>sch_pattern := p, sch_rep := 0, sch_idx := 0,
      sch_phaseStart := of_nat t0, sch_running := True\<rparr>"
  have "sched_start p (of_nat t0) s = skipSilence s1"
    using True by (simp add: sched_start_def s1_def)
  also have "skipSilence s1 = s1"
    using True by (auto simp: skipSilence_def s1_def hasOn_def)
  finally have start: "sched_start p (of_nat t0) s = s1" .
  have "unat (pat_repeat p) = Suc (unat (pat_repeat p) - 1)"
    using True by (simp add: word_less_nat_alt)
  then have "concat (replicate (unat (pat_repeat p)) (patternCycle p)) =
      patternCycle p @ concat (replicate (unat (pat_repeat p) - 1) (patternCycle p))"
    by (metis concat.simps(2) replicate_Suc)
  then have "remaining s1 = timeline p"
    using True by (simp add: remaining_def Let_def s1_def timeline_def)
  then show ?thesis
    using True hasOn_count [of p] by (simp add: start tracks_def schedOk_def) (simp add: s1_def)
qed

lemma sched_loop_pattern [simp]: "sch_pattern (sched_loop t s) = sch_pattern s"
proof (induction t s rule: sched_loop.induct)
  case (1 t s)
  then show ?case by (subst sched_loop.simps) simp
qed

lemma sched_tick_pattern [simp]: "sch_pattern (snd (sched_tick s t)) = sch_pattern s"
  by (simp add: sched_tick_def Let_def)

lemma sched_start_pattern [simp]: "sch_pattern (sched_start p t s) = p"
  by (simp add: sched_start_def)

lemma runTicks_tracks:
  assumes "tracks s t0 phs c" and "c \<le> d" and "sch_running s \<longrightarrow> d - c \<le> 60000"
    and "tickGaps d ds" and "patternWf (sch_pattern s)"
  shows "fst (runTicks s t0 ds) = map (playAt phs) ds"
  using assms
proof (induction ds arbitrary: s c d)
  case Nil
  then show ?case by simp
next
  case (Cons e es)
  obtain out s' where tick: "sched_tick s (of_nat (t0 + e)) = (out, s')" by fastforce
  have gap: "c \<le> e" "sch_running s \<longrightarrow> e - c < 2 ^ 32" using Cons.prems by auto
  have out: "out = playAt phs e"
    using sched_tick_tracks(1) [OF Cons.prems(1) gap tick] .
  have pat: "sch_pattern s' = sch_pattern s" using sched_tick_pattern [of s] tick by (metis snd_conv)
  obtain c' where c': "c' \<le> e" "tracks s' t0 phs c'"
      "sch_running s' \<longrightarrow> e - c' < unat (stepMs (sch_pattern s') (unat (sch_idx s')))"
    using sched_tick_tracks(3) [OF Cons.prems(1) gap tick] by blast
  have "sch_running s' \<Longrightarrow> unat (stepMs (sch_pattern s') (unat (sch_idx s'))) \<le> 60000"
    using c'(2) Cons.prems(5) pat stepMs_bound
    by (simp add: tracks_def schedOk_def word_less_nat_alt)
  then have "sch_running s' \<longrightarrow> e - c' \<le> 60000" using c'(3) by fastforce
  then show ?case
    using Cons.IH [OF c'(2,1)] Cons.prems tick out pat by (simp add: split_beta)
qed

text \<open>
  C22. The siren signal does not depend on how often the loop runs: whatever the times of
  the ticks (in order, less than 24 days apart, the clock wrapping or not), the output of
  every tick is what the pattern written out in full does at that moment. A coarse tick
  interval cannot stretch, skip or repeat a step.
\<close>

theorem scheduler_plays_timeline:
  assumes "patternWf p" and "tickGaps 0 ds"
  shows "fst (runTicks (sched_start p (of_nat t0) s) t0 ds) = map (playAt (timeline p)) ds"
  using assms by (intro runTicks_tracks [OF sched_start_tracks]) auto

theorem scheduler_plays_timeline_witness:
  "fst (runTicks (sched_start (pulses 600 400 2 True) (of_nat 4294967000) initScheduler) 4294967000
      [0, 500, 700, 1200, 9000]) = [True, True, False, True, False]"
proof -
  have "fst (runTicks (sched_start (pulses 600 400 2 True) (of_nat 4294967000) initScheduler) 4294967000
      [0, 500, 700, 1200, 9000]) =
      map (playAt (timeline (pulses 600 400 2 True))) [0, 500, 700, 1200, 9000]"
    by (rule scheduler_plays_timeline) (simp_all add: pulses_wf)
  also have "\<dots> = [True, True, False, True, False]" by code_simp
  finally show ?thesis .
qed

text \<open>
  A signal ends: a tick at or after the total length of the pattern answers OFF and
  leaves the scheduler stopped, so the notification engine moves on to the next signal.
\<close>

theorem scheduler_finishes:
  assumes "totalMs (timeline p) \<le> d" and "d < 2 ^ 32"
    and "sched_tick (sched_start p (of_nat t0) s) (of_nat (t0 + d)) = (out, s')"
  shows "\<not> out \<and> \<not> sch_running s'"
  using sched_tick_tracks(1,2) [OF sched_start_tracks _ _ assms(3)] assms playAt_over [OF assms(1)]
  by auto

theorem scheduler_finishes_witness:
  "\<not> sch_running (snd (sched_tick (sched_start (pulses 600 400 2 True) (of_nat 100) initScheduler)
      (of_nat (100 + 2000))))"
proof -
  have total: "totalMs (timeline (pulses 600 400 2 True)) \<le> 2000" by code_simp
  show ?thesis using scheduler_finishes [where ?t0.0 = 100 and s = initScheduler, OF total _ surjective_pairing] by simp
qed

end
