(* ===== verification/ThreatTypes.thy ===== *)
theory ThreatTypes
  imports AirPrelude
begin

text \<open>
  \<open>lib/core/src/airalert/Types.h\<close>, \<open>Location.h\<close> and \<open>Alert.h\<close>: the enumerations and
  plain structs of the core, and the conversions between them and the strings of the
  upstream API and of the configuration file. A \<open>const char*\<close> is a \<open>string option\<close>,
  \<open>None\<close> for the null pointer. Arrays indexed by \<open>AlertType\<close> become functions on
  \<open>AlertType\<close>, and a loop over the indices becomes a fold over \<open>allTypes\<close>.
\<close>

datatype AlertType =
  AirRaid | ArtilleryShelling | UrbanFights | Chemical | Nuclear | AirRaidYellow | UnknownType

datatype LocationType = Oblast | Raion | Hromada | City | UnknownLoc

datatype Coverage = NoCoverage | Partial | Full

datatype AlertState = UnknownState | Inactive | Active

fun typeIdx :: "AlertType \<Rightarrow> nat" where
  "typeIdx AirRaid = 0"
| "typeIdx ArtilleryShelling = 1"
| "typeIdx UrbanFights = 2"
| "typeIdx Chemical = 3"
| "typeIdx Nuclear = 4"
| "typeIdx AirRaidYellow = 5"
| "typeIdx UnknownType = 6"

definition allTypes :: "AlertType list" where
  "allTypes = [AirRaid, ArtilleryShelling, UrbanFights, Chemical, Nuclear, AirRaidYellow, UnknownType]"

fun covIdx :: "Coverage \<Rightarrow> nat" where
  "covIdx NoCoverage = 0"
| "covIdx Partial = 1"
| "covIdx Full = 2"

instantiation Coverage :: linorder
begin

definition less_eq_Coverage :: "Coverage \<Rightarrow> Coverage \<Rightarrow> bool" where
  "less_eq_Coverage a b \<longleftrightarrow> covIdx a \<le> covIdx b"

definition less_Coverage :: "Coverage \<Rightarrow> Coverage \<Rightarrow> bool" where
  "less_Coverage a b \<longleftrightarrow> covIdx a < covIdx b"

instance
proof
  fix a b c :: Coverage
  show "a < b \<longleftrightarrow> a \<le> b \<and> \<not> b \<le> a"
    by (auto simp: less_eq_Coverage_def less_Coverage_def)
  show "a \<le> a" by (simp add: less_eq_Coverage_def)
  show "a \<le> b \<Longrightarrow> b \<le> c \<Longrightarrow> a \<le> c" by (simp add: less_eq_Coverage_def)
  show "a \<le> b \<Longrightarrow> b \<le> a \<Longrightarrow> a = b"
    by (cases a; cases b; simp add: less_eq_Coverage_def)
  show "a \<le> b \<or> b \<le> a" by (auto simp: less_eq_Coverage_def)
qed

end

record Location =
  loc_uid :: u16
  loc_type :: LocationType
  loc_oblastUid :: u16
  loc_raionUid :: u16

definition defaultLocation :: Location where
  "defaultLocation = \<lparr>loc_uid = 0, loc_type = UnknownLoc, loc_oblastUid = 0, loc_raionUid = 0\<rparr>"

record Alert =
  al_type :: AlertType
  al_locationUid :: u16
  al_startedAt :: int

definition defaultAlert :: Alert where
  "defaultAlert = \<lparr>al_type = UnknownType, al_locationUid = 0, al_startedAt = 0\<rparr>"

definition alertTypeFromString :: "string option \<Rightarrow> AlertType" where
  "alertTypeFromString so = (case so of None \<Rightarrow> UnknownType | Some s \<Rightarrow>
     if s = ''air_raid'' then AirRaid
     else if s = ''artillery_shelling'' then ArtilleryShelling
     else if s = ''urban_fights'' then UrbanFights
     else if s = ''chemical'' then Chemical
     else if s = ''nuclear'' then Nuclear
     else if s = ''air_raid_yellow'' then AirRaidYellow
     else UnknownType)"

definition alertTypeFromApi :: "string option \<Rightarrow> string option \<Rightarrow> AlertType" where
  "alertTypeFromApi typeo level = (case typeo of None \<Rightarrow> UnknownType | Some ty \<Rightarrow>
     if ty = ''AIR''
     then (if level = Some ''Yellow'' then AirRaidYellow else AirRaid)
     else if ty = ''ARTILLERY'' then ArtilleryShelling
     else if ty = ''URBAN_FIGHTS'' then UrbanFights
     else if ty = ''CHEMICAL'' then Chemical
     else if ty = ''NUCLEAR'' then Nuclear
     else UnknownType)"

fun alertTypeToString :: "AlertType \<Rightarrow> string" where
  "alertTypeToString AirRaid = ''air_raid''"
| "alertTypeToString ArtilleryShelling = ''artillery_shelling''"
| "alertTypeToString UrbanFights = ''urban_fights''"
| "alertTypeToString Chemical = ''chemical''"
| "alertTypeToString Nuclear = ''nuclear''"
| "alertTypeToString AirRaidYellow = ''air_raid_yellow''"
| "alertTypeToString UnknownType = ''unknown''"

definition locationTypeFromString :: "string option \<Rightarrow> LocationType" where
  "locationTypeFromString so = (case so of None \<Rightarrow> UnknownLoc | Some s \<Rightarrow>
     if s = ''oblast'' then Oblast
     else if s = ''raion'' then Raion
     else if s = ''hromada'' then Hromada
     else if s = ''city'' then City
     else UnknownLoc)"

fun locationTypeToString :: "LocationType \<Rightarrow> string" where
  "locationTypeToString Oblast = ''oblast''"
| "locationTypeToString Raion = ''raion''"
| "locationTypeToString Hromada = ''hromada''"
| "locationTypeToString City = ''city''"
| "locationTypeToString UnknownLoc = ''unknown''"

lemma set_allTypes [simp]: "set allTypes = UNIV"
proof -
  have "t \<in> set allTypes" for t by (cases t) (simp_all add: allTypes_def)
  then show ?thesis by auto
qed

lemma distinct_allTypes [simp]: "distinct allTypes"
  by (simp add: allTypes_def)

lemma length_allTypes [simp]: "length allTypes = 7"
  by (simp add: allTypes_def)

lemma typeIdx_less: "typeIdx t < 7"
  by (cases t) simp_all

lemma typeIdx_less_8 [simp]: "typeIdx t < 8"
  by (cases t) simp_all

lemma typeIdx_inj [simp]: "typeIdx a = typeIdx b \<longleftrightarrow> a = b"
  by (cases a; cases b) simp_all

lemma NoCoverage_least [simp]: "NoCoverage \<le> c"
  by (simp add: less_eq_Coverage_def)

lemma Coverage_bot_less [simp]: "NoCoverage < c \<longleftrightarrow> c \<noteq> NoCoverage"
  by (cases c) (simp_all add: less_Coverage_def)

lemma Full_greatest [simp]: "c \<le> Full"
  by (cases c) (simp_all add: less_eq_Coverage_def)

text \<open>
  A mask over \<open>AlertType\<close> holds one bit per type: with seven types the eight bits are
  enough, so setting, clearing and testing a type never touches another one.
\<close>

definition typeInMask :: "u8 \<Rightarrow> AlertType \<Rightarrow> bool" where
  "typeInMask m t \<longleftrightarrow> maskTest m (typeIdx t)"

lemma typeInMask_set [simp]:
  "typeInMask (maskSet m (typeIdx t)) u \<longleftrightarrow> typeInMask m u \<or> t = u"
  by (auto simp: typeInMask_def mask_simps)

lemma typeInMask_clear [simp]:
  "typeInMask (maskClear m (typeIdx t)) u \<longleftrightarrow> typeInMask m u \<and> t \<noteq> u"
  by (auto simp: typeInMask_def mask_simps)

lemma typeInMask_0 [simp]: "\<not> typeInMask 0 t"
  by (simp add: typeInMask_def mask_simps)

lemma alertType_roundtrip: "alertTypeFromString (Some (alertTypeToString t)) = t"
  by (cases t) (simp_all add: alertTypeFromString_def)

lemma locationType_roundtrip: "locationTypeFromString (Some (locationTypeToString t)) = t"
  by (cases t) (simp_all add: locationTypeFromString_def)

lemma alertTypeToString_inj [simp]: "alertTypeToString a = alertTypeToString b \<longleftrightarrow> a = b"
  by (metis alertType_roundtrip)

end
