(* ===== verification/AlertProfiles.thy ===== *)
theory AlertProfiles
  imports Pattern ThreatTypes
begin

text \<open>
  \<open>lib/core/src/airalert/AlertProfiles.h\<close>: what the siren plays for each threat.
\<close>

record AlertProfile =
  ap_enabled :: bool
  ap_start :: Pattern
  ap_end :: Pattern
  ap_reminder :: Pattern
  ap_reminderIntervalMs :: u32
  ap_priority :: u8

definition baseProfile :: AlertProfile where
  "baseProfile = \<lparr>ap_enabled = True, ap_start = pulses 3000 1000 3 True, ap_end = pulses 1000 1000 2 True,
     ap_reminder = pulses 1000 1000 2 False, ap_reminderIntervalMs = 900000, ap_priority = 50\<rparr>"

definition defaultProfile :: "AlertType \<Rightarrow> AlertProfile" where
  "defaultProfile t =
     (let p = baseProfile in
      case t of
        Nuclear \<Rightarrow> p\<lparr>ap_priority := 90\<rparr>
      | Chemical \<Rightarrow> p\<lparr>ap_priority := 80\<rparr>
      | ArtilleryShelling \<Rightarrow> p\<lparr>ap_priority := 60\<rparr>
      | UrbanFights \<Rightarrow> p\<lparr>ap_priority := 55\<rparr>
      | AirRaid \<Rightarrow> p\<lparr>ap_priority := 50\<rparr>
      | AirRaidYellow \<Rightarrow> p\<lparr>ap_priority := 45, ap_start := pulses 1000 1000 2 True\<rparr>
      | UnknownType \<Rightarrow> p\<lparr>ap_priority := 40\<rparr>)"

definition manualTestPattern :: Pattern where
  "manualTestPattern = pulses 600 0 1 True"

definition profileWf :: "AlertProfile \<Rightarrow> bool" where
  "profileWf p \<longleftrightarrow> patternWf (ap_start p) \<and> patternWf (ap_end p) \<and> patternWf (ap_reminder p)"

lemma defaultProfile_wf: "profileWf (defaultProfile t)"
  by (cases t) (simp_all add: profileWf_def defaultProfile_def baseProfile_def pulses_wf)

end
