(* ===== verification/AlertEngine.thy ===== *)
theory AlertEngine
  imports ThreatTypes
begin

text \<open>
  \<open>lib/core/src/airalert/AlertEngine.h\<close> and \<open>AlertEngine.cpp\<close>: one state machine per threat
  type over matched snapshots, with confirmation counts for the start and the end of an
  alert, and the events it emits. The caller's event buffer of \<open>maxEvents\<close> slots is a list
  that takes no more than that many events.
\<close>

datatype AlertEvent = NoAlertEvent | Started | Escalated | CoverageReduced | LocationAdded | Ended

record EngineEvent =
  ee_kind :: AlertEvent
  ee_type :: AlertType

record EngineConfig =
  ec_startConfirmations :: u8
  ec_endConfirmations :: u8
  ec_partialActive :: bool

record TypeInput =
  ti_coverage :: Coverage
  ti_locationCount :: u8
  ti_earliestStartedAt :: int

type_synonym Snapshot = "AlertType \<Rightarrow> TypeInput"

record TypeStatus =
  ts_state :: AlertState
  ts_coverage :: Coverage
  ts_startedAt :: int
  ts_startCount :: u8
  ts_endCount :: u8
  ts_locationCount :: u8

record AlertEngine =
  ae_cfg :: EngineConfig
  ae_types :: "AlertType \<Rightarrow> TypeStatus"
  ae_synced :: bool

definition defaultEngineConfig :: EngineConfig where
  "defaultEngineConfig = \<lparr>ec_startConfirmations = 1, ec_endConfirmations = 2, ec_partialActive = True\<rparr>"

definition emptyInput :: TypeInput where
  "emptyInput = \<lparr>ti_coverage = NoCoverage, ti_locationCount = 0, ti_earliestStartedAt = 0\<rparr>"

definition emptySnapshot :: Snapshot where
  "emptySnapshot = (\<lambda>_. emptyInput)"

definition initStatus :: TypeStatus where
  "initStatus = \<lparr>ts_state = UnknownState, ts_coverage = NoCoverage, ts_startedAt = 0,
     ts_startCount = 0, ts_endCount = 0, ts_locationCount = 0\<rparr>"

definition initEngine :: "EngineConfig \<Rightarrow> AlertEngine" where
  "initEngine cfg = \<lparr>ae_cfg = cfg, ae_types = (\<lambda>_. initStatus), ae_synced = False\<rparr>"

definition engine_setConfig :: "EngineConfig \<Rightarrow> AlertEngine \<Rightarrow> AlertEngine" where
  "engine_setConfig cfg e = e\<lparr>ae_cfg := cfg\<rparr>"

definition engine_reset :: "AlertEngine \<Rightarrow> AlertEngine" where
  "engine_reset e = e\<lparr>ae_types := (\<lambda>_. initStatus), ae_synced := False\<rparr>"

definition pushEvent :: "nat \<Rightarrow> AlertEvent \<Rightarrow> AlertType \<Rightarrow> EngineEvent list \<Rightarrow> EngineEvent list" where
  "pushEvent maxEvents k ty evs =
     (if length evs < maxEvents then evs @ [\<lparr>ee_kind = k, ee_type = ty\<rparr>] else evs)"

definition anyActive :: "AlertEngine \<Rightarrow> bool" where
  "anyActive e = list_ex (\<lambda>t. ts_state (ae_types e t) = Active) allTypes"

definition isAir :: "AlertType \<Rightarrow> bool" where
  "isAir t \<longleftrightarrow> t = AirRaid \<or> t = AirRaidYellow"

definition isHandover :: "EngineEvent \<Rightarrow> EngineEvent list \<Rightarrow> bool \<Rightarrow> AlertEngine \<Rightarrow> bool" where
  "isHandover ev batch anyType e =
     list_ex (\<lambda>other.
       \<not> (other = ee_type ev \<or> \<not> (anyType \<or> (isAir (ee_type ev) \<and> isAir other))) \<and>
       (let ts = ae_types e other; active = (ts_state ts = Active) in
        if ee_kind ev = Ended \<and> active then True
        else if ee_kind ev \<noteq> Started then False
        else if active \<and> ts_endCount ts > 0 then True
        else list_ex (\<lambda>b. ee_kind b = Ended \<and> ee_type b = other) batch)) allTypes"

text \<open>The coverage the engine counts: partial-only alerts may be configured away.\<close>

definition effectiveCoverage :: "EngineConfig \<Rightarrow> TypeInput \<Rightarrow> Coverage" where
  "effectiveCoverage cfg inp =
     (if \<not> ec_partialActive cfg \<and> ti_coverage inp = Partial then NoCoverage else ti_coverage inp)"

text \<open>One turn of the loop over the types: the new status and the events, in order.\<close>

definition applyType :: "EngineConfig \<Rightarrow> TypeInput \<Rightarrow> TypeStatus \<Rightarrow> TypeStatus \<times> AlertEvent list" where
  "applyType cfg inp ts =
     (let cov = effectiveCoverage cfg inp; present = (cov \<noteq> NoCoverage) in
      if ts_state ts \<noteq> Active then
        (let ts = ts\<lparr>ts_endCount := 0, ts_state := Inactive\<rparr> in
         if present then
           (let ts = ts\<lparr>ts_startCount := ts_startCount ts + 1\<rparr> in
            if ts_startCount ts \<ge> ec_startConfirmations cfg
            then (ts\<lparr>ts_state := Active, ts_coverage := cov, ts_startedAt := ti_earliestStartedAt inp,
                     ts_locationCount := ti_locationCount inp, ts_startCount := 0\<rparr>, [Started])
            else (ts, []))
         else (ts\<lparr>ts_startCount := 0\<rparr>, []))
      else if present then
        (let evs = (if ts_coverage ts = Partial \<and> cov = Full then [Escalated]
                    else if ts_coverage ts = Full \<and> cov = Partial then [CoverageReduced] else []);
             evs = evs @ (if ti_locationCount inp > ts_locationCount ts then [LocationAdded] else [])
         in (ts\<lparr>ts_endCount := 0, ts_coverage := cov, ts_locationCount := ti_locationCount inp,
               ts_startedAt := (if ts_startedAt ts = 0 then ti_earliestStartedAt inp else ts_startedAt ts)\<rparr>,
             evs))
      else
        (let ts = ts\<lparr>ts_endCount := ts_endCount ts + 1\<rparr> in
         if ts_endCount ts \<ge> ec_endConfirmations cfg
         then (initStatus\<lparr>ts_state := Inactive\<rparr>, [Ended])
         else (ts, [])))"

definition engineStep ::
    "EngineConfig \<Rightarrow> Snapshot \<Rightarrow> nat \<Rightarrow> AlertType \<Rightarrow> (AlertType \<Rightarrow> TypeStatus) \<times> EngineEvent list \<Rightarrow>
     (AlertType \<Rightarrow> TypeStatus) \<times> EngineEvent list" where
  "engineStep cfg snap maxEvents ty st =
     (let (types, evs) = st;
          (ts, kinds) = applyType cfg (snap ty) (types ty)
      in (types(ty := ts), fold (\<lambda>k. pushEvent maxEvents k ty) kinds evs))"

definition applySnapshot :: "Snapshot \<Rightarrow> nat \<Rightarrow> AlertEngine \<Rightarrow> EngineEvent list \<times> AlertEngine" where
  "applySnapshot snap maxEvents e =
     (let (types, evs) = fold (engineStep (ae_cfg e) snap maxEvents) allTypes (ae_types e, [])
      in (evs, e\<lparr>ae_types := types, ae_synced := True\<rparr>))"

subsection \<open>One snapshot, type by type\<close>

definition eventsOf :: "EngineConfig \<Rightarrow> Snapshot \<Rightarrow> (AlertType \<Rightarrow> TypeStatus) \<Rightarrow> AlertType \<Rightarrow> EngineEvent list" where
  "eventsOf cfg snap types ty =
     map (\<lambda>k. \<lparr>ee_kind = k, ee_type = ty\<rparr>) (snd (applyType cfg (snap ty) (types ty)))"

lemma take_take_append: "take m (take m xs @ ys) = take m (xs @ ys)"
  by (simp add: min_def)

lemma fold_pushEvent:
  "length evs \<le> maxEvents \<Longrightarrow> fold (\<lambda>k. pushEvent maxEvents k ty) kinds evs =
   take maxEvents (evs @ map (\<lambda>k. \<lparr>ee_kind = k, ee_type = ty\<rparr>) kinds)"
proof (induction kinds arbitrary: evs)
  case (Cons k kinds)
  then show ?case
    using Cons.IH [of "evs @ [\<lparr>ee_kind = k, ee_type = ty\<rparr>]"] Cons.IH [of evs]
    by (auto simp: pushEvent_def)
qed simp

lemma engineStep_eq:
  "length evs \<le> maxEvents \<Longrightarrow> engineStep cfg snap maxEvents ty (types, evs) =
   (types(ty := fst (applyType cfg (snap ty) (types ty))), take maxEvents (evs @ eventsOf cfg snap types ty))"
  by (simp add: engineStep_def eventsOf_def split_beta fold_pushEvent)

lemma fold_engineStep:
  assumes "distinct tys" and "length evs \<le> maxEvents" and "\<forall>ty \<in> set tys. types ty = types0 ty"
  shows "fold (engineStep cfg snap maxEvents) tys (types, evs) =
    (\<lambda>ty. if ty \<in> set tys then fst (applyType cfg (snap ty) (types0 ty)) else types ty,
     take maxEvents (evs @ concat (map (eventsOf cfg snap types0) tys)))"
  using assms
proof (induction tys arbitrary: types evs)
  case Nil
  then show ?case by simp
next
  case (Cons ty tys)
  have here: "eventsOf cfg snap types ty = eventsOf cfg snap types0 ty" "types ty = types0 ty"
    using Cons.prems(3) by (simp_all add: eventsOf_def)
  show ?case
    using Cons.prems
    by (subst fold_simps, subst engineStep_eq, simp, subst Cons.IH)
      (auto simp: here take_take_append fun_eq_iff simp del: take_append)
qed

text \<open>
  The types do not interact inside a snapshot, and the buffer keeps the first
  \<open>maxEvents\<close> events of the whole list.
\<close>

lemma applySnapshot_types:
  "ae_types (snd (applySnapshot snap maxEvents e)) = (\<lambda>ty. fst (applyType (ae_cfg e) (snap ty) (ae_types e ty)))"
  using fold_engineStep [of allTypes "[]" maxEvents "ae_types e" "ae_types e" "ae_cfg e" snap]
  by (simp add: applySnapshot_def)

lemma applySnapshot_events:
  "fst (applySnapshot snap maxEvents e) =
   take maxEvents (concat (map (eventsOf (ae_cfg e) snap (ae_types e)) allTypes))"
  using fold_engineStep [of allTypes "[]" maxEvents "ae_types e" "ae_types e" "ae_cfg e" snap]
  by (simp add: applySnapshot_def)

lemma applySnapshot_cfg [simp]: "ae_cfg (snd (applySnapshot snap maxEvents e)) = ae_cfg e"
  by (simp add: applySnapshot_def split_beta Let_def)

lemma applySnapshot_synced [simp]: "ae_synced (snd (applySnapshot snap maxEvents e))"
  by (simp add: applySnapshot_def split_beta Let_def)

subsection \<open>When a type is active\<close>

fun engineRun :: "AlertEngine \<Rightarrow> Snapshot list \<Rightarrow> nat \<Rightarrow> AlertEngine" where
  "engineRun e [] maxEvents = e"
| "engineRun e (snap # snaps) maxEvents = engineRun (snd (applySnapshot snap maxEvents e)) snaps maxEvents"

definition present :: "EngineConfig \<Rightarrow> AlertType \<Rightarrow> Snapshot \<Rightarrow> bool" where
  "present cfg ty snap \<longleftrightarrow> effectiveCoverage cfg (snap ty) \<noteq> NoCoverage"

text \<open>
  The specification: an alert is active when, at some point, it was present in \<open>s\<close>
  snapshots in a row, and since then never absent from \<open>e\<close> in a row.
\<close>

definition confirmedActive :: "nat \<Rightarrow> nat \<Rightarrow> bool list \<Rightarrow> bool" where
  "confirmedActive s e h \<longleftrightarrow> (\<exists>before since. h = before @ replicate s True @ since \<and>
     \<not> (\<exists>xs ys. since = xs @ replicate e False @ ys))"

definition trail :: "bool \<Rightarrow> bool list \<Rightarrow> nat" where
  "trail b h = length (takeWhile (\<lambda>x. x = b) (rev h))"

lemma trail_snoc [simp]: "trail b (h @ [x]) = (if x = b then Suc (trail b h) else 0)"
  by (simp add: trail_def)

lemma trail_Nil [simp]: "trail b [] = 0"
  by (simp add: trail_def)

lemma trail_after: "trail False (xs @ [True] @ ys) = trail False ys"
proof (cases "\<forall>y \<in> set ys. \<not> y")
  case True
  then have all: "takeWhile Not (rev ys) = rev ys" by (simp add: takeWhile_eq_all_conv)
  show ?thesis using True by (simp add: trail_def takeWhile_append all)
next
  case False
  then show ?thesis by (auto simp: trail_def takeWhile_append)
qed

lemma trail_after_replicate:
  assumes "0 < s"
  shows "trail False (xs @ replicate s True @ ys) = trail False ys"
proof -
  have "replicate s True = replicate (s - 1) True @ [True]"
    using assms by (metis Suc_pred' replicate_Suc replicate_append_same)
  then show ?thesis using trail_after [of "xs @ replicate (s - 1) True" ys] by simp
qed

lemma trail_ge_iff: "n \<le> trail b h \<longleftrightarrow> (\<exists>xs. h = xs @ replicate n b)"
proof
  assume n: "n \<le> trail b h"
  have "takeWhile (\<lambda>x. x = b) (rev h) = replicate (trail b h) b"
    by (rule replicate_eqI) (auto simp: trail_def dest: set_takeWhileD)
  then have "rev h = replicate (trail b h) b @ dropWhile (\<lambda>x. x = b) (rev h)"
    by (metis takeWhile_dropWhile_id)
  also have "replicate (trail b h) b = replicate n b @ replicate (trail b h - n) b"
    using n by (simp add: replicate_add [symmetric])
  finally have "h = rev (dropWhile (\<lambda>x. x = b) (rev h)) @ replicate (trail b h - n) b @ replicate n b"
    by (metis append.assoc rev_append rev_replicate rev_rev_ident)
  then show "\<exists>xs. h = xs @ replicate n b" by (metis append.assoc)
next
  assume "\<exists>xs. h = xs @ replicate n b"
  then show "n \<le> trail b h" by (auto simp: trail_def takeWhile_append)
qed

lemma block_snoc:
  assumes "0 < e"
  shows "(\<exists>xs ys. h @ [x] = xs @ replicate e False @ ys) \<longleftrightarrow>
    (\<exists>xs ys. h = xs @ replicate e False @ ys) \<or> e \<le> trail False (h @ [x])"
proof
  assume "\<exists>xs ys. h @ [x] = xs @ replicate e False @ ys"
  then obtain xs ys where split: "h @ [x] = xs @ replicate e False @ ys" by blast
  show "(\<exists>xs ys. h = xs @ replicate e False @ ys) \<or> e \<le> trail False (h @ [x])"
  proof (cases ys rule: rev_cases)
    case Nil
    then show ?thesis using split by (metis append_Nil2 trail_ge_iff)
  next
    case (snoc ys' y)
    then have "h = xs @ replicate e False @ ys'" using split by simp
    then show ?thesis by blast
  qed
next
  assume "(\<exists>xs ys. h = xs @ replicate e False @ ys) \<or> e \<le> trail False (h @ [x])"
  then show "\<exists>xs ys. h @ [x] = xs @ replicate e False @ ys"
  proof
    assume "\<exists>xs ys. h = xs @ replicate e False @ ys"
    then obtain xs ys where "h @ [x] = xs @ replicate e False @ (ys @ [x])" by auto
    then show ?thesis by blast
  next
    assume "e \<le> trail False (h @ [x])"
    then show ?thesis by (metis append_Nil2 trail_ge_iff)
  qed
qed

lemma confirmedActive_trail:
  "0 < s \<Longrightarrow> confirmedActive s e h \<Longrightarrow> trail False h < e"
  by (metis append_Nil2 confirmedActive_def linorder_not_less trail_after_replicate trail_ge_iff)

lemma confirmedActive_snoc:
  assumes "0 < s" and "0 < e"
  shows "confirmedActive s e (h @ [x]) \<longleftrightarrow>
    (if x then confirmedActive s e h \<or> s \<le> Suc (trail True h)
     else confirmedActive s e h \<and> Suc (trail False h) < e)"
proof
  assume "confirmedActive s e (h @ [x])"
  then obtain before since where split: "h @ [x] = before @ replicate s True @ since"
      and no: "\<not> (\<exists>xs ys. since = xs @ replicate e False @ ys)"
    by (auto simp: confirmedActive_def)
  have less: "trail False (h @ [x]) < e"
    using confirmedActive_trail [OF assms(1)] \<open>confirmedActive s e (h @ [x])\<close> .
  show "if x then confirmedActive s e h \<or> s \<le> Suc (trail True h)
     else confirmedActive s e h \<and> Suc (trail False h) < e"
  proof (cases since rule: rev_cases)
    case Nil
    then have "s \<le> trail True (h @ [x])" using split trail_ge_iff by auto
    then show ?thesis using assms(1) by (auto split: if_splits)
  next
    case (snoc since' y)
    then have "h = before @ replicate s True @ since'" "y = x" using split by simp_all
    moreover have "\<not> (\<exists>xs ys. since' = xs @ replicate e False @ ys)"
      using no block_snoc [OF assms(2)] snoc by blast
    ultimately have "confirmedActive s e h" by (auto simp: confirmedActive_def)
    then show ?thesis using less by auto
  qed
next
  assume rhs: "if x then confirmedActive s e h \<or> s \<le> Suc (trail True h)
     else confirmedActive s e h \<and> Suc (trail False h) < e"
  show "confirmedActive s e (h @ [x])"
  proof (cases "confirmedActive s e h")
    case True
    then obtain before since where split: "h = before @ replicate s True @ since"
        and no: "\<not> (\<exists>xs ys. since = xs @ replicate e False @ ys)"
      by (auto simp: confirmedActive_def)
    have "trail False (h @ [x]) < e" using rhs assms(2) by (auto split: if_splits)
    moreover have "trail False (h @ [x]) = trail False (since @ [x])"
      using trail_after_replicate [OF assms(1), of before "since @ [x]"] split by simp
    ultimately have "\<not> (\<exists>xs ys. since @ [x] = xs @ replicate e False @ ys)"
      using no block_snoc [OF assms(2)] by (metis linorder_not_less)
    moreover have "h @ [x] = before @ replicate s True @ (since @ [x])" using split by simp
    ultimately show ?thesis unfolding confirmedActive_def by blast
  next
    case False
    then have "s \<le> trail True (h @ [x])" using rhs by (auto split: if_splits)
    then have "\<exists>xs. h @ [x] = xs @ replicate s True" by (simp only: trail_ge_iff)
    then obtain xs where "h @ [x] = xs @ replicate s True @ []" by auto
    then show ?thesis using assms(2) unfolding confirmedActive_def by fastforce
  qed
qed

text \<open>The counters of one type mirror the run of equal samples at the end of the history.\<close>

definition confirmInv :: "EngineConfig \<Rightarrow> bool list \<Rightarrow> TypeStatus \<Rightarrow> bool" where
  "confirmInv cfg h ts \<longleftrightarrow>
     (let s = unat (ec_startConfirmations cfg); e = unat (ec_endConfirmations cfg) in
      if ts_state ts = Active then confirmedActive s e h \<and> unat (ts_endCount ts) = trail False h
      else \<not> confirmedActive s e h \<and> unat (ts_startCount ts) = trail True h \<and> trail True h < s)"

lemma unat_Suc_below: "unat (w :: u8) < unat (c :: u8) \<Longrightarrow> unat (w + 1) = Suc (unat w)"
  by (rule word_Suc_less [of w c]) (simp add: word_less_nat_alt)

lemma applyType_confirmInv:
  assumes inv: "confirmInv cfg h ts" and pos: "0 < ec_startConfirmations cfg" "0 < ec_endConfirmations cfg"
  shows "confirmInv cfg (h @ [effectiveCoverage cfg inp \<noteq> NoCoverage]) (fst (applyType cfg inp ts))"
proof -
  define s where "s = unat (ec_startConfirmations cfg)"
  define e where "e = unat (ec_endConfirmations cfg)"
  have s: "0 < s" and e: "0 < e" using pos by (simp_all add: s_def e_def word_less_nat_alt)
  note snoc = confirmedActive_snoc [OF s e, of h]
  show ?thesis
  proof (cases "ts_state ts = Active")
    case True
    then have active: "confirmedActive s e h" "unat (ts_endCount ts) = trail False h"
      using inv by (simp_all add: confirmInv_def Let_def s_def e_def)
    then have "trail False h < e" using confirmedActive_trail [OF s] by simp
    then have "unat (ts_endCount ts + 1) = Suc (trail False h)"
      using unat_Suc_below [of _ "ec_endConfirmations cfg"] active(2) by (simp add: e_def)
    then show ?thesis
      using True active snoc s
      by (auto simp: confirmInv_def applyType_def Let_def s_def [symmetric] e_def [symmetric]
          word_le_nat_alt initStatus_def)
  next
    case False
    then have idle: "\<not> confirmedActive s e h" "unat (ts_startCount ts) = trail True h" "trail True h < s"
      using inv by (simp_all add: confirmInv_def Let_def s_def e_def)
    then have "unat (ts_startCount ts + 1) = Suc (trail True h)"
      using unat_Suc_below [of _ "ec_startConfirmations cfg"] by (simp add: s_def)
    then show ?thesis
      using False idle snoc s
      by (auto simp: confirmInv_def applyType_def Let_def s_def [symmetric] e_def [symmetric]
          word_le_nat_alt)
  qed
qed

lemma engineRun_confirmInv:
  assumes "\<forall>ty. confirmInv (ae_cfg e) (h ty) (ae_types e ty)"
    and "0 < ec_startConfirmations (ae_cfg e)" "0 < ec_endConfirmations (ae_cfg e)"
  shows "ae_cfg (engineRun e snaps m) = ae_cfg e \<and>
    (\<forall>ty. confirmInv (ae_cfg e) (h ty @ map (present (ae_cfg e) ty) snaps) (ae_types (engineRun e snaps m) ty))"
  using assms
proof (induction snaps arbitrary: e h)
  case (Cons snap snaps)
  define e1 where "e1 = snd (applySnapshot snap m e)"
  have cfg: "ae_cfg e1 = ae_cfg e" by (simp add: e1_def)
  have "\<forall>ty. confirmInv (ae_cfg e1) (h ty @ [present (ae_cfg e) ty snap]) (ae_types e1 ty)"
    using Cons.prems applyType_confirmInv
    by (simp add: cfg) (simp add: e1_def applySnapshot_types present_def)
  from Cons.IH [OF this] Cons.prems cfg show ?case by (simp add: e1_def)
qed simp

text \<open>
  C14. Confirmations mean what they say: starting from a fresh (or reset) engine and
  after any history of snapshots, a threat type is active exactly when it was at some
  point present in \<open>startConfirmations\<close> snapshots in a row and has not since then been
  absent from \<open>endConfirmations\<close> in a row. One missing snapshot never ends an alert that
  needs two, and the types never influence one another.
\<close>

theorem active_iff_confirmed:
  assumes "0 < ec_startConfirmations cfg" and "0 < ec_endConfirmations cfg"
  shows "ts_state (ae_types (engineRun (engine_reset (initEngine cfg)) snaps m) ty) = Active \<longleftrightarrow>
    confirmedActive (unat (ec_startConfirmations cfg)) (unat (ec_endConfirmations cfg))
      (map (present cfg ty) snaps)"
proof -
  have "\<not> confirmedActive (unat (ec_startConfirmations cfg)) e []" for e
    using assms(1) by (auto simp: confirmedActive_def word_less_nat_alt)
  then have "\<forall>t. confirmInv cfg [] (ae_types (engine_reset (initEngine cfg)) t)"
    using assms by (simp add: confirmInv_def Let_def engine_reset_def initEngine_def initStatus_def
        word_less_nat_alt)
  from engineRun_confirmInv [of "engine_reset (initEngine cfg)" "\<lambda>_. []"] this assms
  have "confirmInv cfg (map (present cfg ty) snaps)
      (ae_types (engineRun (engine_reset (initEngine cfg)) snaps m) ty)"
    by (simp add: engine_reset_def initEngine_def)
  then show ?thesis by (auto simp: confirmInv_def Let_def split: if_splits)
qed

definition snapOf :: "AlertType \<Rightarrow> Coverage \<Rightarrow> Snapshot" where
  "snapOf ty cov = emptySnapshot(ty := \<lparr>ti_coverage = cov, ti_locationCount = 1, ti_earliestStartedAt = 0\<rparr>)"

theorem active_iff_confirmed_witness:
  "ts_state (ae_types (engineRun (engine_reset (initEngine defaultEngineConfig))
     [snapOf Chemical Full, emptySnapshot] 8) Chemical) = Active"
proof -
  have pres: "map (present defaultEngineConfig Chemical) [snapOf Chemical Full, emptySnapshot] = [True, False]"
    by (simp add: present_def effectiveCoverage_def snapOf_def emptySnapshot_def emptyInput_def)
  have "confirmedActive 1 2 [True, False]"
  proof -
    have "\<not> (\<exists>xs ys. [False] = xs @ replicate 2 False @ ys)" by (simp add: numeral_2_eq_2 Cons_eq_append_conv)
    moreover have "[True, False] = [] @ replicate 1 True @ [False]" by simp
    ultimately show ?thesis unfolding confirmedActive_def by blast
  qed
  then show ?thesis
    using active_iff_confirmed [of defaultEngineConfig "[snapOf Chemical Full, emptySnapshot]" 8 Chemical]
    unfolding pres by (simp add: defaultEngineConfig_def)
qed

subsection \<open>Events\<close>

text \<open>The events of one type in one snapshot, read off its status before and after.\<close>

definition eventDue :: "EngineConfig \<Rightarrow> TypeInput \<Rightarrow> TypeStatus \<Rightarrow> AlertEvent \<Rightarrow> bool" where
  "eventDue cfg inp ts k \<longleftrightarrow>
     (let cov = effectiveCoverage cfg inp;
          after = (ts_state (fst (applyType cfg inp ts)) = Active);
          before = (ts_state ts = Active) in
      case k of
        Started \<Rightarrow> \<not> before \<and> after
      | Ended \<Rightarrow> before \<and> \<not> after
      | Escalated \<Rightarrow> before \<and> ts_coverage ts = Partial \<and> cov = Full
      | CoverageReduced \<Rightarrow> before \<and> ts_coverage ts = Full \<and> cov = Partial
      | LocationAdded \<Rightarrow> before \<and> cov \<noteq> NoCoverage \<and> ts_locationCount ts < ti_locationCount inp
      | NoAlertEvent \<Rightarrow> False)"

lemma applyType_events: "k \<in> set (snd (applyType cfg inp ts)) \<longleftrightarrow> eventDue cfg inp ts k"
  by (cases k) (auto simp: applyType_def eventDue_def Let_def initStatus_def)

lemma length_applyType_events: "length (snd (applyType cfg inp ts)) \<le> 2"
  by (simp add: applyType_def Let_def)

lemma length_all_events: "length (concat (map (eventsOf cfg snap types) allTypes)) \<le> 14"
proof -
  have "length (eventsOf cfg snap types ty) \<le> 2" for ty
    by (simp add: eventsOf_def length_applyType_events)
  then have "sum_list (map (\<lambda>ty. length (eventsOf cfg snap types ty)) allTypes) \<le>
      sum_list (map (\<lambda>ty. 2) allTypes)"
    by (intro sum_list_mono) simp
  then show ?thesis by (simp add: length_concat comp_def sum_list_triv)
qed



text \<open>
  The firmware passes a buffer of 8. Four types that escalate and gain a location in the
  snapshot in which a fifth one ends fill it, and the \<open>Ended\<close> of the fifth is lost:
  the engine is no longer active, the notification layer is never told.
\<close>

definition busySnapshot :: Snapshot where
  "busySnapshot = (\<lambda>ty. if typeIdx ty < 4
     then \<lparr>ti_coverage = Full, ti_locationCount = 2, ti_earliestStartedAt = 0\<rparr> else emptyInput)"

definition busyEngine :: AlertEngine where
  "busyEngine = \<lparr>ae_cfg = defaultEngineConfig, ae_types = (\<lambda>ty. if typeIdx ty < 5
     then \<lparr>ts_state = Active, ts_coverage = Partial, ts_startedAt = 0, ts_startCount = 0,
           ts_endCount = 1, ts_locationCount = 1\<rparr> else initStatus), ae_synced = True\<rparr>"

lemma ended_event_lost:
  "\<lparr>ee_kind = Ended, ee_type = Nuclear\<rparr> \<notin> set (fst (applySnapshot busySnapshot 8 busyEngine)) \<and>
   ts_state (ae_types busyEngine Nuclear) = Active \<and>
   ts_state (ae_types (snd (applySnapshot busySnapshot 8 busyEngine)) Nuclear) = Inactive"
  unfolding applySnapshot_types applySnapshot_events
  by (simp add: allTypes_def eventsOf_def applyType_def effectiveCoverage_def busySnapshot_def
      busyEngine_def emptyInput_def initStatus_def defaultEngineConfig_def Let_def)

subsection \<open>Hand-over between types\<close>

lemma isHandover_ended:
  "ee_kind ev = Ended \<Longrightarrow> isHandover ev batch anyType e \<longleftrightarrow>
   (\<exists>other. other \<noteq> ee_type ev \<and> (anyType \<or> (isAir (ee_type ev) \<and> isAir other)) \<and>
     ts_state (ae_types e other) = Active)"
  by (auto simp: isHandover_def list_ex_iff Let_def)

lemma isHandover_started:
  "ee_kind ev = Started \<Longrightarrow> isHandover ev batch anyType e \<longleftrightarrow>
   (\<exists>other. other \<noteq> ee_type ev \<and> (anyType \<or> (isAir (ee_type ev) \<and> isAir other)) \<and>
     ((ts_state (ae_types e other) = Active \<and> ts_endCount (ae_types e other) > 0) \<or>
      (\<exists>b \<in> set batch. ee_kind b = Ended \<and> ee_type b = other)))"
  by (auto simp: isHandover_def list_ex_iff Let_def)

lemma anyActive_iff: "anyActive e \<longleftrightarrow> (\<exists>t. ts_state (ae_types e t) = Active)"
  by (simp add: anyActive_def list_ex_iff)

end
