(* ===== verification/LocationMatcher.thy ===== *)
theory LocationMatcher
  imports ThreatTypes
begin

text \<open>
  \<open>lib/core/src/airalert/LocationMatcher.h\<close>, \<open>LocationMatcher.cpp\<close> and the interface
  \<open>ILocationCatalog\<close> of \<open>Location.h\<close>. A catalogue is a lookup by uid; the matcher's pointer
  to it may be null. The locale \<open>location_catalog\<close> is the contract of the interface.
\<close>

type_synonym Catalog = "u16 \<Rightarrow> Location option"

definition matchLocation :: "Catalog option \<Rightarrow> Location \<Rightarrow> Alert \<Rightarrow> Coverage" where
  "matchLocation catalog selected alert =
     (if loc_uid selected = 0 \<or> al_locationUid alert = 0 then NoCoverage
      else if al_locationUid alert = loc_uid selected then Full
      else if al_locationUid alert = loc_oblastUid selected then Full
      else if loc_raionUid selected \<noteq> 0 \<and> al_locationUid alert = loc_raionUid selected then Full
      else
        (let (alertOblast, alertRaion) =
           (case catalog of None \<Rightarrow> (0, 0)
            | Some findByUid \<Rightarrow> (case findByUid (al_locationUid alert) of
                None \<Rightarrow> (0, 0) | Some known \<Rightarrow> (loc_oblastUid known, loc_raionUid known)))
         in if alertOblast = loc_uid selected then Partial
            else if alertRaion \<noteq> 0 \<and> alertRaion = loc_uid selected then Partial
            else NoCoverage))"

text \<open>
  The hierarchy behind it: the uids of a location and of its parents, and the parents
  that a catalogue knows for a uid (0 stands for "none").
\<close>

definition selfAndParents :: "Location \<Rightarrow> u16 set" where
  "selfAndParents l = {loc_uid l, loc_oblastUid l, loc_raionUid l} - {0}"

definition knownParents :: "Catalog option \<Rightarrow> u16 \<Rightarrow> u16 set" where
  "knownParents catalog uid = (case catalog of None \<Rightarrow> {} | Some findByUid \<Rightarrow>
     (case findByUid uid of None \<Rightarrow> {} | Some l \<Rightarrow> {loc_oblastUid l, loc_raionUid l} - {0}))"

lemma matchLocation_Full:
  "matchLocation catalog selected alert = Full \<longleftrightarrow>
   loc_uid selected \<noteq> 0 \<and> al_locationUid alert \<in> selfAndParents selected"
  by (auto simp: matchLocation_def selfAndParents_def Let_def split: option.splits)

lemma matchLocation_Partial:
  "matchLocation catalog selected alert = Partial \<longleftrightarrow>
   loc_uid selected \<noteq> 0 \<and> al_locationUid alert \<noteq> 0 \<and> al_locationUid alert \<notin> selfAndParents selected \<and>
   loc_uid selected \<in> knownParents catalog (al_locationUid alert)"
  by (auto simp: matchLocation_def selfAndParents_def knownParents_def Let_def split: option.splits)

locale location_catalog =
  fixes findByUid :: Catalog
  assumes find_uid: "findByUid uid = Some l \<Longrightarrow> loc_uid l = uid"
    and oblast_known: "findByUid uid = Some l \<Longrightarrow> loc_oblastUid l \<noteq> 0 \<Longrightarrow>
      \<exists>q. findByUid (loc_oblastUid l) = Some q \<and> loc_type q = Oblast"
    and raion_known: "findByUid uid = Some l \<Longrightarrow> loc_raionUid l \<noteq> 0 \<Longrightarrow>
      \<exists>q. findByUid (loc_raionUid l) = Some q \<and> loc_type q = Raion \<and> loc_oblastUid q = loc_oblastUid l"
    and oblast_top: "findByUid uid = Some l \<Longrightarrow> loc_type l = Oblast \<Longrightarrow>
      loc_oblastUid l = 0 \<and> loc_raionUid l = 0"
    and raion_below_oblast: "findByUid uid = Some l \<Longrightarrow> loc_type l = Raion \<Longrightarrow> loc_raionUid l = 0"
begin

lemma parents_of:
  "findByUid uid = Some l \<Longrightarrow> knownParents (Some findByUid) uid = {loc_oblastUid l, loc_raionUid l} - {0}"
  by (simp add: knownParents_def)

lemma selfAndParents_eq:
  assumes "findByUid uid = Some l"
  shows "selfAndParents l = insert uid (knownParents (Some findByUid) uid) - {0}"
  using find_uid [OF assms] parents_of [OF assms] by (auto simp: selfAndParents_def)

text \<open>A parent is never below, nor the same as, the location it is a parent of.\<close>

lemma parent_not_below:
  assumes l: "findByUid uid = Some l" and p: "p \<in> knownParents (Some findByUid) uid"
  shows "p \<noteq> uid" and "uid \<notin> knownParents (Some findByUid) p"
proof -
  have "p \<noteq> uid \<and> uid \<notin> knownParents (Some findByUid) p"
  proof (cases "p = loc_raionUid l")
    case True
    then have nz: "loc_raionUid l \<noteq> 0" using p by (simp add: parents_of [OF l])
    obtain q where q: "findByUid p = Some q" "loc_type q = Raion"
      using raion_known [OF l nz] True by blast
    have not_top: "loc_type l \<noteq> Oblast" "loc_type l \<noteq> Raion"
      using oblast_top [OF l] raion_below_oblast [OF l] nz by blast+
    have "p \<noteq> uid" using q l not_top by auto
    moreover have "uid \<noteq> loc_oblastUid q \<or> loc_oblastUid q = 0"
      using oblast_known [OF q(1)] l not_top(1) by (cases "loc_oblastUid q = 0") auto
    ultimately show ?thesis
      using raion_below_oblast [OF q] by (auto simp: parents_of [OF q(1)])
  next
    case False
    then have "p = loc_oblastUid l" and nz: "loc_oblastUid l \<noteq> 0"
      using p by (auto simp: parents_of [OF l])
    then obtain q where q: "findByUid p = Some q" "loc_type q = Oblast"
      using oblast_known [OF l nz] by blast
    have "loc_type l \<noteq> Oblast" using oblast_top [OF l] nz by blast
    then have "p \<noteq> uid" using q l by auto
    then show ?thesis using oblast_top [OF q] by (simp add: parents_of [OF q(1)])
  qed
  then show "p \<noteq> uid" and "uid \<notin> knownParents (Some findByUid) p" by auto
qed

text \<open>Partial coverage is the converse of full coverage between two different locations.\<close>

lemma partial_iff_full_converse:
  assumes s: "findByUid (loc_uid s) = Some s" and c: "findByUid (loc_uid c) = Some c"
    and nz: "loc_uid s \<noteq> 0" "loc_uid c \<noteq> 0"
    and "al_locationUid a = loc_uid c" and "al_locationUid b = loc_uid s"
  shows "matchLocation (Some findByUid) s a = Partial \<longleftrightarrow>
    loc_uid s \<noteq> loc_uid c \<and> matchLocation (Some findByUid) c b = Full"
  using parent_not_below [OF c] assms
  by (auto simp: matchLocation_Full matchLocation_Partial selfAndParents_eq [OF s] selfAndParents_eq [OF c])

end

end
