(* ===== verification/SnapshotBuilder.thy ===== *)
theory SnapshotBuilder
  imports AlertEngine LocationMatcher
begin

text \<open>
  \<open>lib/core/src/airalert/SnapshotBuilder.h\<close>: alerts are folded one by one into the
  aggregated snapshot of the engine and into the per-location cells of the dashboard. The
  selected locations are the first \<open>selectedCount_\<close> entries of the array, as a list.
\<close>

abbreviation kMaxSelected :: nat where "kMaxSelected \<equiv> 16"

record PerLocCell =
  pl_startedAt :: u32
  pl_coverage :: Coverage

record SnapshotBuilder =
  sb_snap :: Snapshot
  sb_matchedMask :: "AlertType \<Rightarrow> u16"
  sb_perLoc :: "nat \<Rightarrow> AlertType \<Rightarrow> PerLocCell"
  sb_selected :: "Location list"
  sb_catalog :: "Catalog option"

definition emptyCell :: PerLocCell where
  "emptyCell = \<lparr>pl_startedAt = 0, pl_coverage = NoCoverage\<rparr>"

definition initBuilder :: SnapshotBuilder where
  "initBuilder = \<lparr>sb_snap = emptySnapshot, sb_matchedMask = (\<lambda>_. 0), sb_perLoc = (\<lambda>_ _. emptyCell),
     sb_selected = [], sb_catalog = None\<rparr>"

definition builder_setCatalog :: "Catalog option \<Rightarrow> SnapshotBuilder \<Rightarrow> SnapshotBuilder" where
  "builder_setCatalog cat b = b\<lparr>sb_catalog := cat\<rparr>"

definition builder_setSelected :: "Location list \<Rightarrow> SnapshotBuilder \<Rightarrow> bool \<times> SnapshotBuilder" where
  "builder_setSelected sel b =
     (if length sel > kMaxSelected then (False, b) else (True, b\<lparr>sb_selected := sel\<rparr>))"

definition builder_reset :: "SnapshotBuilder \<Rightarrow> SnapshotBuilder" where
  "builder_reset b = b\<lparr>sb_snap := emptySnapshot, sb_matchedMask := (\<lambda>_. 0), sb_perLoc := (\<lambda>_ _. emptyCell)\<rparr>"

text \<open>\<open>__builtin_popcount\<close> of a 16-bit mask.\<close>

definition popcount16 :: "u16 \<Rightarrow> nat" where
  "popcount16 m = length (filter (bit m) [0..<16])"

text \<open>The body of the loop of \<open>add\<close> for the selected location with index \<open>i\<close>.\<close>

definition addToLocation :: "Alert \<Rightarrow> nat \<Rightarrow> SnapshotBuilder \<Rightarrow> SnapshotBuilder" where
  "addToLocation a i b =
     (let t = al_type a; cov = matchLocation (sb_catalog b) (sb_selected b ! i) a in
      if cov = NoCoverage then b
      else
        let ti = sb_snap b t;
            ti = (if cov > ti_coverage ti then ti\<lparr>ti_coverage := cov\<rparr> else ti);
            masks = (sb_matchedMask b)(t := sb_matchedMask b t OR bitMask i);
            ti = (if al_startedAt a > 0 \<and> (ti_earliestStartedAt ti = 0 \<or> al_startedAt a < ti_earliestStartedAt ti)
                  then ti\<lparr>ti_earliestStartedAt := al_startedAt a\<rparr> else ti);
            cell = sb_perLoc b i t;
            cell = (if cov > pl_coverage cell then cell\<lparr>pl_coverage := cov\<rparr> else cell);
            ts = word_of_int (al_startedAt a) :: u32;
            cell = (if ts > 0 \<and> (pl_startedAt cell = 0 \<or> ts < pl_startedAt cell)
                    then cell\<lparr>pl_startedAt := ts\<rparr> else cell)
        in b\<lparr>sb_snap := (sb_snap b)(t := ti), sb_matchedMask := masks,
             sb_perLoc := (sb_perLoc b)(i := (sb_perLoc b i)(t := cell))\<rparr>)"

definition builder_add :: "Alert \<Rightarrow> SnapshotBuilder \<Rightarrow> SnapshotBuilder" where
  "builder_add a b =
     (let t = al_type a;
          b = fold (addToLocation a) [0..<length (sb_selected b)] b
      in b\<lparr>sb_snap := (sb_snap b)(t := (sb_snap b t)\<lparr>ti_locationCount := of_nat (popcount16 (sb_matchedMask b t))\<rparr>)\<rparr>)"

definition builder_addAll :: "Alert list \<Rightarrow> SnapshotBuilder \<Rightarrow> SnapshotBuilder" where
  "builder_addAll as b = fold builder_add as b"

subsection \<open>What a snapshot means\<close>

text \<open>
  The hits of a set of (location index, alert) pairs for a type, and the snapshot they
  stand for: the highest coverage, how many locations are hit, and the earliest known
  start.
\<close>

definition hits :: "Catalog option \<Rightarrow> Location list \<Rightarrow> AlertType \<Rightarrow> (nat \<times> Alert) set \<Rightarrow> (nat \<times> Alert) set" where
  "hits cat sel ty pairs = {(i, a) \<in> pairs. al_type a = ty \<and> matchLocation cat (sel ! i) a \<noteq> NoCoverage}"

definition specCoverage :: "Catalog option \<Rightarrow> Location list \<Rightarrow> (nat \<times> Alert) set \<Rightarrow> Coverage" where
  "specCoverage cat sel H = Max (insert NoCoverage ((\<lambda>(i, a). matchLocation cat (sel ! i) a) ` H))"

definition positives :: "(nat \<times> Alert) set \<Rightarrow> int set" where
  "positives H = {t \<in> (\<lambda>(i, a). al_startedAt a) ` H. t > 0}"

definition specStart :: "(nat \<times> Alert) set \<Rightarrow> int" where
  "specStart H = (if positives H = {} then 0 else Min (positives H))"

definition aggregate :: "Catalog option \<Rightarrow> Location list \<Rightarrow> Alert set \<Rightarrow> Snapshot" where
  "aggregate cat sel alerts = (\<lambda>ty.
     let H = hits cat sel ty ({..<length sel} \<times> alerts) in
     \<lparr>ti_coverage = specCoverage cat sel H, ti_locationCount = of_nat (card (fst ` H)),
      ti_earliestStartedAt = specStart H\<rparr>)"

definition partialInv :: "(nat \<times> Alert) set \<Rightarrow> SnapshotBuilder \<Rightarrow> bool" where
  "partialInv pairs b \<longleftrightarrow> (\<forall>ty.
     let H = hits (sb_catalog b) (sb_selected b) ty pairs in
     ti_coverage (sb_snap b ty) = specCoverage (sb_catalog b) (sb_selected b) H \<and>
     (\<forall>i. bit (sb_matchedMask b ty) i \<longleftrightarrow> i \<in> fst ` H) \<and>
     ti_earliestStartedAt (sb_snap b ty) = specStart H)"

lemma hits_insert:
  "hits cat sel ty (insert (i, a) pairs) =
   (if al_type a = ty \<and> matchLocation cat (sel ! i) a \<noteq> NoCoverage
    then insert (i, a) (hits cat sel ty pairs) else hits cat sel ty pairs)"
  by (auto simp: hits_def)

lemma finite_hits [simp]: "finite pairs \<Longrightarrow> finite (hits cat sel ty pairs)"
  by (rule finite_subset [of _ pairs]) (auto simp: hits_def)

lemma specCoverage_insert:
  assumes "finite H"
  shows "specCoverage cat sel (insert (i, a) H) = max (matchLocation cat (sel ! i) a) (specCoverage cat sel H)"
proof -
  define S where "S = insert NoCoverage ((\<lambda>(i, a). matchLocation cat (sel ! i) a) ` H)"
  have "specCoverage cat sel (insert (i, a) H) = Max (insert (matchLocation cat (sel ! i) a) S)"
    by (simp add: specCoverage_def S_def insert_commute)
  also have "\<dots> = max (matchLocation cat (sel ! i) a) (Max S)"
    by (rule Max_insert) (use assms in \<open>simp_all add: S_def\<close>)
  finally show ?thesis by (simp add: specCoverage_def S_def)
qed

lemma finite_positives [simp]: "finite H \<Longrightarrow> finite (positives H)"
  by (simp add: positives_def)

lemma positives_insert:
  "positives (insert (i, a) H) = (if al_startedAt a > 0 then insert (al_startedAt a) (positives H) else positives H)"
  by (auto simp: positives_def)

lemma specStart_zero:
  assumes "finite H" shows "specStart H = 0 \<longleftrightarrow> positives H = {}"
proof (cases "positives H = {}")
  case False
  then have "Min (positives H) \<in> positives H" using assms by simp
  then have "Min (positives H) > 0" by (simp add: positives_def)
  then show ?thesis using False by (simp add: specStart_def)
qed (simp add: specStart_def)

lemma specStart_insert:
  assumes "finite H"
  shows "specStart (insert (i, a) H) =
   (if al_startedAt a > 0 \<and> (specStart H = 0 \<or> al_startedAt a < specStart H)
    then al_startedAt a else specStart H)"
proof (cases "al_startedAt a > 0 \<and> positives H \<noteq> {}")
  case True
  then have "specStart (insert (i, a) H) = min (al_startedAt a) (specStart H)"
    using assms by (simp add: specStart_def positives_insert)
  moreover have "specStart H \<noteq> 0" using True assms by (simp add: specStart_zero)
  ultimately show ?thesis using True by (simp add: min_def)
next
  case False
  then show ?thesis
    using assms by (cases "al_startedAt a > 0") (simp_all add: specStart_zero, simp_all add: specStart_def positives_insert)
qed

lemma addToLocation_frame [simp]:
  "sb_selected (addToLocation a i b) = sb_selected b"
  "sb_catalog (addToLocation a i b) = sb_catalog b"
  by (simp_all add: addToLocation_def Let_def)

lemma addToLocation_partialInv:
  assumes "partialInv pairs b" and "finite pairs" and "i < 16"
  shows "partialInv (insert (i, a) pairs) (addToLocation a i b)"
proof -
  define cov where "cov = matchLocation (sb_catalog b) (sb_selected b ! i) a"
  show ?thesis
  proof (cases "cov = NoCoverage")
    case True
    then show ?thesis
      using assms(1) by (simp add: partialInv_def hits_insert addToLocation_def cov_def [symmetric])
  next
    case False
    show ?thesis
      unfolding partialInv_def
    proof (intro allI)
      fix ty
      define H where "H = hits (sb_catalog b) (sb_selected b) ty pairs"
      have H: "finite H" "ti_coverage (sb_snap b ty) = specCoverage (sb_catalog b) (sb_selected b) H"
          "\<forall>i. bit (sb_matchedMask b ty) i \<longleftrightarrow> i \<in> fst ` H"
          "ti_earliestStartedAt (sb_snap b ty) = specStart H"
        using assms by (simp_all add: partialInv_def H_def Let_def)
      show "let H = hits (sb_catalog (addToLocation a i b)) (sb_selected (addToLocation a i b)) ty (insert (i, a) pairs)
        in ti_coverage (sb_snap (addToLocation a i b) ty) =
             specCoverage (sb_catalog (addToLocation a i b)) (sb_selected (addToLocation a i b)) H \<and>
           (\<forall>j. bit (sb_matchedMask (addToLocation a i b) ty) j \<longleftrightarrow> j \<in> fst ` H) \<and>
           ti_earliestStartedAt (sb_snap (addToLocation a i b) ty) = specStart H"
        using H False assms(3)
        by (simp add: hits_insert H_def [symmetric] cov_def [symmetric] specCoverage_insert specStart_insert)
          (auto simp: addToLocation_def cov_def [symmetric] Let_def max_def not_less bit_or_iff bit_bitMask)
    qed
  qed
qed


lemma addToLocation_other [simp]:
  "ty \<noteq> al_type a \<Longrightarrow> sb_snap (addToLocation a i b) ty = sb_snap b ty"
  "ty \<noteq> al_type a \<Longrightarrow> sb_matchedMask (addToLocation a i b) ty = sb_matchedMask b ty"
  "ti_locationCount (sb_snap (addToLocation a i b) ty) = ti_locationCount (sb_snap b ty)"
  by (simp_all add: addToLocation_def Let_def)

lemma partialInv_fold:
  assumes "partialInv pairs b" and "finite pairs" and "n \<le> 16"
  shows "partialInv (pairs \<union> {..<n} \<times> {a}) (fold (addToLocation a) [0..<n] b)"
  using assms(3)
proof (induction n)
  case 0
  then show ?case using assms(1) by simp
next
  case (Suc n)
  have "pairs \<union> {..<Suc n} \<times> {a} = insert (n, a) (pairs \<union> {..<n} \<times> {a})" by auto
  then show ?case using Suc assms(2) by (simp add: addToLocation_partialInv)
qed

lemma fold_addToLocation_frame [simp]:
  "sb_selected (fold (addToLocation a) is b) = sb_selected b"
  "sb_catalog (fold (addToLocation a) is b) = sb_catalog b"
  "ty \<noteq> al_type a \<Longrightarrow> sb_matchedMask (fold (addToLocation a) is b) ty = sb_matchedMask b ty"
  "ti_locationCount (sb_snap (fold (addToLocation a) is b) ty) = ti_locationCount (sb_snap b ty)"
  by (induction "is" arbitrary: b) simp_all

text \<open>The whole invariant: the count of each type is the population count of its mask.\<close>

definition builderInv :: "Alert set \<Rightarrow> SnapshotBuilder \<Rightarrow> bool" where
  "builderInv alerts b \<longleftrightarrow> length (sb_selected b) \<le> kMaxSelected \<and>
     partialInv ({..<length (sb_selected b)} \<times> alerts) b \<and>
     (\<forall>ty. ti_locationCount (sb_snap b ty) = of_nat (popcount16 (sb_matchedMask b ty)))"

lemma popcount16_card:
  "popcount16 m = card {i. bit m i}"
proof -
  have "{i. bit m i} = set (filter (bit m) [0..<16])"
    using bit_imp_le_length [of m] by auto
  then have "card {i. bit m i} = card (set (filter (bit m) [0..<16]))" by (rule arg_cong)
  also have "\<dots> = length (filter (bit m) [0..<16])" by (rule distinct_card) simp
  finally show ?thesis by (simp add: popcount16_def)
qed

lemma builder_reset_inv:
  "length (sb_selected b) \<le> kMaxSelected \<Longrightarrow> builderInv {} (builder_reset b)"
  by (simp add: builderInv_def builder_reset_def partialInv_def hits_def specCoverage_def specStart_def
      positives_def emptySnapshot_def emptyInput_def popcount16_card)

lemma builder_add_frame [simp]:
  "sb_selected (builder_add a b) = sb_selected b" "sb_catalog (builder_add a b) = sb_catalog b"
  by (simp_all add: builder_add_def Let_def)

lemma builder_add_inv:
  assumes "builderInv alerts b" and "finite alerts"
  shows "builderInv (insert a alerts) (builder_add a b)"
proof -
  define n where "n = length (sb_selected b)"
  define b' where "b' = fold (addToLocation a) [0..<n] b"
  have b: "n \<le> 16" "partialInv ({..<n} \<times> alerts) b"
      "\<And>ty. ti_locationCount (sb_snap b ty) = of_nat (popcount16 (sb_matchedMask b ty))"
    using assms(1) by (simp_all add: builderInv_def n_def)
  have "{..<n} \<times> alerts \<union> {..<n} \<times> {a} = {..<n} \<times> insert a alerts" by auto
  then have "partialInv ({..<n} \<times> insert a alerts) b'"
    using partialInv_fold [OF b(2) _ b(1), of a] assms(2) by (simp add: b'_def)
  then have "partialInv ({..<n} \<times> insert a alerts) (builder_add a b)"
    by (simp add: builder_add_def Let_def n_def [symmetric] b'_def [symmetric] partialInv_def)
  moreover have "ti_locationCount (sb_snap (builder_add a b) ty) =
      of_nat (popcount16 (sb_matchedMask (builder_add a b) ty))" for ty
    using b(3) by (simp add: builder_add_def Let_def)
  ultimately show ?thesis using b(1) by (simp add: builderInv_def n_def)
qed

lemma builder_addAll_inv:
  "builderInv alerts b \<Longrightarrow> finite alerts \<Longrightarrow> builderInv (set as \<union> alerts) (builder_addAll as b)"
proof (induction as arbitrary: alerts b)
  case (Cons a as)
  have "builderInv (set as \<union> insert a alerts) (builder_addAll as (builder_add a b))"
    by (rule Cons.IH) (use Cons.prems in \<open>simp_all add: builder_add_inv\<close>)
  then show ?case by (simp add: builder_addAll_def)
qed (simp add: builder_addAll_def)

lemma builder_addAll_frame [simp]:
  "sb_selected (builder_addAll as b) = sb_selected b" "sb_catalog (builder_addAll as b) = sb_catalog b"
  unfolding builder_addAll_def by (induction as arbitrary: b) simp_all

lemma builderInv_aggregate:
  assumes "builderInv alerts b"
  shows "sb_snap b = aggregate (sb_catalog b) (sb_selected b) alerts"
proof (rule ext)
  fix ty
  define H where "H = hits (sb_catalog b) (sb_selected b) ty ({..<length (sb_selected b)} \<times> alerts)"
  have inv: "ti_coverage (sb_snap b ty) = specCoverage (sb_catalog b) (sb_selected b) H"
      "\<And>i. bit (sb_matchedMask b ty) i \<longleftrightarrow> i \<in> fst ` H"
      "ti_earliestStartedAt (sb_snap b ty) = specStart H"
      "ti_locationCount (sb_snap b ty) = of_nat (popcount16 (sb_matchedMask b ty))"
    using assms by (simp_all add: builderInv_def partialInv_def H_def Let_def)
  have "ti_locationCount (sb_snap b ty) = of_nat (card (fst ` H))"
    using inv(2, 4) by (simp add: popcount16_card)
  then show "sb_snap b ty = aggregate (sb_catalog b) (sb_selected b) alerts ty"
    using inv(1, 3) by (cases "sb_snap b ty") (simp add: aggregate_def Let_def H_def)
qed

text \<open>
  C19. Streaming the alerts of a response into a freshly reset builder, one by one, gives
  for every alert type exactly the aggregate of the whole set: the highest coverage over
  all selected locations and alerts of the type, the number of selected locations hit, and
  the earliest known start (0 when none is known). In particular the order of the alerts and
  repeated alerts do not matter.
\<close>

theorem snapshot_is_aggregate:
  assumes "length (sb_selected b) \<le> kMaxSelected"
  shows "sb_snap (builder_addAll as (builder_reset b)) =
         aggregate (sb_catalog b) (sb_selected b) (set as)"
proof -
  have "builderInv (set as \<union> {}) (builder_addAll as (builder_reset b))"
    using builder_reset_inv [OF assms] by (rule builder_addAll_inv) simp
  from builderInv_aggregate [OF this] show ?thesis
    by (simp add: builder_reset_def)
qed

definition exampleBuilder :: SnapshotBuilder where
  "exampleBuilder = snd (builder_setSelected
     [\<lparr>loc_uid = 31, loc_type = UnknownLoc, loc_oblastUid = 0, loc_raionUid = 0\<rparr>] initBuilder)"

theorem snapshot_is_aggregate_witness:
  "let a = \<lparr>al_type = AirRaid, al_locationUid = 31, al_startedAt = 100\<rparr> in
   sb_snap (builder_addAll [a, a] (builder_reset exampleBuilder)) =
     aggregate (sb_catalog exampleBuilder) (sb_selected exampleBuilder) {a} \<and>
   ti_locationCount (sb_snap (builder_addAll [a, a] (builder_reset exampleBuilder)) AirRaid) = 1"
proof -
  have "length (sb_selected exampleBuilder) \<le> kMaxSelected" by code_simp
  from snapshot_is_aggregate [OF this] have "sb_snap (builder_addAll as (builder_reset exampleBuilder)) =
      aggregate (sb_catalog exampleBuilder) (sb_selected exampleBuilder) (set as)" for as .
  moreover have "let a = \<lparr>al_type = AirRaid, al_locationUid = 31, al_startedAt = 100\<rparr> in
      ti_locationCount (sb_snap (builder_addAll [a, a] (builder_reset exampleBuilder)) AirRaid) = 1"
    by code_simp
  ultimately show ?thesis by (simp add: Let_def)
qed

end
