(* ===== verification/JsonOps.thy ===== *)
theory JsonOps
  imports AirPrelude
begin

text \<open>
  The JSON library. ArduinoJson is not part of the repository, so the code that uses it takes
  its operations as a parameter: a record of what the firmware calls on a document, reading
  (\<open>operator[]\<close>, \<open>isNull\<close>, \<open>is<T>\<close> with \<open>as<T>\<close>, iteration) and building. The locale
  \<open>json_library\<close> states what the code relies on: a document that was built reads back as built.
  A plain data type of JSON values shows that the contract can be met.
\<close>

record 'j JsonOps =
  js_null :: "'j \<Rightarrow> bool"
  js_isObject :: "'j \<Rightarrow> bool"
  js_isArray :: "'j \<Rightarrow> bool"
  js_member :: "'j \<Rightarrow> string \<Rightarrow> 'j"
  js_elems :: "'j \<Rightarrow> 'j list"
  js_uint :: "'j \<Rightarrow> nat option"
  js_int32 :: "'j \<Rightarrow> int option"
  js_bool :: "'j \<Rightarrow> bool option"
  js_str :: "'j \<Rightarrow> string option"
  js_mkObj :: "(string \<times> 'j) list \<Rightarrow> 'j"
  js_mkArr :: "'j list \<Rightarrow> 'j"
  js_mkInt :: "int \<Rightarrow> 'j"
  js_mkBool :: "bool \<Rightarrow> 'j"
  js_mkStr :: "string \<Rightarrow> 'j"
  js_mkNull :: 'j

locale json_library =
  fixes J :: "'j JsonOps"
  assumes member_built: "map_of kvs k = Some v \<Longrightarrow> js_member J (js_mkObj J kvs) k = v"
    and member_missing: "map_of kvs k = None \<Longrightarrow> js_null J (js_member J (js_mkObj J kvs) k)"
    and not_null: "\<not> js_null J (js_mkObj J kvs)" "\<not> js_null J (js_mkArr J vs)" "\<not> js_null J (js_mkInt J i)"
      "\<not> js_null J (js_mkBool J b)" "\<not> js_null J (js_mkStr J s)"
    and object_built: "js_isObject J (js_mkObj J kvs)"
    and array_built: "js_isArray J (js_mkArr J vs)" "js_elems J (js_mkArr J vs) = vs"
    and uint_built: "0 \<le> i \<Longrightarrow> i < 2 ^ 32 \<Longrightarrow> js_uint J (js_mkInt J i) = Some (nat i)"
    and int32_built: "- (2 ^ 31) \<le> i \<Longrightarrow> i < 2 ^ 31 \<Longrightarrow> js_int32 J (js_mkInt J i) = Some i"
    and bool_built: "js_bool J (js_mkBool J b) = Some b"
    and str_built: "js_str J (js_mkStr J s) = Some s"
    and null_built: "js_null J (js_mkNull J)"
    and null_str: "js_null J v \<Longrightarrow> js_str J v = None"

subsection \<open>JSON values as data\<close>

datatype json = JNull | JBool bool | JInt int | JStr string | JArr "json list" | JObj "(string \<times> json) list"

fun jsonMember :: "json \<Rightarrow> string \<Rightarrow> json" where
  "jsonMember (JObj kvs) k = (case map_of kvs k of None \<Rightarrow> JNull | Some v \<Rightarrow> v)"
| "jsonMember _ k = JNull"

fun jsonElems :: "json \<Rightarrow> json list" where
  "jsonElems (JArr vs) = vs"
| "jsonElems _ = []"

fun jsonUint :: "json \<Rightarrow> nat option" where
  "jsonUint (JInt i) = (if 0 \<le> i \<and> i < 2 ^ 32 then Some (nat i) else None)"
| "jsonUint _ = None"

fun jsonInt32 :: "json \<Rightarrow> int option" where
  "jsonInt32 (JInt i) = (if - (2 ^ 31) \<le> i \<and> i < 2 ^ 31 then Some i else None)"
| "jsonInt32 _ = None"

fun jsonBool :: "json \<Rightarrow> bool option" where
  "jsonBool (JBool b) = Some b"
| "jsonBool _ = None"

fun jsonStr :: "json \<Rightarrow> string option" where
  "jsonStr (JStr s) = Some s"
| "jsonStr _ = None"

definition jsonOps :: "json JsonOps" where
  "jsonOps = \<lparr>js_null = (\<lambda>v. v = JNull), js_isObject = (\<lambda>v. case v of JObj _ \<Rightarrow> True | _ \<Rightarrow> False),
     js_isArray = (\<lambda>v. case v of JArr _ \<Rightarrow> True | _ \<Rightarrow> False), js_member = jsonMember, js_elems = jsonElems,
     js_uint = jsonUint, js_int32 = jsonInt32, js_bool = jsonBool, js_str = jsonStr,
     js_mkObj = JObj, js_mkArr = JArr, js_mkInt = JInt, js_mkBool = JBool, js_mkStr = JStr, js_mkNull = JNull\<rparr>"

interpretation json_values: json_library jsonOps
  by unfold_locales (simp_all add: jsonOps_def)

end
