(* ===== verification/ConfigData.thy ===== *)
theory ConfigData
  imports AlertProfiles SnapshotBuilder JsonOps
begin

text \<open>
  \<open>lib/core/src/airalert/Config.h\<close>: the configuration of the whole device, its hard limits, and
  its translation to and from JSON. The array of selected locations is the list of the first
  \<open>selectedCount\<close> ones, \<open>char deviceName[32]\<close> the string up to its NUL. Reading returns the
  new configuration or the error; every caller drops a configuration that was not read to
  the end.
\<close>

abbreviation kConfigSchema :: u8 where "kConfigSchema \<equiv> 2"

record AppConfig =
  ac_schemaVersion :: u8
  ac_deviceName :: string
  ac_pollIntervalSec :: u16
  ac_apiStaleAfterSec :: u16
  ac_startConfirmations :: u8
  ac_endConfirmations :: u8
  ac_partialActive :: bool
  ac_partialSiren :: bool
  ac_partialLed :: bool
  ac_notifyEscalation :: bool
  ac_notifyAdditionalLocation :: bool
  ac_remindersWhenStale :: bool
  ac_quietTransitions :: u8
  ac_relaySingle :: bool
  ac_relayActiveHigh :: bool
  ac_relayMaxOnMs :: u32
  ac_relayTestMs :: u16
  ac_snoozeMinutes :: u16
  ac_muteAllAlertTypes :: bool
  ac_alertIndicatorSteady :: bool
  ac_alertIndicatorActiveHigh :: bool
  ac_selected :: "Location list"
  ac_profiles :: "AlertType \<Rightarrow> AlertProfile"

definition defaultConfig :: AppConfig where
  "defaultConfig = \<lparr>ac_schemaVersion = kConfigSchema, ac_deviceName = ''AirAlert'', ac_pollIntervalSec = 20,
     ac_apiStaleAfterSec = 90, ac_startConfirmations = 1, ac_endConfirmations = 2, ac_partialActive = True,
     ac_partialSiren = True, ac_partialLed = True, ac_notifyEscalation = True,
     ac_notifyAdditionalLocation = False, ac_remindersWhenStale = False, ac_quietTransitions = 2,
     ac_relaySingle = False, ac_relayActiveHigh = True, ac_relayMaxOnMs = 30000, ac_relayTestMs = 600,
     ac_snoozeMinutes = 15, ac_muteAllAlertTypes = False, ac_alertIndicatorSteady = False,
     ac_alertIndicatorActiveHigh = True, ac_selected = [], ac_profiles = defaultProfile\<rparr>"

datatype ConfigError =
  BadSchema | BadDeviceName | BadPollInterval | BadStaleInterval | BadConfirmations | BadRelayLimit
| BadTestMs | BadSnooze | TooManyLocations | BadLocation | BadPattern

subsection \<open>Hard limits\<close>

definition badLocation :: "Location list \<Rightarrow> nat \<Rightarrow> bool" where
  "badLocation sel i \<longleftrightarrow> (let loc = sel ! i in
     loc_uid loc = 0 \<or> loc_type loc = UnknownLoc \<or>
     (loc_type loc = Raion \<and> loc_oblastUid loc = 0) \<or>
     (loc_type loc = Hromada \<and> (loc_oblastUid loc = 0 \<or> loc_raionUid loc = 0)) \<or>
     list_ex (\<lambda>j. loc_uid (sel ! j) = loc_uid loc) [0..<i])"

definition badPattern :: "Pattern \<Rightarrow> bool" where
  "badPattern p \<longleftrightarrow> unat (pat_count p) > kMaxSteps \<or> pat_repeat p > 20 \<or>
     list_ex (\<lambda>i. pat_steps p ! i = 0 \<or> stepMs p i > kMaxStepMs) [0..<unat (pat_count p)]"

definition badProfile :: "AlertProfile \<Rightarrow> bool" where
  "badProfile p \<longleftrightarrow> badPattern (ap_start p) \<or> badPattern (ap_end p) \<or> badPattern (ap_reminder p) \<or>
     ap_reminderIntervalMs p < 30000"

definition validateConfig :: "AppConfig \<Rightarrow> ConfigError option" where
  "validateConfig c =
     (if ac_schemaVersion c = 0 \<or> ac_schemaVersion c > kConfigSchema then Some BadSchema
      else if length (ac_deviceName c) = 0 \<or> length (ac_deviceName c) \<ge> 32 then Some BadDeviceName
      else if ac_pollIntervalSec c < 1 \<or> ac_pollIntervalSec c > 600 then Some BadPollInterval
      else if ac_apiStaleAfterSec c < 30 \<or> ac_apiStaleAfterSec c > 600 then Some BadStaleInterval
      else if ac_startConfirmations c < 1 \<or> ac_startConfirmations c > 5 \<or>
              ac_endConfirmations c < 1 \<or> ac_endConfirmations c > 10 then Some BadConfirmations
      else if ac_quietTransitions c > 2 then Some BadPattern
      else if ac_relayMaxOnMs c < 1000 \<or> ac_relayMaxOnMs c > 60000 then Some BadRelayLimit
      else if ac_relayTestMs c < 100 \<or> ac_relayTestMs c > 10000 then Some BadTestMs
      else if ac_snoozeMinutes c < 1 \<or> ac_snoozeMinutes c > 240 then Some BadSnooze
      else if length (ac_selected c) > kMaxSelected then Some TooManyLocations
      else if list_ex (badLocation (ac_selected c)) [0..<length (ac_selected c)] then Some BadLocation
      else if list_ex (\<lambda>t. badProfile (ac_profiles c t)) allTypes then Some BadPattern
      else None)"

subsection \<open>Reading\<close>

definition overlayUnsigned :: "'j JsonOps \<Rightarrow> 'j \<Rightarrow> 'a::len word \<Rightarrow> 'a word option" where
  "overlayUnsigned J v old =
     (if js_null J v then Some old
      else case js_uint J v of None \<Rightarrow> None
        | Some n \<Rightarrow> if n > 2 ^ LENGTH('a) - 1 then None else Some (of_nat n))"

definition overlayBool :: "'j JsonOps \<Rightarrow> 'j \<Rightarrow> bool \<Rightarrow> bool option" where
  "overlayBool J v old = (if js_null J v then Some old else js_bool J v)"

fun addSteps :: "'j JsonOps \<Rightarrow> 'j list \<Rightarrow> Pattern \<Rightarrow> Pattern option" where
  "addSteps J [] p = Some p"
| "addSteps J (v # vs) p =
     (case js_int32 J v of None \<Rightarrow> None
      | Some ms \<Rightarrow>
          if ms = 0 \<or> ms > 60000 \<or> ms < - 60000 then None
          else (case pattern_add p (ms > 0) (word_of_int (if ms > 0 then ms else - ms)) of
              (False, _) \<Rightarrow> None | (True, p') \<Rightarrow> addSteps J vs p'))"

definition patternFromJson :: "'j JsonOps \<Rightarrow> 'j \<Rightarrow> Pattern \<Rightarrow> Pattern option" where
  "patternFromJson J v p =
     (if js_null J v then Some p
      else if \<not> js_isObject J v then None
      else case (overlayBool J (js_member J v ''enabled'') (pat_enabled p),
                 overlayUnsigned J (js_member J v ''repeat'') (pat_repeat p)) of
        (Some en, Some rpt) \<Rightarrow>
          let p = p\<lparr>pat_enabled := en, pat_repeat := rpt\<rparr>; steps = js_member J v ''steps'' in
          if \<not> js_null J steps
          then if \<not> js_isArray J steps then None
               else if length (js_elems J steps) > kMaxSteps then None
               else addSteps J (js_elems J steps) (p\<lparr>pat_count := 0\<rparr>)
          else
            let onV = js_member J v ''on_ms''; offV = js_member J v ''off_ms'' in
            if js_null J onV \<and> js_null J offV then Some p
            else (case (overlayUnsigned J onV (firstMs p True), overlayUnsigned J offV (firstMs p False)) of
                (Some onMs, Some offMs) \<Rightarrow>
                  if onMs > kMaxStepMs \<or> offMs > kMaxStepMs then None
                  else Some (pulses onMs offMs (pat_repeat p) (pat_enabled p))
              | _ \<Rightarrow> None)
      | _ \<Rightarrow> None)"

text \<open>
  A field to overlay: how to read it into the configuration, and the error when the value in
  the document is of the wrong type or out of range. The code's chain of \<open>if (!overlay...)\<close>
  is a list of fields, read in order; the first that fails decides the error.
\<close>

definition fieldU :: "'j JsonOps \<Rightarrow> 'j \<Rightarrow> (AppConfig \<Rightarrow> 'a::len word) \<Rightarrow> ('a word \<Rightarrow> AppConfig \<Rightarrow> AppConfig) \<Rightarrow>
    AppConfig \<Rightarrow> AppConfig option" where
  "fieldU J v rd wr c = map_option (\<lambda>x. wr x c) (overlayUnsigned J v (rd c))"

definition fieldB :: "'j JsonOps \<Rightarrow> 'j \<Rightarrow> (AppConfig \<Rightarrow> bool) \<Rightarrow> (bool \<Rightarrow> AppConfig \<Rightarrow> AppConfig) \<Rightarrow>
    AppConfig \<Rightarrow> AppConfig option" where
  "fieldB J v rd wr c = map_option (\<lambda>x. wr x c) (overlayBool J v (rd c))"

type_synonym 'c FieldReader = "('c \<Rightarrow> 'c option) \<times> ConfigError"

fun readFields :: "'c FieldReader list \<Rightarrow> 'c \<Rightarrow> ConfigError + 'c" where
  "readFields [] c = Inr c"
| "readFields ((rd, err) # fs) c = (case rd c of None \<Rightarrow> Inl err | Some c' \<Rightarrow> readFields fs c')"

definition alertFields :: "'j JsonOps \<Rightarrow> 'j \<Rightarrow> AppConfig FieldReader list" where
  "alertFields J a =
    [(fieldU J (js_member J a ''poll_sec'') ac_pollIntervalSec (\<lambda>x c. c\<lparr>ac_pollIntervalSec := x\<rparr>), BadPollInterval),
     (fieldU J (js_member J a ''stale_sec'') ac_apiStaleAfterSec (\<lambda>x c. c\<lparr>ac_apiStaleAfterSec := x\<rparr>), BadStaleInterval),
     (fieldU J (js_member J a ''start_conf'') ac_startConfirmations (\<lambda>x c. c\<lparr>ac_startConfirmations := x\<rparr>), BadConfirmations),
     (fieldU J (js_member J a ''end_conf'') ac_endConfirmations (\<lambda>x c. c\<lparr>ac_endConfirmations := x\<rparr>), BadConfirmations),
     (fieldB J (js_member J a ''partial_active'') ac_partialActive (\<lambda>x c. c\<lparr>ac_partialActive := x\<rparr>), BadPattern),
     (fieldB J (js_member J a ''partial_siren'') ac_partialSiren (\<lambda>x c. c\<lparr>ac_partialSiren := x\<rparr>), BadPattern),
     (fieldB J (js_member J a ''partial_led'') ac_partialLed (\<lambda>x c. c\<lparr>ac_partialLed := x\<rparr>), BadPattern),
     (fieldB J (js_member J a ''notify_escalation'') ac_notifyEscalation (\<lambda>x c. c\<lparr>ac_notifyEscalation := x\<rparr>), BadPattern),
     (fieldB J (js_member J a ''notify_additional_location'') ac_notifyAdditionalLocation
        (\<lambda>x c. c\<lparr>ac_notifyAdditionalLocation := x\<rparr>), BadPattern),
     (fieldB J (js_member J a ''reminders_when_stale'') ac_remindersWhenStale (\<lambda>x c. c\<lparr>ac_remindersWhenStale := x\<rparr>), BadPattern),
     (fieldU J (js_member J a ''quiet_transitions'') ac_quietTransitions (\<lambda>x c. c\<lparr>ac_quietTransitions := x\<rparr>), BadPattern)]"

definition relayFields :: "'j JsonOps \<Rightarrow> 'j \<Rightarrow> AppConfig FieldReader list" where
  "relayFields J r =
    [(fieldB J (js_member J r ''single'') ac_relaySingle (\<lambda>x c. c\<lparr>ac_relaySingle := x\<rparr>), BadRelayLimit),
     (fieldB J (js_member J r ''active_high'') ac_relayActiveHigh (\<lambda>x c. c\<lparr>ac_relayActiveHigh := x\<rparr>), BadRelayLimit),
     (fieldU J (js_member J r ''max_on_ms'') ac_relayMaxOnMs (\<lambda>x c. c\<lparr>ac_relayMaxOnMs := x\<rparr>), BadRelayLimit),
     (fieldU J (js_member J r ''test_ms'') ac_relayTestMs (\<lambda>x c. c\<lparr>ac_relayTestMs := x\<rparr>), BadTestMs)]"

definition muteLedFields :: "'j JsonOps \<Rightarrow> 'j \<Rightarrow> 'j \<Rightarrow> AppConfig FieldReader list" where
  "muteLedFields J m l =
    [(fieldU J (js_member J m ''snooze_min'') ac_snoozeMinutes (\<lambda>x c. c\<lparr>ac_snoozeMinutes := x\<rparr>), BadSnooze),
     (fieldB J (js_member J m ''all_types'') ac_muteAllAlertTypes (\<lambda>x c. c\<lparr>ac_muteAllAlertTypes := x\<rparr>), BadSnooze),
     (fieldB J (js_member J l ''alert_steady'') ac_alertIndicatorSteady (\<lambda>x c. c\<lparr>ac_alertIndicatorSteady := x\<rparr>), BadPattern),
     (fieldB J (js_member J l ''alert_active_high'') ac_alertIndicatorActiveHigh
        (\<lambda>x c. c\<lparr>ac_alertIndicatorActiveHigh := x\<rparr>), BadPattern)]"

definition readName :: "'j JsonOps \<Rightarrow> 'j \<Rightarrow> AppConfig \<Rightarrow> AppConfig option" where
  "readName J v c = (case js_str J v of
     Some name \<Rightarrow> if length name = 0 \<or> length name \<ge> 32 then None else Some (c\<lparr>ac_deviceName := name\<rparr>)
   | None \<Rightarrow> if \<not> js_null J v then None else Some c)"

definition readLocation :: "'j JsonOps \<Rightarrow> 'j \<Rightarrow> Location list \<Rightarrow> Location option" where
  "readLocation J item parsed =
     (if \<not> js_isObject J item then None
      else case (overlayUnsigned J (js_member J item ''uid'') 0, overlayUnsigned J (js_member J item ''oblast_uid'') 0,
                 overlayUnsigned J (js_member J item ''raion_uid'') 0) of
        (Some uid, Some oblast, Some raion) \<Rightarrow>
          let ty = locationTypeFromString (js_str J (js_member J item ''type'')) in
          if uid = 0 \<or> ty = UnknownLoc \<or> list_ex (\<lambda>l. loc_uid l = uid) parsed then None
          else Some \<lparr>loc_uid = uid, loc_type = ty, loc_oblastUid = oblast, loc_raionUid = raion\<rparr>
      | _ \<Rightarrow> None)"

fun readLocations :: "'j JsonOps \<Rightarrow> 'j list \<Rightarrow> Location list \<Rightarrow> Location list option" where
  "readLocations J [] parsed = Some parsed"
| "readLocations J (v # vs) parsed =
     (case readLocation J v parsed of None \<Rightarrow> None | Some l \<Rightarrow> readLocations J vs (parsed @ [l]))"

definition readSelected :: "'j JsonOps \<Rightarrow> 'j \<Rightarrow> AppConfig \<Rightarrow> ConfigError + AppConfig" where
  "readSelected J v c =
     (if js_null J v then Inr c
      else if \<not> js_isArray J v then Inl BadLocation
      else if length (js_elems J v) > kMaxSelected then Inl TooManyLocations
      else case readLocations J (js_elems J v) [] of None \<Rightarrow> Inl BadLocation
        | Some ls \<Rightarrow> Inr (c\<lparr>ac_selected := ls\<rparr>))"

definition readProfile :: "'j JsonOps \<Rightarrow> 'j \<Rightarrow> AlertProfile \<Rightarrow> AlertProfile option" where
  "readProfile J v p =
     (if js_null J v then Some p
      else if \<not> js_isObject J v then None
      else case (overlayBool J (js_member J v ''enabled'') (ap_enabled p),
                 overlayUnsigned J (js_member J v ''priority'') (ap_priority p),
                 patternFromJson J (js_member J v ''start'') (ap_start p),
                 patternFromJson J (js_member J v ''end'') (ap_end p),
                 patternFromJson J (js_member J v ''reminder'') (ap_reminder p)) of
        (Some en, Some prio, Some st, Some ed, Some rm) \<Rightarrow>
          (case overlayUnsigned J (js_member J (js_member J v ''reminder'') ''interval_sec'')
                  (ap_reminderIntervalMs p div 1000) of
             None \<Rightarrow> None
           | Some sec \<Rightarrow> if sec > (- 1) div 1000 then None
               else Some \<lparr>ap_enabled = en, ap_start = st, ap_end = ed, ap_reminder = rm,
                          ap_reminderIntervalMs = sec * 1000, ap_priority = prio\<rparr>)
      | _ \<Rightarrow> None)"

definition profileField :: "'j JsonOps \<Rightarrow> 'j \<Rightarrow> AlertType \<Rightarrow> AppConfig FieldReader" where
  "profileField J profs t =
     (\<lambda>c. map_option (\<lambda>p. c\<lparr>ac_profiles := (ac_profiles c)(t := p)\<rparr>)
            (readProfile J (js_member J profs (alertTypeToString t)) (ac_profiles c t)), BadPattern)"

definition readProfiles :: "'j JsonOps \<Rightarrow> 'j \<Rightarrow> AppConfig \<Rightarrow> ConfigError + AppConfig" where
  "readProfiles J v c =
     (if js_null J v then Inr c
      else if \<not> js_isObject J v then Inl BadPattern
      else readFields (map (profileField J v) allTypes) c)"

definition migrate :: "AppConfig \<Rightarrow> AppConfig" where
  "migrate c =
     (if ac_schemaVersion c = 1
      then c\<lparr>ac_pollIntervalSec := (if ac_pollIntervalSec c = 15 then 20 else ac_pollIntervalSec c),
             ac_apiStaleAfterSec := (if ac_apiStaleAfterSec c = 60 then 90 else ac_apiStaleAfterSec c),
             ac_schemaVersion := 2\<rparr>
      else c)"

definition bindE :: "'e + 'a \<Rightarrow> ('a \<Rightarrow> 'e + 'b) \<Rightarrow> 'e + 'b" where
  "bindE m f = (case m of Inl e \<Rightarrow> Inl e | Inr a \<Rightarrow> f a)"

lemma bindE_simps [simp]: "bindE (Inl e) f = Inl e" "bindE (Inr a) f = f a"
  by (simp_all add: bindE_def)

lemma bindE_Inr: "bindE m f = Inr b \<longleftrightarrow> (\<exists>a. m = Inr a \<and> f a = Inr b)"
  by (cases m) simp_all

lemma if_Inl: "(if P then Inl e else m) = Inr b \<longleftrightarrow> \<not> P \<and> m = Inr b"
  by simp

definition readSchema :: "'j JsonOps \<Rightarrow> 'j \<Rightarrow> AppConfig \<Rightarrow> ConfigError + AppConfig" where
  "readSchema J v = readFields [(fieldU J v ac_schemaVersion (\<lambda>x c. c\<lparr>ac_schemaVersion := x\<rparr>), BadSchema)]"

definition finishConfig :: "AppConfig \<Rightarrow> ConfigError + AppConfig" where
  "finishConfig c = (let c = migrate c in case validateConfig c of Some e \<Rightarrow> Inl e | None \<Rightarrow> Inr c)"

definition configFromJson :: "'j JsonOps \<Rightarrow> 'j \<Rightarrow> AppConfig \<Rightarrow> ConfigError + AppConfig" where
  "configFromJson J d c =
     (let sec = js_member J d in
      if \<not> js_isObject J d then Inl BadPattern
      else bindE (readSchema J (sec ''schema'') c) (\<lambda>c.
        if list_ex (\<lambda>s. \<not> js_null J (sec s) \<and> \<not> js_isObject J (sec s))
             [''device'', ''alerts'', ''relay'', ''mute'', ''led''] then Inl BadPattern
        else bindE (readFields [(readName J (js_member J (sec ''device'') ''name''), BadDeviceName)] c) (\<lambda>c.
             bindE (readFields (alertFields J (sec ''alerts'')) c) (\<lambda>c.
             bindE (readFields (relayFields J (sec ''relay'')) c) (\<lambda>c.
             bindE (readFields (muteLedFields J (sec ''mute'') (sec ''led'')) c) (\<lambda>c.
             bindE (readSelected J (sec ''locations'') c) (\<lambda>c.
             bindE (readProfiles J (sec ''profiles'') c) finishConfig)))))))"

subsection \<open>Writing\<close>

definition stepJson :: "'j JsonOps \<Rightarrow> Pattern \<Rightarrow> nat \<Rightarrow> 'j" where
  "stepJson J p i = js_mkInt J (if stepOn p i then sint (stepMs p i) else - sint (stepMs p i))"

definition patternMembers :: "'j JsonOps \<Rightarrow> Pattern \<Rightarrow> (string \<times> 'j) list" where
  "patternMembers J p =
    [(''enabled'', js_mkBool J (pat_enabled p)), (''repeat'', js_mkInt J (uint (pat_repeat p))),
     (''steps'', js_mkArr J (map (stepJson J p) [0..<unat (pat_count p)]))]"

definition locationJson :: "'j JsonOps \<Rightarrow> Location \<Rightarrow> 'j" where
  "locationJson J l = js_mkObj J
     ([(''uid'', js_mkInt J (uint (loc_uid l))), (''type'', js_mkStr J (locationTypeToString (loc_type l)))] @
      (if loc_oblastUid l \<noteq> 0 then [(''oblast_uid'', js_mkInt J (uint (loc_oblastUid l)))] else []) @
      (if loc_raionUid l \<noteq> 0 then [(''raion_uid'', js_mkInt J (uint (loc_raionUid l)))] else []))"

definition profileJson :: "'j JsonOps \<Rightarrow> AlertProfile \<Rightarrow> 'j" where
  "profileJson J p = js_mkObj J
    [(''enabled'', js_mkBool J (ap_enabled p)), (''priority'', js_mkInt J (uint (ap_priority p))),
     (''start'', js_mkObj J (patternMembers J (ap_start p))), (''end'', js_mkObj J (patternMembers J (ap_end p))),
     (''reminder'', js_mkObj J (patternMembers J (ap_reminder p) @
        [(''interval_sec'', js_mkInt J (uint (ap_reminderIntervalMs p div 1000)))]))]"

definition alertsJson :: "'j JsonOps \<Rightarrow> AppConfig \<Rightarrow> 'j" where
  "alertsJson J c = js_mkObj J
    [(''poll_sec'', js_mkInt J (uint (ac_pollIntervalSec c))), (''stale_sec'', js_mkInt J (uint (ac_apiStaleAfterSec c))),
     (''start_conf'', js_mkInt J (uint (ac_startConfirmations c))), (''end_conf'', js_mkInt J (uint (ac_endConfirmations c))),
     (''partial_active'', js_mkBool J (ac_partialActive c)), (''partial_siren'', js_mkBool J (ac_partialSiren c)),
     (''partial_led'', js_mkBool J (ac_partialLed c)), (''notify_escalation'', js_mkBool J (ac_notifyEscalation c)),
     (''notify_additional_location'', js_mkBool J (ac_notifyAdditionalLocation c)),
     (''reminders_when_stale'', js_mkBool J (ac_remindersWhenStale c)),
     (''quiet_transitions'', js_mkInt J (uint (ac_quietTransitions c)))]"

definition relayJson :: "'j JsonOps \<Rightarrow> AppConfig \<Rightarrow> 'j" where
  "relayJson J c = js_mkObj J
    [(''single'', js_mkBool J (ac_relaySingle c)), (''active_high'', js_mkBool J (ac_relayActiveHigh c)),
     (''max_on_ms'', js_mkInt J (uint (ac_relayMaxOnMs c))), (''test_ms'', js_mkInt J (uint (ac_relayTestMs c)))]"

definition muteJson :: "'j JsonOps \<Rightarrow> AppConfig \<Rightarrow> 'j" where
  "muteJson J c = js_mkObj J
    [(''snooze_min'', js_mkInt J (uint (ac_snoozeMinutes c))), (''all_types'', js_mkBool J (ac_muteAllAlertTypes c))]"

definition ledJson :: "'j JsonOps \<Rightarrow> AppConfig \<Rightarrow> 'j" where
  "ledJson J c = js_mkObj J
    [(''alert_steady'', js_mkBool J (ac_alertIndicatorSteady c)),
     (''alert_active_high'', js_mkBool J (ac_alertIndicatorActiveHigh c))]"

definition configToJson :: "'j JsonOps \<Rightarrow> AppConfig \<Rightarrow> 'j" where
  "configToJson J c = js_mkObj J
    [(''schema'', js_mkInt J (uint (ac_schemaVersion c))),
     (''device'', js_mkObj J [(''name'', js_mkStr J (ac_deviceName c))]),
     (''alerts'', alertsJson J c), (''relay'', relayJson J c), (''mute'', muteJson J c), (''led'', ledJson J c),
     (''locations'', js_mkArr J (map (locationJson J) (ac_selected c))),
     (''profiles'', js_mkObj J (map (\<lambda>t. (alertTypeToString t, profileJson J (ac_profiles c t))) allTypes))]"

end
