(* ===== verification/ConfigLaws.thy ===== *)
theory ConfigLaws
  imports ConfigData
begin

text \<open>
  What the translation of the configuration guarantees: a configuration that was read is
  within the hard limits, and a configuration that is written reads back the same.
\<close>

subsection \<open>Well-formed configurations\<close>

definition profileOk :: "AlertProfile \<Rightarrow> bool" where
  "profileOk p \<longleftrightarrow> profileWf p \<and> unat (ap_reminderIntervalMs p) mod 1000 = 0"

definition configWf :: "AppConfig \<Rightarrow> bool" where
  "configWf c \<longleftrightarrow> validateConfig c = None \<and> ac_schemaVersion c = 2 \<and> (\<forall>t. profileOk (ac_profiles c t))"

text \<open>Patterns that sound the same: the steps behind \<open>count\<close> do not matter.\<close>

definition samePattern :: "Pattern \<Rightarrow> Pattern \<Rightarrow> bool" where
  "samePattern p q \<longleftrightarrow> pat_enabled p = pat_enabled q \<and> pat_repeat p = pat_repeat q \<and> pat_count p = pat_count q \<and>
     take (unat (pat_count p)) (pat_steps p) = take (unat (pat_count q)) (pat_steps q)"

definition sameProfile :: "AlertProfile \<Rightarrow> AlertProfile \<Rightarrow> bool" where
  "sameProfile p q \<longleftrightarrow> ap_enabled p = ap_enabled q \<and> samePattern (ap_start p) (ap_start q) \<and>
     samePattern (ap_end p) (ap_end q) \<and> samePattern (ap_reminder p) (ap_reminder q) \<and>
     ap_reminderIntervalMs p = ap_reminderIntervalMs q \<and> ap_priority p = ap_priority q"

definition sameConfig :: "AppConfig \<Rightarrow> AppConfig \<Rightarrow> bool" where
  "sameConfig c d \<longleftrightarrow> d = c\<lparr>ac_profiles := ac_profiles d\<rparr> \<and> (\<forall>t. sameProfile (ac_profiles c t) (ac_profiles d t))"

lemma badPattern_same: "samePattern p q \<Longrightarrow> badPattern p = badPattern q"
proof -
  assume same: "samePattern p q"
  define n where "n = unat (pat_count p)"
  have nth: "pat_steps p ! i = pat_steps q ! i" if "i < n" for i
  proof -
    have "take n (pat_steps p) = take n (pat_steps q)" using same by (auto simp: samePattern_def n_def)
    then show ?thesis using that by (metis nth_take)
  qed
  have "list_ex (\<lambda>i. pat_steps p ! i = 0 \<or> stepMs p i > kMaxStepMs) [0..<n] =
      list_ex (\<lambda>i. pat_steps q ! i = 0 \<or> stepMs q i > kMaxStepMs) [0..<n]"
    using nth by (auto simp: list_ex_iff stepMs_def)
  then show ?thesis using same by (simp add: badPattern_def samePattern_def n_def)
qed

lemma badProfile_same: "sameProfile p q \<Longrightarrow> badProfile p = badProfile q"
  using badPattern_same unfolding badProfile_def sameProfile_def by metis

lemma patternWf_readBack:
  "patternWf p \<Longrightarrow> patternWf (p\<lparr>pat_enabled := a, pat_repeat := b\<rparr>)"
  "patternWf p \<Longrightarrow> patternWf (p\<lparr>pat_count := 0\<rparr>)"
  by (simp_all add: patternWf_def)

lemma addSteps_wf: "patternWf p \<Longrightarrow> addSteps J vs p = Some q \<Longrightarrow> patternWf q"
proof (induction J vs p rule: addSteps.induct)
  case (2 J v vs p)
  obtain ms b p' where r: "js_int32 J v = Some ms"
      "pattern_add p (ms > 0) (word_of_int (if ms > 0 then ms else - ms)) = (b, p')" "b" "addSteps J vs p' = Some q"
      "\<not> (ms = 0 \<or> ms > 60000 \<or> ms < - 60000)"
    using "2.prems"(2) by (auto split: option.splits if_splits prod.splits bool.splits)
  have "patternWf p'" using pattern_add_wf [OF "2.prems"(1), of "ms > 0" "word_of_int (if ms > 0 then ms else - ms)"] r(2) by simp
  then show ?case using "2.IH" [OF r(1) _ r(2) [symmetric]] r by simp
qed simp

lemma patternFromJson_wf: "patternWf p \<Longrightarrow> patternFromJson J v p = Some q \<Longrightarrow> patternWf q"
  by (auto simp: patternFromJson_def Let_def pulses_wf patternWf_readBack
      split: if_splits option.splits dest!: addSteps_wf [rotated])

lemma mult_1000:
  assumes "(sec :: u32) \<le> (- 1) div 1000" shows "unat (sec * 1000) = unat sec * 1000"
proof -
  have "unat sec \<le> 4294967" using assms by (simp add: word_le_nat_alt)
  then show ?thesis by (simp add: unat_word_ariths)
qed

lemma readProfile_ok: "profileOk p \<Longrightarrow> readProfile J v p = Some q \<Longrightarrow> profileOk q"
  by (auto simp: readProfile_def profileOk_def profileWf_def mult_1000 not_less
      split: if_splits option.splits dest: patternFromJson_wf)

lemma readFields_inv:
  assumes "\<And>rd err c c'. (rd, err) \<in> set fs \<Longrightarrow> P c \<Longrightarrow> rd c = Some c' \<Longrightarrow> P c'"
  shows "P c \<Longrightarrow> readFields fs c = Inr c' \<Longrightarrow> P c'"
  using assms by (induction fs c rule: readFields.induct) (auto split: option.splits)

lemma fieldU_Some:
  "fieldU J v rd wr c = Some c' \<Longrightarrow> \<exists>x. c' = wr x c"
  by (auto simp: fieldU_def)

lemma fieldB_Some: "fieldB J v rd wr c = Some c' \<Longrightarrow> \<exists>x. c' = wr x c"
  by (auto simp: fieldB_def)

text \<open>The scalar fields leave profiles and locations alone.\<close>

definition scalarReader :: "AppConfig FieldReader \<Rightarrow> bool" where
  "scalarReader f \<longleftrightarrow> (\<forall>c c'. fst f c = Some c' \<longrightarrow> ac_profiles c' = ac_profiles c)"

lemma scalar_readers:
  "list_all scalarReader [(readName J n, e)]" "list_all scalarReader (alertFields J a)"
  "list_all scalarReader (relayFields J r)" "list_all scalarReader (muteLedFields J m l)"
  by (auto simp: scalarReader_def alertFields_def relayFields_def muteLedFields_def readName_def
      dest!: fieldU_Some fieldB_Some split: option.splits if_splits)

lemma readFields_scalar:
  "list_all scalarReader fs \<Longrightarrow> readFields fs c = Inr c' \<Longrightarrow> ac_profiles c' = ac_profiles c"
  by (induction fs c rule: readFields.induct) (auto simp: scalarReader_def split: option.splits)

lemma readProfiles_ok:
  "\<forall>t. profileOk (ac_profiles c t) \<Longrightarrow> readProfiles J v c = Inr c' \<Longrightarrow> \<forall>t. profileOk (ac_profiles c' t)"
proof -
  have "\<forall>t. profileOk (ac_profiles c' t)" if "\<forall>t. profileOk (ac_profiles c t)" "readFields (map (profileField J v) ts) c = Inr c'" for ts
    by (rule readFields_inv [of _ "\<lambda>c. \<forall>t. profileOk (ac_profiles c t)", OF _ that])
      (auto simp: profileField_def dest: readProfile_ok [rotated])
  then show "\<forall>t. profileOk (ac_profiles c t) \<Longrightarrow> readProfiles J v c = Inr c' \<Longrightarrow> \<forall>t. profileOk (ac_profiles c' t)"
    by (auto simp: readProfiles_def split: if_splits)
qed

lemma if_Some_None: "(if b then Some e else r) = None \<longleftrightarrow> \<not> b \<and> r = None"
  by simp

lemmas validate_None = validateConfig_def [of c, THEN arg_cong [where f = "\<lambda>r. r = None"], unfolded if_Some_None] for c

lemma validate_schema: "validateConfig c = None \<Longrightarrow> ac_schemaVersion c = 1 \<or> ac_schemaVersion c = 2"
proof -
  assume "validateConfig c = None"
  then have "ac_schemaVersion c \<noteq> 0" "ac_schemaVersion c \<le> 2" by (simp_all add: validate_None not_less)
  then have "unat (ac_schemaVersion c) \<noteq> 0" "unat (ac_schemaVersion c) \<le> 2"
    by (simp_all add: word_le_nat_alt unat_eq_0)
  then have "unat (ac_schemaVersion c) = 1 \<or> unat (ac_schemaVersion c) = 2" by linarith
  then have "unat (ac_schemaVersion c) = unat (1 :: u8) \<or> unat (ac_schemaVersion c) = unat (2 :: u8)" by simp
  then show ?thesis by (simp only: word_unat_eq_iff)
qed

lemma validate_profiles:
  assumes "validateConfig c = None" "\<And>t. \<not> badProfile (f t)"
  shows "validateConfig (c\<lparr>ac_profiles := f\<rparr>) = None"
proof -
  have "\<not> list_ex (\<lambda>t. badProfile (f t)) allTypes" using assms(2) by (simp add: list_ex_iff)
  then show ?thesis using assms(1) unfolding validate_None by simp
qed

lemma validate_good_profiles: "validateConfig c = None \<Longrightarrow> \<not> badProfile (ac_profiles c t)"
  unfolding validate_None by (cases t) (simp_all add: allTypes_def)

lemma migrate_schema: "ac_schemaVersion (migrate c) \<noteq> 1" "ac_profiles (migrate c) = ac_profiles c"
  by (simp_all add: migrate_def)

lemma finishConfig_Inr: "finishConfig c = Inr c' \<longleftrightarrow> c' = migrate c \<and> validateConfig c' = None"
  by (auto simp: finishConfig_def Let_def split: option.splits)

lemma config_read_wf:
  assumes "\<forall>t. profileOk (ac_profiles c0 t)" and "configFromJson J d c0 = Inr c"
  shows "configWf c"
proof -
  obtain c1 c2 c3 c4 c5 c6 c7 where
    r1: "readSchema J (js_member J d ''schema'') c0 = Inr c1" and
    r2: "readFields [(readName J (js_member J (js_member J d ''device'') ''name''), BadDeviceName)] c1 = Inr c2" and
    r3: "readFields (alertFields J (js_member J d ''alerts'')) c2 = Inr c3" and
    r4: "readFields (relayFields J (js_member J d ''relay'')) c3 = Inr c4" and
    r5: "readFields (muteLedFields J (js_member J d ''mute'') (js_member J d ''led'')) c4 = Inr c5" and
    r6: "readSelected J (js_member J d ''locations'') c5 = Inr c6" and
    r7: "readProfiles J (js_member J d ''profiles'') c6 = Inr c7" and
    fin: "finishConfig c7 = Inr c"
    using assms(2) unfolding configFromJson_def Let_def bindE_Inr if_Inl by blast
  have "ac_profiles c1 = ac_profiles c0" using r1
    by (auto simp: readSchema_def dest!: fieldU_Some split: option.splits)
  then have "ac_profiles c5 = ac_profiles c0"
    using readFields_scalar [OF scalar_readers(1) r2] readFields_scalar [OF scalar_readers(2) r3]
      readFields_scalar [OF scalar_readers(3) r4] readFields_scalar [OF scalar_readers(4) r5] by simp
  moreover have "ac_profiles c6 = ac_profiles c5" using r6 by (auto simp: readSelected_def split: if_splits option.splits)
  ultimately have "\<forall>t. profileOk (ac_profiles c7 t)" using assms(1) readProfiles_ok [OF _ r7] by simp
  then show ?thesis
    using fin validate_schema [of c] migrate_schema(1) [of c7] migrate_schema(2) [of c7]
    by (auto simp: configWf_def finishConfig_Inr)
qed

subsection \<open>Writing and reading back\<close>

context json_library begin

lemma uint_word: "LENGTH('a::len) \<le> 32 \<Longrightarrow> js_uint J (js_mkInt J (uint (w :: 'a word))) = Some (unat w)"
proof -
  assume "LENGTH('a) \<le> 32"
  then have "(2 :: int) ^ LENGTH('a) \<le> 2 ^ 32" by (intro power_increasing) simp_all
  with unsigned_less [of w, where ?'a = int] have "uint w < 2 ^ 32" by (rule less_le_trans)
  then show ?thesis using uint_built [of "uint w"] by simp
qed

lemma overlay_word:
  assumes "LENGTH('a::len) \<le> 32"
  shows "overlayUnsigned J (js_mkInt J (uint (w :: 'a word))) old = Some w"
proof -
  have "unat w < 2 ^ LENGTH('a)" by (rule unsigned_less)
  then have "\<not> unat w > 2 ^ LENGTH('a) - 1" by linarith
  then show ?thesis using uint_word [OF assms, of w] by (simp add: overlayUnsigned_def not_null)
qed

lemma overlay_bool: "overlayBool J (js_mkBool J b) old = Some b"
  by (simp add: overlayBool_def not_null bool_built)

lemma field_word: "LENGTH('a::len) \<le> 32 \<Longrightarrow> fieldU J (js_mkInt J (uint (w :: 'a word))) rd wr c = Some (wr w c)"
  by (simp add: fieldU_def overlay_word)

lemma field_bool: "fieldB J (js_mkBool J b) rd wr c = Some (wr b c)"
  by (simp add: fieldB_def overlay_bool)

lemmas read_back = member_built not_null object_built array_built str_built overlay_word overlay_bool
  field_word field_bool

lemma alerts_back:
  "readFields (alertFields J (alertsJson J c)) c0 = Inr (c0\<lparr>ac_pollIntervalSec := ac_pollIntervalSec c,
     ac_apiStaleAfterSec := ac_apiStaleAfterSec c, ac_startConfirmations := ac_startConfirmations c,
     ac_endConfirmations := ac_endConfirmations c, ac_partialActive := ac_partialActive c,
     ac_partialSiren := ac_partialSiren c, ac_partialLed := ac_partialLed c,
     ac_notifyEscalation := ac_notifyEscalation c, ac_notifyAdditionalLocation := ac_notifyAdditionalLocation c,
     ac_remindersWhenStale := ac_remindersWhenStale c, ac_quietTransitions := ac_quietTransitions c\<rparr>)"
  by (simp add: alertFields_def alertsJson_def read_back)

lemma relay_back:
  "readFields (relayFields J (relayJson J c)) c0 = Inr (c0\<lparr>ac_relaySingle := ac_relaySingle c,
     ac_relayActiveHigh := ac_relayActiveHigh c, ac_relayMaxOnMs := ac_relayMaxOnMs c, ac_relayTestMs := ac_relayTestMs c\<rparr>)"
  by (simp add: relayFields_def relayJson_def read_back)

lemma mute_led_back:
  "readFields (muteLedFields J (muteJson J c) (ledJson J c)) c0 = Inr (c0\<lparr>ac_snoozeMinutes := ac_snoozeMinutes c,
     ac_muteAllAlertTypes := ac_muteAllAlertTypes c, ac_alertIndicatorSteady := ac_alertIndicatorSteady c,
     ac_alertIndicatorActiveHigh := ac_alertIndicatorActiveHigh c\<rparr>)"
  by (simp add: muteLedFields_def muteJson_def ledJson_def read_back)

text \<open>One location, then the list of them.\<close>

lemma location_back:
  assumes "loc_uid l \<noteq> 0" "loc_type l \<noteq> UnknownLoc" "\<forall>k\<in>set parsed. loc_uid k \<noteq> loc_uid l"
  shows "readLocation J (locationJson J l) parsed = Some l"
proof -
  have miss: "overlayUnsigned J (js_member J (locationJson J l) k) old = Some old"
    if "map_of ([(''uid'', js_mkInt J (uint (loc_uid l))), (''type'', js_mkStr J (locationTypeToString (loc_type l)))] @
      (if loc_oblastUid l \<noteq> 0 then [(''oblast_uid'', js_mkInt J (uint (loc_oblastUid l)))] else []) @
      (if loc_raionUid l \<noteq> 0 then [(''raion_uid'', js_mkInt J (uint (loc_raionUid l)))] else [])) k = None"
    for k and old :: u16
    using member_missing [OF that] by (simp add: overlayUnsigned_def locationJson_def)
  have 1: "overlayUnsigned J (js_member J (locationJson J l) ''oblast_uid'') 0 = Some (loc_oblastUid l)"
    using miss [of "''oblast_uid''" 0]
    by (cases "loc_oblastUid l = 0") (simp_all add: locationJson_def member_built overlay_word)
  have 2: "overlayUnsigned J (js_member J (locationJson J l) ''raion_uid'') 0 = Some (loc_raionUid l)"
    using miss [of "''raion_uid''" 0]
    by (cases "loc_raionUid l = 0") (simp_all add: locationJson_def member_built overlay_word)
  have 3: "overlayUnsigned J (js_member J (locationJson J l) ''uid'') 0 = Some (loc_uid l)"
    "js_str J (js_member J (locationJson J l) ''type'') = Some (locationTypeToString (loc_type l))"
    "js_isObject J (locationJson J l)"
    by (simp_all add: locationJson_def read_back)
  show ?thesis
    using assms 1 2 3 by (simp add: readLocation_def locationType_roundtrip list_ex_iff)
qed

lemma locations_back:
  assumes "\<forall>l\<in>set ls. loc_uid l \<noteq> 0 \<and> loc_type l \<noteq> UnknownLoc" "distinct (map loc_uid (parsed @ ls))"
  shows "readLocations J (map (locationJson J) ls) parsed = Some (parsed @ ls)"
  using assms
proof (induction ls arbitrary: parsed)
  case (Cons l ls)
  have "readLocation J (locationJson J l) parsed = Some l"
    by (rule location_back) (use Cons.prems in \<open>auto simp: image_iff\<close>)
  then show ?case using Cons.IH [of "parsed @ [l]"] Cons.prems by simp
qed simp

text \<open>One pattern: its steps are added one by one.\<close>

lemma step_back:
  assumes "patternWf p" "i < unat (pat_count p)"
  shows "js_int32 J (stepJson J p i) = Some (pat_steps p ! i * 10)"
proof -
  define k where "k = pat_steps p ! i"
  have k: "k \<noteq> 0" "\<bar>k\<bar> \<le> 6000" using assms by (auto simp: patternWf_def k_def)
  define m where "m = (if k > 0 then k else - k)"
  have m: "0 \<le> m" "m \<le> 6000" using k by (auto simp: m_def)
  have st: "stepMs p i = word_of_int (m * 10)" by (simp add: stepMs_def m_def k_def [symmetric])
  have sback: "sint (word_of_int x :: u32) = x" if "0 \<le> x" "x \<le> 60000" for x
    using that by (subst sint_sbintrunc') (rule signed_take_bit_int_eq_self, simp_all)
  have "sint (stepMs p i) = m * 10" unfolding st by (rule sback) (use m in simp_all)
  then have "stepJson J p i = js_mkInt J (k * 10)"
    using k by (simp add: stepJson_def stepOn_def k_def [symmetric] m_def)
  then show ?thesis using int32_built [of "k * 10"] k by (simp add: k_def [symmetric])
qed

lemma add_step:
  assumes "k \<noteq> 0" "\<bar>k\<bar> \<le> 6000" "unat (pat_count q) < kMaxSteps"
  shows "pattern_add q (k * 10 > 0) (word_of_int (if k * 10 > 0 then k * 10 else - (k * 10))) =
    (True, q\<lparr>pat_steps := (pat_steps q)[unat (pat_count q) := k], pat_count := pat_count q + 1\<rparr>)"
proof -
  define m where "m = \<bar>k\<bar>"
  have m: "0 < m" "m \<le> 6000" using assms by (auto simp: m_def)
  have w: "(if k * 10 > 0 then k * 10 else - (k * 10)) = m * 10" by (simp add: m_def)
  have "uint (word_of_int x :: u32) = x" if "0 \<le> x" "x \<le> 60000" for x
    using that by (simp add: uint_word_of_int)
  from this [of "m * 10"] have u: "uint (word_of_int (m * 10) :: u32) = m * 10" using m by linarith
  then have "uint (word_of_int (m * 10) + 5 :: u32) = m * 10 + 5"
    using m by (simp add: uint_word_ariths)
  then have units: "uint ((word_of_int (m * 10) + 5 :: u32) div 10) = m" using m by (simp add: uint_div)
  have "\<not> (word_of_int (m * 10) :: u32) > 60000" using u m by (simp add: word_less_def)
  moreover have "(if k > 0 then m else - m) = k" by (simp add: m_def)
  ultimately show ?thesis
    using assms(3) m units unfolding pattern_add_def w by (simp add: Let_def)
qed

lemma steps_back:
  assumes "patternWf p" "i \<le> unat (pat_count p)" "unat (pat_count q) = i" "length (pat_steps q) = kMaxSteps"
    "take i (pat_steps q) = take i (pat_steps p)"
  shows "\<exists>r. addSteps J (map (stepJson J p) [i..<unat (pat_count p)]) q = Some r \<and>
    pat_enabled r = pat_enabled q \<and> pat_repeat r = pat_repeat q \<and> pat_count r = pat_count p \<and>
    take (unat (pat_count p)) (pat_steps r) = take (unat (pat_count p)) (pat_steps p)"
  using assms(2-5)
proof (induction "unat (pat_count p) - i" arbitrary: i q)
  case 0
  then have "pat_count q = pat_count p" "i = unat (pat_count p)" by (simp_all add: word_unat_eq_iff)
  then show ?case using "0.prems" by simp
next
  case (Suc d)
  define n where "n = unat (pat_count p)"
  have i: "i < n" "n \<le> 12" using Suc.hyps(2) assms(1) by (simp_all add: n_def patternWf_def)
  define k where "k = pat_steps p ! i"
  have k: "k \<noteq> 0" "\<bar>k\<bar> \<le> 6000" using assms(1) i(1) by (simp_all add: patternWf_def n_def k_def)
  define q1 where "q1 = q\<lparr>pat_steps := (pat_steps q)[i := k], pat_count := pat_count q + 1\<rparr>"
  have add: "pattern_add q (k * 10 > 0) (word_of_int (if k * 10 > 0 then k * 10 else - (k * 10))) = (True, q1)"
    using add_step [OF k, of q] Suc.prems(2) i by (simp add: q1_def)
  have c1: "unat (pat_count q1) = Suc i"
  proof -
    have "pat_count q < 12" using Suc.prems(2) i by (simp add: word_less_nat_alt)
    then show ?thesis using word_Suc_less Suc.prems(2) by (simp add: q1_def)
  qed
  have "take (Suc i) (pat_steps q1) = take (Suc i) (pat_steps p)"
    using Suc.prems(3, 4) i assms(1)
    by (simp add: q1_def take_Suc_conv_app_nth k_def patternWf_def)
  moreover have "d = n - Suc i" using Suc.hyps(2) unfolding n_def [symmetric] by simp
  ultimately obtain r where r: "addSteps J (map (stepJson J p) [Suc i..<n]) q1 = Some r"
      "pat_enabled r = pat_enabled q1" "pat_repeat r = pat_repeat q1" "pat_count r = pat_count p"
      "take n (pat_steps r) = take n (pat_steps p)"
    using Suc.hyps(1) [of "Suc i" q1] i c1 Suc.prems(3) unfolding n_def [symmetric]
    by (auto simp: q1_def)
  have "\<not> (k * 10 = 0 \<or> k * 10 > 60000 \<or> k * 10 < - 60000)" using k by auto
  then have "addSteps J (stepJson J p i # vs) q = addSteps J vs q1" for vs
    using step_back [OF assms(1), of i] i(1) add by (simp add: n_def [symmetric] k_def [symmetric])
  then show ?case
    using r i(1) unfolding n_def [symmetric] by (auto simp: upt_conv_Cons q1_def simp del: upt_Suc addSteps.simps)
qed

lemma pattern_back:
  assumes "patternWf p" "patternWf q" "\<not> js_null J v" "js_isObject J v"
    "js_member J v ''enabled'' = js_mkBool J (pat_enabled p)" "js_member J v ''repeat'' = js_mkInt J (uint (pat_repeat p))"
    "js_member J v ''steps'' = js_mkArr J (map (stepJson J p) [0..<unat (pat_count p)])"
  shows "\<exists>r. patternFromJson J v q = Some r \<and> samePattern p r"
proof -
  define q0 where "q0 = q\<lparr>pat_enabled := pat_enabled p, pat_repeat := pat_repeat p, pat_count := 0\<rparr>"
  have "length (pat_steps q0) = kMaxSteps" using assms(2) by (simp add: q0_def patternWf_def)
  with steps_back [OF assms(1), of 0 q0] obtain r where
    r: "addSteps J (map (stepJson J p) [0..<unat (pat_count p)]) q0 = Some r"
      "pat_enabled r = pat_enabled q0" "pat_repeat r = pat_repeat q0" "pat_count r = pat_count p"
      "take (unat (pat_count p)) (pat_steps r) = take (unat (pat_count p)) (pat_steps p)"
    by (auto simp: q0_def)
  have "unat (pat_count p) \<le> kMaxSteps" using assms(1) by (simp add: patternWf_def)
  then have "patternFromJson J v q = Some r"
    using assms(3-) r(1) by (simp add: patternFromJson_def Let_def overlay_word overlay_bool not_null array_built q0_def)
  then show ?thesis using r by (auto simp: samePattern_def q0_def)
qed

lemma interval_back:
  fixes ms :: u32
  assumes "unat ms mod 1000 = 0"
  shows "\<not> ms div 1000 > (- 1) div 1000" "ms div 1000 * 1000 = ms"
proof -
  have m: "unat ms < 2 ^ 32" using unsigned_less [of ms, where ?'a = nat] by simp
  have d: "unat (ms div 1000) = unat ms div 1000" by (simp add: unat_div)
  show le: "\<not> ms div 1000 > (- 1) div 1000"
    using m d by (simp add: word_less_nat_alt unat_div)
  have "unat (ms div 1000 * 1000) = unat (ms div 1000) * 1000" using le by (intro mult_1000) (simp add: not_less)
  also have "\<dots> = unat ms" using div_mult_mod_eq [of "unat ms" 1000] unfolding d assms by simp
  finally show "ms div 1000 * 1000 = ms" by (simp only: word_unat_eq_iff)
qed

lemma profile_back:
  assumes "profileOk p" "profileOk q"
  shows "\<exists>r. readProfile J (profileJson J p) q = Some r \<and> sameProfile p r"
proof -
  have wf: "patternWf (ap_start p)" "patternWf (ap_end p)" "patternWf (ap_reminder p)"
      "patternWf (ap_start q)" "patternWf (ap_end q)" "patternWf (ap_reminder q)"
      "unat (ap_reminderIntervalMs p) mod 1000 = 0"
    using assms by (simp_all add: profileOk_def profileWf_def)
  let ?v = "profileJson J p"
  have m: "js_member J ?v ''enabled'' = js_mkBool J (ap_enabled p)"
      "js_member J ?v ''priority'' = js_mkInt J (uint (ap_priority p))"
      "js_member J ?v ''start'' = js_mkObj J (patternMembers J (ap_start p))"
      "js_member J ?v ''end'' = js_mkObj J (patternMembers J (ap_end p))"
      "js_member J ?v ''reminder'' = js_mkObj J (patternMembers J (ap_reminder p) @
         [(''interval_sec'', js_mkInt J (uint (ap_reminderIntervalMs p div 1000)))])"
    by (simp_all add: profileJson_def member_built)
  obtain a where a: "patternFromJson J (js_member J ?v ''start'') (ap_start q) = Some a" "samePattern (ap_start p) a"
    using pattern_back [OF wf(1, 4), of "js_member J ?v ''start''"] by (auto simp: m read_back patternMembers_def)
  obtain b where b: "patternFromJson J (js_member J ?v ''end'') (ap_end q) = Some b" "samePattern (ap_end p) b"
    using pattern_back [OF wf(2, 5), of "js_member J ?v ''end''"] by (auto simp: m read_back patternMembers_def)
  obtain c where c: "patternFromJson J (js_member J ?v ''reminder'') (ap_reminder q) = Some c" "samePattern (ap_reminder p) c"
    using pattern_back [OF wf(3, 6), of "js_member J ?v ''reminder''"] by (auto simp: m read_back patternMembers_def)
  have i: "overlayUnsigned J (js_member J (js_member J ?v ''reminder'') ''interval_sec'') old =
      Some (ap_reminderIntervalMs p div 1000)" for old :: u32
    by (simp add: m member_built patternMembers_def overlay_word)
  have "\<not> js_null J ?v" "js_isObject J ?v" by (simp_all add: profileJson_def read_back)
  then show ?thesis
    using a b c i interval_back [OF wf(7)]
    by (simp add: readProfile_def m(1, 2) overlay_bool overlay_word sameProfile_def)
qed

lemma profiles_back:
  assumes "\<forall>t. profileOk (P t)" "distinct ts" "\<forall>t. profileOk (ac_profiles c t)"
    "\<forall>t\<in>set ts. js_member J v (alertTypeToString t) = profileJson J (P t)"
  shows "\<exists>f. readFields (map (profileField J v) ts) c = Inr (c\<lparr>ac_profiles := f\<rparr>) \<and>
    (\<forall>t. if t \<in> set ts then sameProfile (P t) (f t) else f t = ac_profiles c t)"
  using assms(2-4)
proof (induction ts arbitrary: c)
  case Nil
  have "c = c\<lparr>ac_profiles := ac_profiles c\<rparr>" by simp
  then show ?case by (intro exI [of _ "ac_profiles c"]) simp
next
  case (Cons t ts)
  obtain r where r: "readProfile J (profileJson J (P t)) (ac_profiles c t) = Some r" "sameProfile (P t) r"
    using profile_back assms(1) Cons.prems(2) by blast
  define c1 where "c1 = c\<lparr>ac_profiles := (ac_profiles c)(t := r)\<rparr>"
  have "profileOk r" using readProfile_ok [OF _ r(1)] Cons.prems(2) by simp
  then have "\<forall>u. profileOk (ac_profiles c1 u)" using Cons.prems(2) by (simp add: c1_def)
  with Cons.IH [of c1] Cons.prems obtain f where f: "readFields (map (profileField J v) ts) c1 = Inr (c1\<lparr>ac_profiles := f\<rparr>)"
      "\<forall>u. if u \<in> set ts then sameProfile (P u) (f u) else f u = ac_profiles c1 u"
    by auto
  have "fst (profileField J v t) c = Some c1"
    using r(1) Cons.prems(3) by (simp add: profileField_def c1_def)
  then have "readFields (map (profileField J v) (t # ts)) c = Inr (c1\<lparr>ac_profiles := f\<rparr>)"
    using f(1) by (cases "profileField J v t") simp
  moreover have "c1\<lparr>ac_profiles := f\<rparr> = c\<lparr>ac_profiles := f\<rparr>" by (simp add: c1_def)
  moreover have "if u \<in> set (t # ts) then sameProfile (P u) (f u) else f u = ac_profiles c u" for u
    using f(2) [rule_format, of u] r(2) Cons.prems(1) by (auto simp: c1_def split: if_splits)
  ultimately show ?case by (intro exI [of _ f]) simp
qed

lemma config_back:
  assumes "configWf c" and "\<forall>t. profileOk (ac_profiles c0 t)"
  shows "\<exists>c'. configFromJson J (configToJson J c) c0 = Inr c' \<and> sameConfig c c'"
proof -
  let ?d = "configToJson J c"
  have v: "validateConfig c = None" "ac_schemaVersion c = 2" "\<forall>t. profileOk (ac_profiles c t)"
    using assms(1) by (simp_all add: configWf_def)
  have sec: "js_member J ?d ''schema'' = js_mkInt J (uint (ac_schemaVersion c))"
      "js_member J ?d ''device'' = js_mkObj J [(''name'', js_mkStr J (ac_deviceName c))]"
      "js_member J ?d ''alerts'' = alertsJson J c" "js_member J ?d ''relay'' = relayJson J c"
      "js_member J ?d ''mute'' = muteJson J c" "js_member J ?d ''led'' = ledJson J c"
      "js_member J ?d ''locations'' = js_mkArr J (map (locationJson J) (ac_selected c))"
      "js_member J ?d ''profiles'' = js_mkObj J (map (\<lambda>t. (alertTypeToString t, profileJson J (ac_profiles c t))) allTypes)"
      "js_isObject J ?d"
    by (simp_all add: configToJson_def member_built object_built)
  have obj: "\<not> list_ex (\<lambda>s. \<not> js_null J (js_member J ?d s) \<and> \<not> js_isObject J (js_member J ?d s))
      [''device'', ''alerts'', ''relay'', ''mute'', ''led'']"
    by (simp add: sec alertsJson_def relayJson_def muteJson_def ledJson_def object_built)
  define c1 where "c1 = c0\<lparr>ac_schemaVersion := 2\<rparr>"
  have r1: "readSchema J (js_member J ?d ''schema'') c0 = Inr c1"
  proof -
    have "fieldU J (js_mkInt J (uint (ac_schemaVersion c))) ac_schemaVersion (\<lambda>x c. c\<lparr>ac_schemaVersion := x\<rparr>) c0 = Some c1"
      by (subst field_word) (simp_all add: v(2) c1_def)
    then show ?thesis by (simp add: readSchema_def sec)
  qed
  have "0 < length (ac_deviceName c)" "length (ac_deviceName c) < 32"
    using v(1) by (auto simp: validateConfig_def not_le split: if_splits)
  then have r2: "readFields [(readName J (js_member J (js_member J ?d ''device'') ''name''), BadDeviceName)] c1 =
      Inr (c1\<lparr>ac_deviceName := ac_deviceName c\<rparr>)"
    by (simp add: sec member_built readName_def str_built)
  define c2 where "c2 = c\<lparr>ac_selected := ac_selected c0, ac_profiles := ac_profiles c0\<rparr>"
  have scal: "bindE (readFields (alertFields J (alertsJson J c)) (c1\<lparr>ac_deviceName := ac_deviceName c\<rparr>)) (\<lambda>c'.
      bindE (readFields (relayFields J (relayJson J c)) c') (\<lambda>c'.
      bindE (readFields (muteLedFields J (muteJson J c) (ledJson J c)) c') f)) = f c2" for f :: "AppConfig \<Rightarrow> ConfigError + AppConfig"
    using v(2) by (simp add: alerts_back relay_back mute_led_back c1_def)
      (rule arg_cong [of _ _ f], rule AppConfig.equality, simp_all add: c2_def)
  have locs: "list_all (\<lambda>i. \<not> badLocation (ac_selected c) i) [0..<length (ac_selected c)]" "length (ac_selected c) \<le> kMaxSelected"
    using v(1) by (auto simp: validateConfig_def list_ex_iff list_all_iff split: if_splits)
  then have "\<forall>l\<in>set (ac_selected c). loc_uid l \<noteq> 0 \<and> loc_type l \<noteq> UnknownLoc"
    by (auto simp: list_all_iff badLocation_def Let_def in_set_conv_nth)
  moreover have "distinct (map loc_uid ([] @ ac_selected c))"
    using locs(1) by (auto simp: list_all_iff badLocation_def Let_def list_ex_iff distinct_conv_nth)
      (metis atLeastLessThan_iff bot_nat_0.extremum linorder_neqE_nat)
  ultimately have "readLocations J (map (locationJson J) (ac_selected c)) [] = Some ([] @ ac_selected c)"
    by (rule locations_back)
  then have r6: "readSelected J (js_member J ?d ''locations'') c2 = Inr (c2\<lparr>ac_selected := ac_selected c\<rparr>)"
    using locs(2) by (simp add: readSelected_def sec not_null array_built)
  let ?v = "js_member J ?d ''profiles''"
  have look: "\<forall>t\<in>set allTypes. js_member J ?v (alertTypeToString t) = profileJson J (ac_profiles c t)"
  proof
    fix t assume "t \<in> set allTypes"
    show "js_member J ?v (alertTypeToString t) = profileJson J (ac_profiles c t)"
      unfolding sec by (rule member_built) (cases t; simp add: allTypes_def)
  qed
  have "\<forall>t. profileOk (ac_profiles (c2\<lparr>ac_selected := ac_selected c\<rparr>) t)" using assms(2) by (simp add: c2_def)
  from profiles_back [OF v(3) distinct_allTypes this look] obtain f where
    f: "readFields (map (profileField J ?v) allTypes) (c2\<lparr>ac_selected := ac_selected c\<rparr>) = Inr (c\<lparr>ac_profiles := f\<rparr>)"
      "\<forall>t. sameProfile (ac_profiles c t) (f t)"
    by (auto simp: c2_def)
  then have r7: "readProfiles J ?v (c2\<lparr>ac_selected := ac_selected c\<rparr>) = Inr (c\<lparr>ac_profiles := f\<rparr>)"
    by (simp add: readProfiles_def sec(8) not_null object_built)
  have same: "sameConfig c (c\<lparr>ac_profiles := f\<rparr>)" using f(2) by (simp add: sameConfig_def)
  have prof: "\<not> badProfile (f t)" for t
  proof -
    have "\<not> badProfile (ac_profiles c t)"
      using v(1) by (rule validate_good_profiles)
    moreover have "sameProfile (ac_profiles c t) (f t)" using f(2) by simp
    ultimately show ?thesis by (simp add: badProfile_same)
  qed
  have "validateConfig (c\<lparr>ac_profiles := f\<rparr>) = None"
    by (rule validate_profiles [OF v(1) prof])
  then have fin: "finishConfig (c\<lparr>ac_profiles := f\<rparr>) = Inr (c\<lparr>ac_profiles := f\<rparr>)"
    using v(2) by (simp add: finishConfig_def migrate_def)
  have "configFromJson J ?d c0 = Inr (c\<lparr>ac_profiles := f\<rparr>)"
    using sec(9) obj r1 r2 r6 r7 fin scal by (simp add: configFromJson_def Let_def sec(3-6))
  then show ?thesis using same by blast
qed

end

subsection \<open>Properties\<close>

lemma defaultConfig_profiles: "\<forall>t. profileOk (ac_profiles defaultConfig t)"
proof
  fix t
  have "unat (ap_reminderIntervalMs (defaultProfile t)) mod 1000 = 0"
    by (cases t) (simp_all add: defaultProfile_def baseProfile_def)
  then show "profileOk (ac_profiles defaultConfig t)"
    by (simp add: profileOk_def defaultProfile_wf defaultConfig_def)
qed

lemma defaultConfig_wf: "configWf defaultConfig"
proof -
  have "validateConfig defaultConfig = None" by code_simp
  then show ?thesis using defaultConfig_profiles by (simp add: configWf_def) (simp add: defaultConfig_def)
qed

text \<open>
  C28. Whatever document is read over a good configuration (at boot the defaults, from the web
  interface the running one), the result is an error or a configuration within the hard
  limits: the current schema, the relay's ON time between 1 s and 60 s, all sirens patterns
  well-formed with steps of at most a minute, and so on. No value is ever narrowed or wrapped.
\<close>

theorem config_read_within_limits:
  assumes "\<forall>t. profileOk (ac_profiles c0 t)" and "configFromJson J d c0 = Inr c"
  shows "validateConfig c = None \<and> ac_schemaVersion c = 2 \<and>
    1000 \<le> unat (ac_relayMaxOnMs c) \<and> unat (ac_relayMaxOnMs c) \<le> 60000 \<and>
    1 \<le> unat (ac_endConfirmations c) \<and> length (ac_selected c) \<le> kMaxSelected \<and>
    (\<forall>t. profileWf (ac_profiles c t) \<and> 30000 \<le> unat (ap_reminderIntervalMs (ac_profiles c t)))"
proof -
  have wf: "configWf c" using assms by (rule config_read_wf)
  then have v: "validateConfig c = None" by (simp add: configWf_def)
  have "1000 \<le> unat (ac_relayMaxOnMs c)" "unat (ac_relayMaxOnMs c) \<le> 60000" "1 \<le> unat (ac_endConfirmations c)"
      "length (ac_selected c) \<le> kMaxSelected"
    using v by (auto simp: validateConfig_def word_less_nat_alt not_le split: if_splits)
  moreover have "30000 \<le> unat (ap_reminderIntervalMs (ac_profiles c t))" for t
    using v by (auto simp: validateConfig_def list_ex_iff badProfile_def word_less_nat_alt not_less split: if_splits)
  ultimately show ?thesis using wf v by (simp add: configWf_def profileOk_def)
qed

theorem config_read_within_limits_witness:
  "\<exists>c. configFromJson jsonOps (configToJson jsonOps (defaultConfig\<lparr>ac_relayMaxOnMs := 45000\<rparr>)) defaultConfig = Inr c \<and>
     ac_relayMaxOnMs c = 45000 \<and> unat (ac_relayMaxOnMs c) \<le> 60000"
proof -
  let ?c = "defaultConfig\<lparr>ac_relayMaxOnMs := 45000\<rparr>"
  have "validateConfig ?c = None" by code_simp
  then have "configWf ?c"
    using defaultConfig_profiles by (simp add: configWf_def) (simp add: defaultConfig_def)
  from json_values.config_back [OF this defaultConfig_profiles] obtain c where
    c: "configFromJson jsonOps (configToJson jsonOps ?c) defaultConfig = Inr c" "sameConfig ?c c"
    by blast
  have "ac_relayMaxOnMs c = 45000" using c(2) unfolding sameConfig_def
    by (metis AppConfig.select_convs(16) AppConfig.surjective AppConfig.update_convs(16,23))
  with config_read_within_limits [OF defaultConfig_profiles c(1)] c(1) show ?thesis by blast
qed

text \<open>
  C29. A configuration that is saved reads back as it was: over any previous configuration,
  reading the document written for a configuration within the limits yields the same
  settings, locations and profiles (of a pattern, the steps that are played). The JSON library
  enters only with the contract that what was built reads back.
\<close>

theorem config_roundtrip:
  assumes "json_library J" and "configWf c" and "\<forall>t. profileOk (ac_profiles c0 t)"
  shows "\<exists>c'. configFromJson J (configToJson J c) c0 = Inr c' \<and> sameConfig c c'"
  using json_library.config_back [OF assms] .

theorem config_roundtrip_witness:
  "\<exists>c'. configFromJson jsonOps (configToJson jsonOps defaultConfig) defaultConfig = Inr c' \<and> sameConfig defaultConfig c'"
  using config_roundtrip [OF json_values.json_library_axioms defaultConfig_wf defaultConfig_profiles] .

end
