(* ===== verification/AtomicJsonFile.thy ===== *)
theory AtomicJsonFile
  imports JsonOps "HOL-Library.Countable"
begin

text \<open>
  Atomic replacement of a JSON file (\<open>AtomicJsonFile.h\<close>). The file system (LittleFS) and the
  JSON text format are libraries: their operations are a parameter. What the code relies on is
  the locale \<open>littlefs\<close>: a rename takes place as a whole or not at all, an operation touches only
  the files it names, and the parser inverts the serializer where it succeeds at all.

  A write is modelled with everything the flash goes through: it returns the list of the states
  of the file system after each operation, also those in the middle of writing the temporary
  file. A power loss leaves one of them.
\<close>

type_synonym bytes = "u8 list"

record ('f, 'j) FsOps =
  fs_read :: "'f \<Rightarrow> string \<Rightarrow> bytes option"
  fs_exists :: "'f \<Rightarrow> string \<Rightarrow> bool"
  fs_remove :: "'f \<Rightarrow> string \<Rightarrow> 'f"
  fs_create :: "'f \<Rightarrow> string \<Rightarrow> 'f option"
  fs_append :: "'f \<Rightarrow> string \<Rightarrow> bytes \<Rightarrow> 'f list \<times> nat \<times> bool"
  fs_rename :: "'f \<Rightarrow> string \<Rightarrow> string \<Rightarrow> bool \<times> 'f"
  js_serialize :: "'j \<Rightarrow> bytes"
  js_parse :: "bytes \<Rightarrow> 'j option"

text \<open>
  \<open>fs_append\<close> returns the states the flash passes through while the bytes are written and
  flushed (the last one is the state after it), the number of bytes written, and whether the
  file reports no write error.
\<close>

subsection \<open>Reading\<close>

definition readOne :: "('f, 'j) FsOps \<Rightarrow> 'f \<Rightarrow> string \<Rightarrow> 'j option" where
  "readOne F f path = (case fs_read F f path of None \<Rightarrow> None | Some bs \<Rightarrow> js_parse F bs)"

definition readWithBackup :: "('f, 'j) FsOps \<Rightarrow> 'f \<Rightarrow> string \<Rightarrow> string \<Rightarrow> 'j option" where
  "readWithBackup F f path backup =
     (case readOne F f path of Some d \<Rightarrow> Some d | None \<Rightarrow> readOne F f backup)"

lemma readWithBackup_if:
  "readWithBackup F f path backup = (if readOne F f path = None then readOne F f backup else readOne F f path)"
  by (simp add: readWithBackup_def split: option.splits)

subsection \<open>Writing\<close>

text \<open>The last part: the checked temporary file takes the place of the current one.\<close>

definition swapIn :: "('f, 'j) FsOps \<Rightarrow> string \<Rightarrow> string \<Rightarrow> string \<Rightarrow> 'f \<Rightarrow> bool \<times> 'f list" where
  "swapIn F path tmp backup f =
     (case fs_rename F f tmp path of
        (False, f1) \<Rightarrow> (False, [f1])
      | (True, f1) \<Rightarrow> (True, [f1, fs_remove F f1 backup]))"

definition replaceFile :: "('f, 'j) FsOps \<Rightarrow> string \<Rightarrow> string \<Rightarrow> string \<Rightarrow> 'f \<Rightarrow> bool \<times> 'f list" where
  "replaceFile F path tmp backup f =
     (let f1 = fs_remove F f backup in
      if \<not> fs_exists F f1 path
      then let (ok, tr) = swapIn F path tmp backup f1 in (ok, f1 # tr)
      else case fs_rename F f1 path backup of
        (False, f2) \<Rightarrow> (False, [f1, f2, fs_remove F f2 tmp])
      | (True, f2) \<Rightarrow>
          let (ok, tr) = swapIn F path tmp backup f2
          in (ok, f1 # f2 # tr @ (if ok then [] else [snd (fs_rename F (last tr) backup path)])))"

definition writeJson :: "('f, 'j) FsOps \<Rightarrow> string \<Rightarrow> string \<Rightarrow> string \<Rightarrow> 'j \<Rightarrow> 'f \<Rightarrow> bool \<times> 'f list" where
  "writeJson F path tmp backup document f =
     (let f1 = fs_remove F f tmp in
      case fs_create F f1 tmp of
        None \<Rightarrow> (False, [f1])
      | Some f2 \<Rightarrow>
          let expected = js_serialize F document;
              (mids, written, good) = fs_append F f2 tmp expected;
              f3 = last (f2 # mids)
          in if written \<noteq> length expected \<or> \<not> good
             then (False, [f1, f2] @ mids @ [fs_remove F f3 tmp])
             else if readOne F f3 tmp = None
             then (False, [f1, f2] @ mids @ [fs_remove F f3 tmp])
             else let (ok, tr) = replaceFile F path tmp backup f3
                  in (ok, [f1, f2] @ mids @ tr))"

subsection \<open>What the code relies on\<close>

locale littlefs =
  fixes F :: "('f, 'j) FsOps"
  assumes exists_read: "fs_exists F f p \<longleftrightarrow> fs_read F f p \<noteq> None"
    and remove_other: "q \<noteq> p \<Longrightarrow> fs_read F (fs_remove F f p) q = fs_read F f q"
    and remove_same: "fs_read F (fs_remove F f p) p \<in> {None, fs_read F f p}"
    and create_other: "fs_create F f p = Some g \<Longrightarrow> q \<noteq> p \<Longrightarrow> fs_read F g q = fs_read F f q"
    and append_other: "fs_append F f p bs = (mids, n, good) \<Longrightarrow> g \<in> set mids \<Longrightarrow> q \<noteq> p \<Longrightarrow> fs_read F g q = fs_read F f q"
    and append_all: "fs_append F f p bs = (mids, length bs, True) \<Longrightarrow> fs_create F f0 p = Some f \<Longrightarrow>
      fs_read F (last (f # mids)) p = Some bs"
    and rename_fails: "fs_rename F f p q = (False, g) \<Longrightarrow> fs_read F g r = fs_read F f r"
    and rename_other: "fs_rename F f p q = (True, g) \<Longrightarrow> r \<noteq> p \<Longrightarrow> r \<noteq> q \<Longrightarrow> fs_read F g r = fs_read F f r"
    and rename_done: "fs_rename F f p q = (True, g) \<Longrightarrow> p \<noteq> q \<Longrightarrow> fs_read F g p = None \<and> fs_read F g q = fs_read F f p"
    and parse_serialized: "js_parse F (js_serialize F d) \<in> {None, Some d}"
begin

text \<open>Operations on the temporary file do not change what is read.\<close>

lemma readOne_cong: "fs_read F g p = fs_read F f q \<Longrightarrow> readOne F g p = readOne F f q"
  by (simp add: readOne_def)

lemma read_cong:
  assumes "\<And>q. q \<noteq> tmp \<Longrightarrow> fs_read F g q = fs_read F f q" "path \<noteq> tmp" "backup \<noteq> tmp"
  shows "readWithBackup F g path backup = readWithBackup F f path backup" "readOne F g path = readOne F f path"
proof -
  have "readOne F g path = readOne F f path" "readOne F g backup = readOne F f backup"
    using assms by (auto intro!: readOne_cong)
  then show "readWithBackup F g path backup = readWithBackup F f path backup" "readOne F g path = readOne F f path"
    by (simp_all add: readWithBackup_if)
qed

lemma readOne_missing: "fs_read F f p = None \<Longrightarrow> readOne F f p = None"
  by (simp add: readOne_def)

text \<open>
  Replacing the file. Before it the temporary file reads as the new document, and the old one is
  not in the backup alone.
\<close>

lemma swapIn_reads:
  assumes names: "path \<noteq> tmp" "backup \<noteq> tmp" "path \<noteq> backup"
    and new: "readOne F f tmp = Some new"
    and old: "fs_read F f path = None" "readOne F f backup = old"
    and run: "swapIn F path tmp backup f = (ok, tr)"
  shows "tr \<noteq> []" "if ok then \<forall>g\<in>set tr. readWithBackup F g path backup = Some new
     else \<forall>g\<in>set tr. \<forall>q. fs_read F g q = fs_read F f q"
proof -
  obtain b f1 where r: "fs_rename F f tmp path = (b, f1)" by fastforce
  show "tr \<noteq> []" using run by (auto simp: swapIn_def split: prod.splits bool.splits)
  show "if ok then \<forall>g\<in>set tr. readWithBackup F g path backup = Some new
     else \<forall>g\<in>set tr. \<forall>q. fs_read F g q = fs_read F f q"
  proof (cases b)
    case True
    have "readOne F f1 path = Some new" using rename_done [of f tmp path f1] r True names new readOne_cong by metis
    moreover have "readOne F (fs_remove F f1 backup) path = readOne F f1 path"
      by (rule readOne_cong, rule remove_other) (use names in simp)
    ultimately show ?thesis using run r True by (auto simp: swapIn_def readWithBackup_if)
  next
    case False
    then show ?thesis using run r rename_fails [of f tmp path f1] by (auto simp: swapIn_def)
  qed
qed

lemma replaceFile_reads:
  assumes names: "path \<noteq> tmp" "backup \<noteq> tmp" "path \<noteq> backup"
    and new: "readOne F f tmp = Some new"
    and old: "readOne F f path = old" "readWithBackup F f path backup = old"
    and run: "replaceFile F path tmp backup f = (ok, tr)"
  shows "\<forall>g\<in>set tr. readWithBackup F g path backup \<in> {old, Some new}"
    and "tr \<noteq> [] \<and> readWithBackup F (last tr) path backup = (if ok then Some new else old)"
proof -
  define f1 where "f1 = fs_remove F f backup"
  have f1: "readOne F f1 path = old" "readOne F f1 tmp = Some new"
    using old(1) new names by (simp_all add: f1_def remove_other readOne_def)
  have bak: "old = None \<Longrightarrow> readOne F f1 backup = None"
    using remove_same [of f backup] old by (auto simp: f1_def readWithBackup_if readOne_def split: option.splits if_splits)
  have at1: "readWithBackup F f1 path backup = old"
    using f1(1) bak by (cases old) (simp_all add: readWithBackup_if)
  have "(\<forall>g\<in>set tr. readWithBackup F g path backup \<in> {old, Some new}) \<and>
      tr \<noteq> [] \<and> readWithBackup F (last tr) path backup = (if ok then Some new else old)"
  proof (cases "fs_exists F f1 path")
    case False
    then have none: "fs_read F f1 path = None" by (simp add: exists_read)
    with f1(1) have "old = None" by (simp add: readOne_missing)
    obtain tr' where sw: "swapIn F path tmp backup f1 = (ok, tr')" "tr = f1 # tr'"
      using run False by (auto simp: replaceFile_def Let_def f1_def [symmetric] split: prod.splits)
    note sr = swapIn_reads [OF names f1(2) none refl sw(1)]
    show ?thesis
    proof (cases ok)
      case True then show ?thesis using sr sw(2) at1 by (auto simp: last_in_set)
    next
      case False
      then have "readWithBackup F g path backup = old" if "g \<in> set tr'" for g
        using sr(2) that read_cong(1) [of tmp g f1 path backup] names at1 by auto
      then show ?thesis using sr(1) sw(2) at1 False by (auto simp: last_in_set)
    qed
  next
    case True
    obtain b f2 where rn: "fs_rename F f1 path backup = (b, f2)" by fastforce
    show ?thesis
    proof (cases b)
      case False
      with rn have same: "fs_read F f2 r = fs_read F f1 r" for r using rename_fails [of f1 path backup f2] by simp
      have "readWithBackup F f2 path backup = old" using read_cong(1) [of tmp f2 f1 path backup] same names at1 by simp
      moreover have "readWithBackup F (fs_remove F f2 tmp) path backup = old"
        using read_cong(1) [of tmp "fs_remove F f2 tmp" f2 path backup] remove_other names calculation by simp
      moreover have "\<not> ok" "tr = [f1, f2, fs_remove F f2 tmp]"
        using run True rn False by (auto simp: replaceFile_def Let_def f1_def [symmetric])
      ultimately show ?thesis using at1 by simp
    next
      case ok1: True
      have f2: "fs_read F f2 path = None" "readOne F f2 backup = old" "readOne F f2 tmp = Some new"
        using rename_done [of f1 path backup f2] rename_other [of f1 path backup f2 tmp] rn ok1 names f1
        by (auto simp: readOne_def)
      have at2: "readWithBackup F f2 path backup = old"
        using f2 by (simp add: readWithBackup_if readOne_missing)
      obtain tr' where sw: "swapIn F path tmp backup f2 = (ok, tr')"
        "tr = f1 # f2 # tr' @ (if ok then [] else [snd (fs_rename F (last tr') backup path)])"
        using run True rn ok1 by (auto simp: replaceFile_def Let_def f1_def [symmetric] split: prod.splits)
      note sr = swapIn_reads [OF names f2(3) f2(1,2) sw(1)]
      show ?thesis
      proof (cases ok)
        case True then show ?thesis using sr sw(2) at1 at2 by (auto simp: last_in_set)
      next
        case False
        then have same: "fs_read F g q = fs_read F f2 q" if "g \<in> set tr'" for g q using sr(2) that by auto
        have mid: "readWithBackup F g path backup = old" if "g \<in> set tr'" for g
          using read_cong(1) [of tmp g f2 path backup] same [OF that] names at2 by simp
        obtain c f4 where rest: "fs_rename F (last tr') backup path = (c, f4)" by fastforce
        have lastRead: "fs_read F (last tr') q = fs_read F f2 q" for q using same sr(1) by simp
        have "readWithBackup F f4 path backup = old"
        proof (cases c)
          case True
          then have "fs_read F f4 path = fs_read F f2 backup" "fs_read F f4 backup = None"
            using rename_done [of "last tr'" backup path f4] rest names lastRead by auto
          then have "readOne F f4 path = readOne F f2 backup" "readOne F f4 backup = None"
            by (auto intro!: readOne_cong readOne_missing)
          then show ?thesis using f2(2) by (simp add: readWithBackup_if)
        next
          case False
          then have "fs_read F f4 q = fs_read F f2 q" for q
            using rename_fails [of "last tr'" backup path f4] rest lastRead by simp
          then show ?thesis using read_cong(1) [of tmp f4 f2 path backup] names at2 by simp
        qed
        then show ?thesis using sw(2) at1 at2 mid rest False by auto
      qed
    qed
  qed
  then show "\<forall>g\<in>set tr. readWithBackup F g path backup \<in> {old, Some new}"
    "tr \<noteq> [] \<and> readWithBackup F (last tr) path backup = (if ok then Some new else old)" by blast+
qed

text \<open>
  The whole write. Whenever the old document is read from the file itself (or neither file is
  readable), every state the flash passes through reads as the old document or the new one, and
  the result tells which one is left in the end.
\<close>

lemma writeJson_reads:
  assumes names: "path \<noteq> tmp" "backup \<noteq> tmp" "path \<noteq> backup"
    and main: "readOne F f path = readWithBackup F f path backup"
    and run: "writeJson F path tmp backup new f = (ok, tr)"
  shows "\<forall>g\<in>set tr. readWithBackup F g path backup \<in> {readWithBackup F f path backup, Some new}"
    and "tr \<noteq> [] \<and> readWithBackup F (last tr) path backup = (if ok then Some new else readWithBackup F f path backup)"
proof -
  define old where "old = readWithBackup F f path backup"
  define same where "same g \<longleftrightarrow> (\<forall>q. q \<noteq> tmp \<longrightarrow> fs_read F g q = fs_read F f q)" for g
  have reads: "readWithBackup F g path backup = old" "readOne F g path = old" if "same g" for g
    using read_cong [of tmp g f path backup] that names main by (auto simp: same_def old_def)
  define f1 where "f1 = fs_remove F f tmp"
  have s1: "same f1" by (simp add: same_def f1_def remove_other)
  have "(\<forall>g\<in>set tr. readWithBackup F g path backup \<in> {old, Some new}) \<and>
      tr \<noteq> [] \<and> readWithBackup F (last tr) path backup = (if ok then Some new else old)"
  proof (cases "fs_create F f1 tmp")
    case None
    then have "\<not> ok" "tr = [f1]" using run by (auto simp: writeJson_def Let_def f1_def)
    then show ?thesis using reads [OF s1] by simp
  next
    case (Some f2)
    then have s2: "same f2" using s1 create_other [OF Some] by (simp add: same_def)
    obtain mids written good where ap: "fs_append F f2 tmp (js_serialize F new) = (mids, written, good)"
      by (metis surj_pair)
    define f3 where "f3 = last (f2 # mids)"
    have smid: "same g" if "g \<in> set mids" for g
      using s2 append_other [OF ap that] by (simp add: same_def)
    then have s3: "same f3" using s2 by (simp add: f3_def last_in_set)
    then have s4: "same (fs_remove F f3 tmp)" by (simp add: same_def remove_other)
    show ?thesis
    proof (cases "written \<noteq> length (js_serialize F new) \<or> \<not> good \<or> readOne F f3 tmp = None")
      case True
      then have "\<not> ok" "tr = f1 # f2 # mids @ [fs_remove F f3 tmp]"
        using run Some ap by (auto simp: writeJson_def Let_def f1_def [symmetric] f3_def [symmetric] simp del: last.simps split: if_split_asm)
      then show ?thesis using reads [OF s1] reads [OF s2] reads [OF s4] reads [OF smid] by auto
    next
      case False
      then have "fs_read F f3 tmp = Some (js_serialize F new)"
        using ap append_all [OF _ Some] by (simp add: f3_def)
      then have new: "readOne F f3 tmp = Some new"
        using False parse_serialized [of new] by (auto simp: readOne_def)
      obtain tr' where rp: "replaceFile F path tmp backup f3 = (ok, tr')" "tr = f1 # f2 # mids @ tr'"
        using run Some ap False
        by (auto simp: writeJson_def Let_def f1_def [symmetric] f3_def [symmetric] simp del: last.simps split: prod.splits if_split_asm)
      note rr = replaceFile_reads [OF names new reads(2) [OF s3] reads(1) [OF s3] rp(1)]
      then show ?thesis using rp(2) reads [OF s1] reads [OF s2] reads [OF smid] by auto
    qed
  qed
  then show "\<forall>g\<in>set tr. readWithBackup F g path backup \<in> {readWithBackup F f path backup, Some new}"
    "tr \<noteq> [] \<and> readWithBackup F (last tr) path backup = (if ok then Some new else readWithBackup F f path backup)"
    by (simp_all add: old_def)
qed

text \<open>A write touches only the three files it names.\<close>

lemma rename_other_any: "fs_rename F f p q = (b, g) \<Longrightarrow> r \<noteq> p \<Longrightarrow> r \<noteq> q \<Longrightarrow> fs_read F g r = fs_read F f r"
  by (cases b) (auto dest: rename_fails rename_other)

lemma swapIn_other:
  assumes "swapIn F path tmp backup f = (ok, tr)" "q \<notin> {path, tmp, backup}" "g \<in> set tr"
  shows "fs_read F g q = fs_read F f q"
  using assms by (auto simp: swapIn_def remove_other dest!: rename_other_any split: prod.split_asm bool.split_asm)

lemma replaceFile_other:
  assumes "replaceFile F path tmp backup f = (ok, tr)" "q \<notin> {path, tmp, backup}" "g \<in> set tr"
  shows "fs_read F g q = fs_read F f q"
proof -
  have swap: "fs_read F h q = fs_read F f0 q" if "h \<in> set (snd (swapIn F path tmp backup f0))" for h f0
    using swapIn_other [OF _ assms(2) that] by (metis prod.collapse)
  have ren: "fs_read F (snd (fs_rename F f0 a b)) q = fs_read F f0 q" if "q \<noteq> a" "q \<noteq> b" for f0 a b
    using rename_other_any [of f0 a b] that by (metis prod.collapse)
  have rest: "snd (swapIn F path tmp backup f0) \<noteq> []" for f0 by (simp add: swapIn_def split: prod.split bool.split)
  have rem: "fs_read F (fs_remove F f0 a) q = fs_read F f0 q" if "q \<noteq> a" for f0 a
    using that by (rule remove_other)
  obtain b f2 where r: "fs_rename F (fs_remove F f backup) path backup = (b, f2)" by fastforce
  then have f2: "fs_read F f2 q = fs_read F f q" using assms(2) ren [of path backup "fs_remove F f backup"] rem by auto
  show ?thesis
    using assms r f2 rem [of backup f] swap [of g "fs_remove F f backup"] swap [of g f2] rem [of tmp f2]
      ren [of backup path "last (snd (swapIn F path tmp backup f2))"] swap [OF last_in_set [OF rest], of f2]
    by (auto simp: replaceFile_def Let_def split_beta split: if_split_asm bool.split_asm)
qed

lemma writeJson_other:
  assumes "writeJson F path tmp backup new f = (ok, tr)" "q \<notin> {path, tmp, backup}" "g \<in> set tr"
  shows "fs_read F g q = fs_read F f q"
proof -
  have q: "q \<noteq> tmp" using assms(2) by simp
  define f1 where "f1 = fs_remove F f tmp"
  have f1: "fs_read F f1 q = fs_read F f q" using q by (simp add: f1_def remove_other)
  show ?thesis
  proof (cases "fs_create F f1 tmp")
    case None
    then show ?thesis using assms(1,3) f1 by (auto simp: writeJson_def Let_def f1_def)
  next
    case (Some f2)
    have f2: "fs_read F f2 q = fs_read F f q" using create_other [OF Some q] f1 by simp
    obtain mids written good where ap: "fs_append F f2 tmp (js_serialize F new) = (mids, written, good)" by (metis surj_pair)
    have mid: "fs_read F h q = fs_read F f q" if "h \<in> set mids" for h using append_other [OF ap that q] f2 by simp
    define f3 where "f3 = last (f2 # mids)"
    have f3: "fs_read F f3 q = fs_read F f q" using f2 mid by (auto simp: f3_def)
    obtain ok' tr' where rp: "replaceFile F path tmp backup f3 = (ok', tr')" by fastforce
    have "set tr \<subseteq> {f1, f2} \<union> set mids \<union> {fs_remove F f3 tmp} \<union> set tr'"
      using assms(1) Some ap rp
      by (auto simp: writeJson_def Let_def f1_def [symmetric] f3_def [symmetric] simp del: last.simps split: if_split_asm)
    then show ?thesis
      using assms(3) f1 f2 f3 mid remove_other [OF q, of f3] replaceFile_other [OF rp assms(2)] by auto
  qed
qed

end

subsection \<open>A file system\<close>

text \<open>
  A flash that holds files of at most \<open>cap\<close> bytes and writes byte by byte, with a code for JSON
  values: it meets the contract.
\<close>

instance json :: countable by countable_datatype

type_synonym flash = "string \<Rightarrow> bytes option"

definition flashOps :: "nat \<Rightarrow> (flash, json) FsOps" where
  "flashOps cap = \<lparr>fs_read = (\<lambda>f p. f p), fs_exists = (\<lambda>f p. f p \<noteq> None), fs_remove = (\<lambda>f p. f(p := None)),
     fs_create = (\<lambda>f p. Some (f(p \<mapsto> []))),
     fs_append = (\<lambda>f p bs. let old = (case f p of None \<Rightarrow> [] | Some b \<Rightarrow> b); n = min (length bs) cap
       in (map (\<lambda>k. f(p \<mapsto> old @ take k bs)) [0..<Suc n], n, n = length bs)),
     fs_rename = (\<lambda>f p q. case f p of None \<Rightarrow> (False, f) | Some b \<Rightarrow> (True, f(p := None, q \<mapsto> b))),
     js_serialize = (\<lambda>d. replicate (to_nat d) 0),
     js_parse = (\<lambda>bs. if \<exists>d :: json. to_nat d = length bs then Some (from_nat (length bs)) else None)\<rparr>"

interpretation flash: littlefs "flashOps cap"
  by unfold_locales
    (auto simp: flashOps_def Let_def last_map split: option.splits if_splits)

lemma flash_parse: "js_parse (flashOps cap) (js_serialize (flashOps cap) d) = Some d"
  by (auto simp: flashOps_def)

subsection \<open>Properties\<close>


text \<open>A write to a flash with an old document, and one that does not fit.\<close>

definition oldFlash :: flash where
  "oldFlash = [''/config.json'' \<mapsto> js_serialize (flashOps 0) (JBool True)]"

lemma oldFlash_main:
  "readOne (flashOps cap) oldFlash ''/config.json'' = readWithBackup (flashOps cap) oldFlash ''/config.json'' ''/config.bak''"
  "readWithBackup (flashOps cap) oldFlash ''/config.json'' ''/config.bak'' = Some (JBool True)"
  by (auto simp: readWithBackup_if readOne_def oldFlash_def flashOps_def)

lemma oldFlash_write:
  "fst (writeJson (flashOps (to_nat d)) ''/config.json'' ''/config.new'' ''/config.bak'' d oldFlash)"
  by (auto simp: writeJson_def replaceFile_def swapIn_def readOne_def oldFlash_def flashOps_def Let_def last_map)


text \<open>
  A finding: the hypothesis is needed. After a power loss between the two renames the old
  document is in the backup alone; the next write begins by removing it, and a second power loss
  then leaves nothing to read.
\<close>

lemma second_power_loss_loses_document:
  assumes "f = [''/config.bak'' \<mapsto> js_serialize (flashOps cap) (JBool True)]"
  shows "readWithBackup (flashOps cap) f ''/config.json'' ''/config.bak'' = Some (JBool True)"
    and "\<exists>g\<in>set (snd (replaceFile (flashOps cap) ''/config.json'' ''/config.new'' ''/config.bak''
           (f(''/config.new'' \<mapsto> js_serialize (flashOps cap) d)))).
         readWithBackup (flashOps cap) g ''/config.json'' ''/config.bak'' = None"
  using assms by (auto simp: readWithBackup_if readOne_def flashOps_def replaceFile_def swapIn_def Let_def)

end
