(* ===== verification/ConfigStore.thy ===== *)
theory ConfigStore
  imports ConfigLaws AtomicJsonFile
begin

text \<open>
  The configuration on flash (\<open>ConfigStore.h\<close>): loading at boot over the defaults, and saving
  through the atomic replacement of the file. The file system and the JSON library are
  parameters, as in the theories this one composes.
\<close>

definition kConfigPath :: string where "kConfigPath = ''/config.json''"
definition kConfigTmp :: string where "kConfigTmp = ''/config.new''"
definition kConfigBackup :: string where "kConfigBackup = ''/config.bak''"

definition store_load :: "('f, 'j) FsOps \<Rightarrow> 'j JsonOps \<Rightarrow> 'f \<Rightarrow> AppConfig \<Rightarrow> bool \<times> AppConfig" where
  "store_load F J f c =
     (case readWithBackup F f kConfigPath kConfigBackup of
        None \<Rightarrow> (False, c)
      | Some d \<Rightarrow> (case configFromJson J d defaultConfig of
            Inl _ \<Rightarrow> (False, c)
          | Inr new \<Rightarrow> (True, new)))"

definition store_save :: "('f, 'j) FsOps \<Rightarrow> 'j JsonOps \<Rightarrow> AppConfig \<Rightarrow> 'f \<Rightarrow> bool \<times> 'f list" where
  "store_save F J c f =
     (if validateConfig c \<noteq> None then (False, [])
      else writeJson F kConfigPath kConfigTmp kConfigBackup (configToJson J c) f)"

lemma config_paths:
  "kConfigPath \<noteq> kConfigTmp" "kConfigBackup \<noteq> kConfigTmp" "kConfigPath \<noteq> kConfigBackup"
  by (simp_all add: kConfigPath_def kConfigTmp_def kConfigBackup_def)

lemma store_load_wf: "store_load F J f c0 = (True, c) \<Longrightarrow> configWf c"
  using config_read_wf [OF defaultConfig_profiles] by (auto simp: store_load_def split: option.splits sum.splits)

lemma store_load_cong:
  "readWithBackup F g kConfigPath kConfigBackup = readWithBackup F f kConfigPath kConfigBackup \<Longrightarrow>
   store_load F J g c0 = store_load F J f c0"
  by (simp add: store_load_def)

lemma store_load_new:
  assumes "json_library J" "configWf c" "readWithBackup F g kConfigPath kConfigBackup = Some (configToJson J c)"
  shows "\<exists>c'. store_load F J g c0 = (True, c') \<and> sameConfig c c'"
  using json_library.config_back [OF assms(1,2) defaultConfig_profiles] assms(3) by (auto simp: store_load_def)

lemma store_save_loads:
  assumes "littlefs F" and "json_library J" and "configWf c"
    and "readOne F f kConfigPath = readWithBackup F f kConfigPath kConfigBackup"
    and "store_save F J c f = (ok, tr)"
  shows "(\<forall>g\<in>set tr. store_load F J g c0 = store_load F J f c0 \<or>
            (\<exists>c'. store_load F J g c0 = (True, c') \<and> sameConfig c c')) \<and>
    (if ok then \<exists>c'. store_load F J (last tr) c0 = (True, c') \<and> sameConfig c c'
     else store_load F J (last tr) c0 = store_load F J f c0)"
proof -
  have w: "writeJson F kConfigPath kConfigTmp kConfigBackup (configToJson J c) f = (ok, tr)"
    using assms(3,5) by (simp add: store_save_def configWf_def)
  note reads = littlefs.writeJson_reads [OF assms(1) config_paths assms(4) w]
  have "store_load F J g c0 = store_load F J f c0 \<or> (\<exists>c'. store_load F J g c0 = (True, c') \<and> sameConfig c c')"
    if "g \<in> set tr" for g
    using reads(1) that store_load_cong [of F g f J c0] store_load_new [OF assms(2,3), of F g c0] by fastforce
  moreover have "if ok then \<exists>c'. store_load F J (last tr) c0 = (True, c') \<and> sameConfig c c'
     else store_load F J (last tr) c0 = store_load F J f c0"
    using reads(2) store_load_cong [of F "last tr" f J c0] store_load_new [OF assms(2,3), of F "last tr" c0] by auto
  ultimately show ?thesis by blast
qed


lemma empty_flash:
  "readOne (flashOps cap) Map.empty kConfigPath = readWithBackup (flashOps cap) Map.empty kConfigPath kConfigBackup"
  by (simp add: readWithBackup_if readOne_def flashOps_def)

lemma empty_flash_write:
  "fst (writeJson (flashOps (to_nat d)) kConfigPath kConfigTmp kConfigBackup d Map.empty)"
  by (auto simp: writeJson_def replaceFile_def swapIn_def readOne_def flashOps_def Let_def last_map
      kConfigPath_def kConfigTmp_def kConfigBackup_def)


end
