(* ===== verification/LocationTable.thy ===== *)
theory LocationTable
  imports ThreatTypes
begin

text \<open>
  \<open>src/alerts/LocationTable.h\<close>: the generated location catalogue of ukrainealarm.com, 1605 rows
  (uid, type, oblast uid, raion uid), in the source's order. A type is the number of a
  \<open>LocationType\<close>; uid 0 stands for "none".
\<close>

record LocationRow =
  row_uid :: u16
  row_type :: u8
  row_oblastUid :: u16
  row_raionUid :: u16

definition locationRows01 :: "(nat \<times> nat \<times> nat \<times> nat) list" where
  "locationRows01 = [
     (3, 0, 0, 0), (4, 0, 0, 0), (5, 0, 0, 0), (8, 0, 0, 0), (9, 0, 0, 0), (10, 0, 0, 0),
     (11, 0, 0, 0), (12, 0, 0, 0), (13, 0, 0, 0), (14, 0, 0, 0), (15, 0, 0, 0), (16, 0, 0, 0),
     (17, 0, 0, 0), (18, 0, 0, 0), (19, 0, 0, 0), (20, 0, 0, 0), (21, 0, 0, 0), (22, 0, 0, 0),
     (23, 0, 0, 0), (24, 0, 0, 0), (25, 0, 0, 0), (26, 0, 0, 0), (27, 0, 0, 0), (28, 0, 0, 0),
     (31, 3, 0, 0), (32, 1, 4, 0), (33, 1, 4, 0), (34, 1, 4, 0), (35, 1, 4, 0), (36, 1, 4, 0),
     (37, 1, 4, 0), (38, 1, 8, 0), (39, 1, 8, 0), (40, 1, 8, 0), (41, 1, 8, 0), (42, 1, 9, 0),
     (43, 1, 9, 0), (44, 1, 9, 0), (45, 1, 9, 0), (46, 1, 9, 0), (47, 1, 9, 0), (48, 1, 9, 0),
     (49, 1, 28, 0), (50, 1, 28, 0), (51, 1, 28, 0), (52, 1, 28, 0), (53, 1, 28, 0), (54, 1, 28, 0),
     (55, 1, 28, 0), (56, 1, 28, 0), (57, 1, 10, 0), (58, 1, 10, 0), (59, 1, 10, 0), (60, 1, 10, 0),
     (61, 1, 11, 0), (62, 1, 11, 0), (63, 1, 11, 0), (64, 1, 11, 0), (65, 1, 11, 0), (66, 1, 11, 0),
     (67, 1, 13, 0), (68, 1, 13, 0), (69, 1, 13, 0), (70, 1, 13, 0), (71, 1, 13, 0), (72, 1, 13, 0),
     (73, 1, 14, 0), (74, 1, 14, 0), (75, 1, 14, 0), (76, 1, 14, 0), (77, 1, 14, 0), (78, 1, 14, 0),
     (79, 1, 14, 0), (80, 1, 15, 0), (81, 1, 15, 0), (82, 1, 15, 0), (83, 1, 15, 0), (84, 1, 16, 0),
     (85, 1, 16, 0), (86, 1, 16, 0), (87, 1, 16, 0), (88, 1, 27, 0), (89, 1, 27, 0), (90, 1, 27, 0),
     (91, 1, 27, 0), (92, 1, 27, 0), (93, 1, 27, 0), (94, 1, 27, 0), (95, 1, 17, 0), (96, 1, 17, 0),
     (97, 1, 17, 0), (98, 1, 17, 0), (99, 1, 18, 0), (100, 1, 18, 0), (101, 1, 18, 0), (102, 1, 18, 0),
     (103, 1, 18, 0), (104, 1, 18, 0), (105, 1, 18, 0), (106, 1, 19, 0), (107, 1, 19, 0), (108, 1, 19, 0),
     (109, 1, 19, 0), (110, 1, 5, 0), (111, 1, 5, 0), (112, 1, 5, 0), (113, 1, 5, 0), (114, 1, 20, 0),
     (115, 1, 20, 0), (116, 1, 20, 0), (117, 1, 20, 0), (118, 1, 20, 0), (119, 1, 21, 0), (120, 1, 21, 0),
     (121, 1, 21, 0), (122, 1, 22, 0), (123, 1, 22, 0), (124, 1, 22, 0), (125, 1, 22, 0), (126, 1, 22, 0),
     (127, 1, 22, 0), (128, 1, 22, 0), (129, 1, 23, 0), (130, 1, 23, 0), (131, 1, 23, 0), (132, 1, 23, 0),
     (133, 1, 23, 0), (134, 1, 3, 0), (135, 1, 3, 0), (136, 1, 3, 0), (137, 1, 26, 0), (138, 1, 26, 0),
     (139, 1, 26, 0), (140, 1, 25, 0), (141, 1, 25, 0), (142, 1, 25, 0), (143, 1, 25, 0), (144, 1, 25, 0),
     (145, 1, 12, 0), (146, 1, 12, 0), (147, 1, 12, 0), (148, 1, 12, 0), (149, 1, 12, 0), (150, 1, 24, 0),
     (151, 1, 24, 0), (152, 1, 24, 0), (153, 1, 24, 0), (154, 2, 4, 36), (155, 2, 4, 36), (156, 2, 4, 36)
   ]"

definition locationRows02 :: "(nat \<times> nat \<times> nat \<times> nat) list" where
  "locationRows02 = [
     (157, 2, 4, 36), (158, 2, 4, 36), (159, 2, 4, 36), (160, 2, 4, 36), (161, 2, 4, 36), (162, 2, 4, 36),
     (163, 2, 4, 36), (164, 2, 4, 36), (165, 2, 4, 36), (166, 2, 4, 36), (167, 2, 4, 36), (168, 2, 4, 36),
     (169, 2, 4, 36), (170, 2, 4, 33), (171, 2, 4, 33), (172, 2, 4, 33), (173, 2, 4, 33), (174, 2, 4, 33),
     (175, 2, 4, 33), (176, 2, 4, 33), (177, 2, 4, 35), (178, 2, 4, 35), (179, 2, 4, 35), (180, 2, 4, 35),
     (181, 2, 4, 35), (182, 2, 4, 35), (183, 2, 4, 35), (184, 2, 4, 35), (185, 2, 4, 37), (186, 2, 4, 37),
     (187, 2, 4, 37), (188, 2, 4, 37), (189, 2, 4, 37), (190, 2, 4, 37), (191, 2, 4, 37), (192, 2, 4, 37),
     (193, 2, 4, 37), (194, 2, 4, 37), (195, 2, 4, 37), (196, 2, 4, 37), (197, 2, 4, 37), (198, 2, 4, 37),
     (199, 2, 4, 32), (200, 2, 4, 32), (201, 2, 4, 32), (202, 2, 4, 32), (203, 2, 4, 32), (204, 2, 4, 32),
     (205, 2, 4, 32), (206, 2, 4, 32), (207, 2, 4, 32), (208, 2, 4, 34), (209, 2, 4, 34), (210, 2, 4, 34),
     (211, 2, 4, 34), (212, 2, 4, 34), (213, 2, 4, 34), (214, 2, 4, 34), (215, 2, 4, 34), (216, 2, 4, 34),
     (217, 2, 8, 39), (218, 2, 8, 39), (219, 2, 8, 39), (220, 2, 8, 39), (221, 2, 8, 39), (222, 2, 8, 39),
     (223, 2, 8, 39), (224, 2, 8, 39), (225, 2, 8, 39), (226, 2, 8, 39), (227, 2, 8, 39), (228, 2, 8, 39),
     (229, 2, 8, 39), (230, 2, 8, 39), (231, 2, 8, 39), (232, 2, 8, 40), (233, 2, 8, 40), (234, 2, 8, 40),
     (235, 2, 8, 40), (236, 2, 8, 40), (237, 2, 8, 40), (238, 2, 8, 40), (239, 2, 8, 40), (240, 2, 8, 40),
     (241, 2, 8, 40), (242, 2, 8, 40), (243, 2, 8, 40), (244, 2, 8, 40), (245, 2, 8, 40), (246, 2, 8, 40),
     (247, 2, 8, 40), (248, 2, 8, 40), (249, 2, 8, 40), (250, 2, 8, 40), (251, 2, 8, 40), (252, 2, 8, 40),
     (253, 2, 8, 40), (254, 2, 8, 40), (255, 2, 8, 38), (256, 2, 8, 38), (257, 2, 8, 38), (258, 2, 8, 38),
     (259, 2, 8, 38), (260, 2, 8, 38), (261, 2, 8, 38), (262, 2, 8, 38), (263, 2, 8, 38), (264, 2, 8, 38),
     (265, 2, 8, 38), (266, 2, 8, 41), (267, 2, 8, 41), (268, 2, 8, 41), (269, 2, 8, 41), (270, 2, 8, 41),
     (271, 2, 9, 46), (272, 2, 9, 46), (273, 2, 9, 46), (274, 2, 9, 46), (275, 2, 9, 46), (276, 2, 9, 46),
     (277, 2, 9, 46), (278, 2, 9, 46), (279, 2, 9, 46), (280, 2, 9, 46), (281, 2, 9, 46), (282, 2, 9, 46),
     (283, 2, 9, 46), (284, 2, 9, 46), (285, 2, 9, 46), (286, 2, 9, 45), (287, 2, 9, 45), (288, 2, 9, 45),
     (289, 2, 9, 45), (290, 2, 9, 45), (291, 2, 9, 45), (292, 2, 9, 45), (293, 2, 9, 42), (294, 2, 9, 42),
     (295, 2, 9, 42), (296, 2, 9, 42), (297, 2, 9, 42), (298, 2, 9, 42), (299, 2, 9, 42), (300, 2, 9, 42),
     (301, 2, 9, 42), (302, 2, 9, 42), (303, 2, 9, 42), (304, 2, 9, 42), (305, 2, 9, 48), (306, 2, 9, 48)
   ]"

definition locationRows03 :: "(nat \<times> nat \<times> nat \<times> nat) list" where
  "locationRows03 = [
     (307, 2, 9, 48), (308, 2, 9, 48), (309, 2, 9, 48), (310, 2, 9, 48), (311, 2, 9, 48), (312, 2, 9, 48),
     (313, 2, 9, 48), (314, 2, 9, 48), (315, 2, 9, 48), (316, 2, 9, 48), (317, 2, 9, 48), (318, 2, 9, 48),
     (319, 2, 9, 48), (320, 2, 9, 48), (321, 2, 9, 48), (322, 2, 9, 48), (323, 2, 9, 48), (324, 2, 9, 43),
     (325, 2, 9, 43), (326, 2, 9, 43), (327, 2, 9, 43), (328, 2, 9, 43), (329, 2, 9, 43), (330, 2, 9, 43),
     (331, 2, 9, 43), (332, 2, 9, 44), (333, 2, 9, 44), (334, 2, 9, 44), (335, 2, 9, 44), (336, 2, 9, 44),
     (337, 2, 9, 44), (338, 2, 9, 44), (339, 2, 9, 44), (340, 2, 9, 44), (341, 2, 9, 44), (342, 2, 9, 44),
     (343, 2, 9, 44), (344, 2, 9, 44), (345, 2, 9, 44), (346, 2, 9, 44), (347, 2, 9, 44), (348, 2, 9, 44),
     (349, 2, 9, 47), (350, 2, 9, 47), (351, 2, 9, 47), (352, 2, 9, 47), (353, 2, 9, 47), (354, 2, 9, 47),
     (355, 2, 9, 47), (356, 2, 9, 47), (357, 2, 28, 56), (358, 2, 28, 56), (359, 2, 28, 56), (360, 2, 28, 56),
     (361, 2, 28, 56), (362, 2, 28, 56), (363, 2, 28, 56), (364, 2, 28, 56), (365, 2, 28, 56), (366, 2, 28, 56),
     (367, 2, 28, 56), (368, 2, 28, 56), (369, 2, 28, 56), (370, 2, 28, 56), (371, 2, 28, 50), (372, 2, 28, 50),
     (373, 2, 28, 50), (374, 2, 28, 50), (375, 2, 28, 50), (376, 2, 28, 50), (377, 2, 28, 50), (378, 2, 28, 50),
     (379, 2, 28, 50), (380, 2, 28, 50), (381, 2, 28, 50), (382, 2, 28, 50), (383, 2, 28, 54), (384, 2, 28, 54),
     (385, 2, 28, 54), (386, 2, 28, 54), (387, 2, 28, 54), (388, 2, 28, 54), (389, 2, 28, 54), (390, 2, 28, 55),
     (391, 2, 28, 55), (392, 2, 28, 55), (393, 2, 28, 55), (394, 2, 28, 55), (395, 2, 28, 55), (396, 2, 28, 55),
     (397, 2, 28, 55), (398, 2, 28, 52), (399, 2, 28, 52), (400, 2, 28, 52), (401, 2, 28, 52), (402, 2, 28, 52),
     (403, 2, 28, 53), (404, 2, 28, 53), (405, 2, 28, 53), (406, 2, 28, 53), (407, 2, 28, 53), (408, 2, 28, 53),
     (409, 2, 28, 49), (410, 2, 28, 49), (411, 2, 28, 49), (412, 2, 28, 49), (413, 2, 28, 49), (414, 2, 28, 51),
     (415, 2, 28, 51), (416, 2, 28, 51), (417, 2, 28, 51), (418, 2, 28, 51), (419, 2, 28, 51), (420, 2, 28, 51),
     (421, 2, 28, 51), (422, 2, 28, 51), (423, 2, 10, 57), (424, 2, 10, 57), (425, 2, 10, 57), (426, 2, 10, 57),
     (427, 2, 10, 57), (428, 2, 10, 57), (429, 2, 10, 57), (430, 2, 10, 57), (431, 2, 10, 57), (432, 2, 10, 57),
     (433, 2, 10, 59), (434, 2, 10, 59), (435, 2, 10, 59), (436, 2, 10, 59), (437, 2, 10, 59), (438, 2, 10, 59),
     (439, 2, 10, 59), (440, 2, 10, 59), (441, 2, 10, 59), (442, 2, 10, 59), (443, 2, 10, 59), (444, 2, 10, 59),
     (445, 2, 10, 59), (446, 2, 10, 59), (447, 2, 10, 59), (448, 2, 10, 59), (449, 2, 10, 59), (450, 2, 10, 59),
     (451, 2, 10, 59), (452, 2, 10, 59), (453, 2, 10, 59), (454, 2, 10, 59), (455, 2, 10, 59), (456, 2, 10, 59)
   ]"

definition locationRows04 :: "(nat \<times> nat \<times> nat \<times> nat) list" where
  "locationRows04 = [
     (457, 2, 10, 59), (458, 2, 10, 59), (459, 2, 10, 59), (460, 2, 10, 59), (461, 2, 10, 59), (462, 2, 10, 59),
     (463, 2, 10, 59), (464, 2, 10, 60), (465, 2, 10, 60), (466, 2, 10, 60), (467, 2, 10, 60), (468, 2, 10, 60),
     (469, 2, 10, 60), (470, 2, 10, 60), (471, 2, 10, 60), (472, 2, 10, 60), (473, 2, 10, 60), (474, 2, 10, 60),
     (475, 2, 10, 60), (476, 2, 10, 58), (477, 2, 10, 58), (478, 2, 10, 58), (479, 2, 10, 58), (480, 2, 10, 58),
     (481, 2, 10, 58), (482, 2, 10, 58), (483, 2, 10, 58), (484, 2, 10, 58), (485, 2, 10, 58), (486, 2, 10, 58),
     (487, 2, 10, 58), (488, 2, 10, 58), (489, 2, 11, 66), (490, 2, 11, 66), (491, 2, 11, 66), (492, 2, 11, 66),
     (493, 2, 11, 66), (494, 2, 11, 66), (495, 2, 11, 66), (496, 2, 11, 66), (497, 2, 11, 66), (498, 2, 11, 66),
     (499, 2, 11, 66), (500, 2, 11, 66), (501, 2, 11, 66), (502, 2, 11, 66), (503, 2, 11, 61), (504, 2, 11, 61),
     (505, 2, 11, 61), (506, 2, 11, 61), (507, 2, 11, 61), (508, 2, 11, 61), (509, 2, 11, 61), (510, 2, 11, 61),
     (511, 2, 11, 61), (512, 2, 11, 61), (513, 2, 11, 64), (514, 2, 11, 64), (515, 2, 11, 64), (516, 2, 11, 64),
     (517, 2, 11, 64), (518, 2, 11, 64), (519, 2, 11, 64), (520, 2, 11, 64), (521, 2, 11, 64), (522, 2, 11, 64),
     (523, 2, 11, 62), (524, 2, 11, 62), (525, 2, 11, 62), (526, 2, 11, 62), (527, 2, 11, 62), (528, 2, 11, 62),
     (529, 2, 11, 62), (530, 2, 11, 62), (531, 2, 11, 62), (532, 2, 11, 62), (533, 2, 11, 62), (534, 2, 11, 62),
     (535, 2, 11, 62), (536, 2, 11, 63), (537, 2, 11, 63), (538, 2, 11, 63), (539, 2, 11, 63), (540, 2, 11, 65),
     (541, 2, 11, 65), (542, 2, 11, 65), (543, 2, 11, 65), (544, 2, 11, 65), (545, 2, 11, 65), (546, 2, 11, 65),
     (547, 2, 11, 65), (548, 2, 11, 65), (549, 2, 11, 65), (550, 2, 11, 65), (551, 2, 11, 65), (552, 2, 11, 65),
     (553, 2, 12, 147), (554, 2, 12, 147), (555, 2, 12, 147), (556, 2, 12, 147), (557, 2, 12, 147), (558, 2, 12, 147),
     (559, 2, 12, 147), (560, 2, 12, 147), (561, 2, 12, 149), (562, 2, 12, 149), (563, 2, 12, 149), (564, 3, 0, 0),
     (565, 2, 12, 149), (566, 2, 12, 149), (567, 2, 12, 149), (568, 2, 12, 149), (569, 2, 12, 149), (570, 2, 12, 149),
     (571, 2, 12, 149), (572, 2, 12, 149), (573, 2, 12, 149), (574, 2, 12, 149), (575, 2, 12, 149), (576, 2, 12, 149),
     (577, 2, 12, 149), (578, 2, 12, 145), (579, 2, 12, 145), (580, 2, 12, 145), (581, 2, 12, 145), (582, 2, 12, 145),
     (583, 2, 12, 145), (584, 2, 12, 145), (585, 2, 12, 145), (586, 2, 12, 145), (587, 2, 12, 145), (588, 2, 12, 145),
     (589, 2, 12, 145), (590, 2, 12, 145), (591, 2, 12, 145), (592, 2, 12, 145), (593, 2, 12, 146), (594, 2, 12, 146),
     (595, 2, 12, 146), (596, 2, 12, 146), (597, 2, 12, 146), (598, 2, 12, 146), (599, 2, 12, 146), (600, 2, 12, 146),
     (601, 2, 12, 146), (602, 2, 12, 146), (603, 2, 12, 146), (604, 2, 12, 148), (605, 2, 12, 148), (606, 2, 12, 148)
   ]"

definition locationRows05 :: "(nat \<times> nat \<times> nat \<times> nat) list" where
  "locationRows05 = [
     (607, 2, 12, 148), (608, 2, 12, 148), (609, 2, 12, 148), (610, 2, 12, 148), (611, 2, 12, 148), (612, 2, 12, 148),
     (613, 2, 12, 148), (614, 2, 12, 148), (615, 2, 12, 148), (616, 2, 12, 148), (617, 2, 12, 148), (618, 2, 12, 148),
     (619, 2, 12, 148), (620, 2, 13, 67), (621, 2, 13, 67), (622, 2, 13, 67), (623, 2, 13, 68), (624, 2, 13, 68),
     (625, 2, 13, 68), (626, 2, 13, 68), (627, 2, 13, 68), (628, 2, 13, 68), (629, 2, 13, 68), (630, 2, 13, 68),
     (631, 2, 13, 68), (632, 2, 13, 68), (633, 2, 13, 68), (634, 2, 13, 68), (635, 2, 13, 68), (636, 2, 13, 68),
     (637, 2, 13, 68), (638, 2, 13, 68), (639, 2, 13, 68), (640, 2, 13, 68), (641, 2, 13, 68), (642, 2, 13, 68),
     (643, 2, 13, 71), (644, 2, 13, 71), (645, 2, 13, 71), (646, 2, 13, 71), (647, 2, 13, 71), (648, 2, 13, 71),
     (649, 2, 13, 71), (650, 2, 13, 71), (651, 2, 13, 71), (652, 2, 13, 71), (653, 2, 13, 71), (654, 2, 13, 71),
     (655, 2, 13, 71), (656, 2, 13, 72), (657, 2, 13, 72), (658, 2, 13, 72), (659, 2, 13, 72), (660, 2, 13, 72),
     (661, 2, 13, 72), (662, 2, 13, 72), (663, 2, 13, 72), (664, 2, 13, 70), (665, 2, 13, 70), (666, 2, 13, 70),
     (667, 2, 13, 70), (668, 2, 13, 70), (669, 2, 13, 70), (670, 2, 13, 70), (671, 2, 13, 70), (672, 2, 13, 70),
     (673, 2, 13, 70), (674, 2, 13, 70), (675, 2, 13, 70), (676, 2, 13, 70), (677, 2, 13, 69), (678, 2, 13, 69),
     (679, 2, 13, 69), (680, 2, 13, 69), (681, 2, 13, 69), (682, 2, 14, 79), (683, 2, 14, 79), (684, 2, 14, 79),
     (685, 2, 14, 79), (686, 2, 14, 79), (687, 2, 14, 79), (688, 2, 14, 79), (689, 2, 14, 79), (690, 2, 14, 77),
     (691, 2, 14, 77), (692, 2, 14, 77), (693, 2, 14, 77), (694, 2, 14, 77), (695, 2, 14, 77), (696, 2, 14, 77),
     (697, 2, 14, 77), (698, 2, 14, 77), (699, 2, 14, 75), (700, 2, 14, 75), (701, 2, 14, 75), (702, 2, 14, 75),
     (703, 2, 14, 75), (704, 2, 14, 75), (705, 2, 14, 75), (706, 2, 14, 75), (707, 2, 14, 75), (708, 2, 14, 75),
     (709, 2, 14, 75), (710, 2, 14, 75), (711, 2, 14, 73), (712, 2, 14, 73), (713, 2, 14, 73), (714, 2, 14, 73),
     (715, 2, 14, 73), (716, 2, 14, 73), (717, 2, 14, 73), (718, 2, 14, 73), (719, 2, 14, 73), (720, 2, 14, 73),
     (721, 2, 14, 73), (722, 2, 14, 73), (723, 2, 14, 73), (724, 2, 14, 76), (725, 2, 14, 76), (726, 2, 14, 76),
     (727, 2, 14, 76), (728, 2, 14, 76), (729, 2, 14, 76), (730, 2, 14, 76), (731, 2, 14, 76), (732, 2, 14, 76),
     (733, 2, 14, 78), (734, 2, 14, 78), (735, 2, 14, 78), (736, 2, 14, 78), (737, 2, 14, 78), (738, 2, 14, 78),
     (739, 2, 14, 78), (740, 2, 14, 78), (741, 2, 14, 78), (742, 2, 14, 78), (743, 2, 14, 78), (744, 2, 14, 74),
     (745, 2, 14, 74), (746, 2, 14, 74), (747, 2, 14, 74), (748, 2, 14, 74), (749, 2, 14, 74), (750, 2, 14, 74),
     (751, 2, 15, 81), (752, 2, 15, 81), (753, 2, 15, 81), (754, 2, 15, 81), (755, 2, 15, 81), (756, 2, 15, 81)
   ]"

definition locationRows06 :: "(nat \<times> nat \<times> nat \<times> nat) list" where
  "locationRows06 = [
     (757, 2, 15, 81), (758, 2, 15, 81), (759, 2, 15, 81), (760, 2, 15, 81), (761, 2, 15, 81), (762, 2, 15, 81),
     (763, 2, 15, 81), (764, 2, 15, 81), (765, 2, 15, 81), (766, 2, 15, 81), (767, 2, 15, 81), (768, 2, 15, 82),
     (769, 2, 15, 82), (770, 2, 15, 82), (771, 2, 15, 82), (772, 2, 15, 82), (773, 2, 15, 82), (774, 2, 15, 82),
     (775, 2, 15, 82), (776, 2, 15, 82), (777, 2, 15, 82), (778, 2, 15, 80), (779, 2, 15, 80), (780, 2, 15, 80),
     (781, 2, 15, 80), (782, 2, 15, 80), (783, 2, 15, 80), (784, 2, 15, 80), (785, 2, 15, 80), (786, 2, 15, 80),
     (787, 2, 15, 83), (788, 2, 15, 83), (789, 2, 15, 83), (790, 2, 15, 83), (791, 2, 15, 83), (792, 2, 15, 83),
     (793, 2, 15, 83), (794, 2, 15, 83), (795, 2, 15, 83), (796, 2, 15, 83), (797, 2, 15, 83), (798, 2, 15, 83),
     (799, 2, 15, 83), (800, 2, 16, 86), (801, 2, 16, 86), (802, 2, 16, 86), (803, 2, 16, 86), (804, 2, 16, 86),
     (805, 2, 16, 86), (806, 2, 16, 86), (807, 2, 16, 86), (808, 2, 16, 85), (809, 2, 16, 85), (810, 2, 16, 85),
     (811, 2, 16, 85), (812, 2, 16, 85), (813, 2, 16, 85), (814, 2, 16, 85), (815, 2, 16, 84), (816, 2, 16, 84),
     (817, 2, 16, 84), (818, 2, 16, 84), (819, 2, 16, 84), (820, 2, 16, 84), (821, 2, 16, 87), (822, 2, 16, 87),
     (823, 2, 16, 87), (824, 2, 16, 87), (825, 2, 16, 87), (826, 2, 27, 92), (827, 2, 27, 92), (828, 2, 27, 92),
     (829, 2, 27, 92), (830, 2, 27, 92), (831, 2, 27, 92), (832, 2, 27, 92), (833, 2, 27, 90), (834, 2, 27, 90),
     (835, 2, 27, 90), (836, 2, 27, 90), (837, 2, 27, 90), (838, 2, 27, 90), (839, 2, 27, 90), (840, 2, 27, 90),
     (841, 2, 27, 90), (842, 2, 27, 90), (843, 2, 27, 90), (844, 2, 27, 90), (845, 2, 27, 90), (846, 2, 27, 90),
     (847, 2, 27, 90), (848, 2, 27, 90), (849, 2, 27, 90), (850, 2, 27, 90), (851, 2, 27, 90), (852, 2, 27, 90),
     (853, 2, 27, 90), (854, 2, 27, 90), (855, 2, 27, 90), (856, 2, 27, 88), (857, 2, 27, 88), (858, 2, 27, 88),
     (859, 2, 27, 88), (860, 2, 27, 88), (861, 2, 27, 88), (862, 2, 27, 88), (863, 2, 27, 88), (864, 2, 27, 88),
     (865, 2, 27, 88), (866, 2, 27, 88), (867, 2, 27, 91), (868, 2, 27, 91), (869, 2, 27, 91), (870, 2, 27, 91),
     (871, 2, 27, 91), (872, 2, 27, 94), (873, 2, 27, 94), (874, 2, 27, 94), (875, 2, 27, 94), (876, 2, 27, 94),
     (877, 2, 27, 94), (878, 2, 27, 94), (879, 2, 27, 89), (880, 2, 27, 89), (881, 2, 27, 89), (882, 2, 27, 89),
     (883, 2, 27, 89), (884, 2, 27, 89), (885, 2, 27, 89), (886, 2, 27, 89), (887, 2, 27, 89), (888, 2, 27, 89),
     (889, 2, 27, 89), (890, 2, 27, 89), (891, 2, 27, 89), (892, 2, 27, 89), (893, 2, 27, 93), (894, 2, 27, 93),
     (895, 2, 27, 93), (896, 2, 27, 93), (897, 2, 27, 93), (898, 2, 27, 93), (899, 2, 17, 97), (900, 2, 17, 97),
     (901, 2, 17, 97), (902, 2, 17, 97), (903, 2, 17, 97), (904, 2, 17, 97), (905, 2, 17, 97), (906, 2, 17, 97)
   ]"

definition locationRows07 :: "(nat \<times> nat \<times> nat \<times> nat) list" where
  "locationRows07 = [
     (907, 2, 17, 96), (908, 2, 17, 96), (909, 2, 17, 96), (910, 2, 17, 96), (911, 2, 17, 96), (912, 2, 17, 96),
     (913, 2, 17, 96), (914, 2, 17, 96), (915, 2, 17, 96), (916, 2, 17, 96), (917, 2, 17, 96), (918, 2, 17, 96),
     (919, 2, 17, 98), (920, 2, 17, 98), (921, 2, 17, 98), (922, 2, 17, 98), (923, 2, 17, 98), (924, 2, 17, 98),
     (925, 2, 17, 98), (926, 2, 17, 98), (927, 2, 17, 98), (928, 2, 17, 98), (929, 2, 17, 98), (930, 2, 17, 98),
     (931, 2, 17, 98), (932, 2, 17, 98), (933, 2, 17, 98), (934, 2, 17, 98), (935, 2, 17, 98), (936, 2, 17, 98),
     (937, 2, 17, 98), (938, 2, 17, 95), (939, 2, 17, 95), (940, 2, 17, 95), (941, 2, 17, 95), (942, 2, 17, 95),
     (943, 2, 17, 95), (944, 2, 17, 95), (945, 2, 17, 95), (946, 2, 17, 95), (947, 2, 17, 95), (948, 2, 17, 95),
     (949, 2, 17, 95), (950, 2, 17, 95), (951, 2, 18, 104), (952, 2, 18, 104), (953, 2, 18, 104), (954, 2, 18, 104),
     (955, 2, 18, 104), (956, 2, 18, 104), (957, 2, 18, 104), (958, 2, 18, 104), (959, 2, 18, 104), (960, 2, 18, 104),
     (961, 2, 18, 104), (962, 2, 18, 104), (963, 2, 18, 104), (964, 2, 18, 104), (965, 2, 18, 104), (966, 2, 18, 104),
     (967, 2, 18, 104), (968, 2, 18, 104), (969, 2, 18, 104), (970, 2, 18, 104), (971, 2, 18, 104), (972, 2, 18, 104),
     (973, 2, 18, 99), (974, 2, 18, 99), (975, 2, 18, 99), (976, 2, 18, 99), (977, 2, 18, 99), (978, 2, 18, 99),
     (979, 2, 18, 99), (980, 2, 18, 99), (981, 2, 18, 99), (982, 2, 18, 99), (983, 2, 18, 99), (984, 2, 18, 99),
     (985, 2, 18, 100), (986, 2, 18, 100), (987, 2, 18, 100), (988, 2, 18, 100), (989, 2, 18, 100), (990, 2, 18, 100),
     (991, 2, 18, 100), (992, 2, 18, 100), (993, 2, 18, 100), (994, 2, 18, 100), (995, 2, 18, 100), (996, 2, 18, 100),
     (997, 2, 18, 100), (998, 2, 18, 100), (999, 2, 18, 100), (1000, 2, 18, 100), (1001, 2, 18, 105), (1002, 2, 18, 105),
     (1003, 2, 18, 105), (1004, 2, 18, 105), (1005, 2, 18, 105), (1006, 2, 18, 105), (1007, 2, 18, 105), (1008, 2, 18, 105),
     (1009, 2, 18, 105), (1010, 2, 18, 105), (1011, 2, 18, 102), (1012, 2, 18, 102), (1013, 2, 18, 102), (1014, 2, 18, 102),
     (1015, 2, 18, 102), (1016, 2, 18, 102), (1017, 2, 18, 102), (1018, 2, 18, 102), (1019, 2, 18, 102), (1020, 2, 18, 102),
     (1021, 2, 18, 102), (1022, 2, 18, 102), (1023, 2, 18, 102), (1024, 2, 18, 102), (1025, 2, 18, 102), (1026, 2, 18, 102),
     (1027, 2, 18, 103), (1028, 2, 18, 103), (1029, 2, 18, 103), (1030, 2, 18, 103), (1031, 2, 18, 103), (1032, 2, 18, 103),
     (1033, 2, 18, 103), (1034, 2, 18, 103), (1035, 2, 18, 103), (1036, 2, 18, 101), (1037, 2, 18, 101), (1038, 2, 18, 101),
     (1039, 2, 18, 101), (1040, 2, 18, 101), (1041, 2, 18, 101), (1042, 2, 19, 109), (1043, 2, 19, 109), (1044, 2, 19, 109),
     (1045, 2, 19, 109), (1046, 2, 19, 109), (1047, 2, 19, 109), (1048, 2, 19, 109), (1049, 2, 19, 109), (1050, 2, 19, 109),
     (1051, 2, 19, 109), (1052, 2, 19, 109), (1053, 2, 19, 109), (1054, 2, 19, 109), (1055, 2, 19, 109), (1056, 2, 19, 109)
   ]"

definition locationRows08 :: "(nat \<times> nat \<times> nat \<times> nat) list" where
  "locationRows08 = [
     (1057, 2, 19, 109), (1058, 2, 19, 109), (1059, 2, 19, 109), (1060, 2, 19, 109), (1061, 2, 19, 109), (1062, 2, 19, 109),
     (1063, 2, 19, 109), (1064, 2, 19, 109), (1065, 2, 19, 109), (1066, 2, 19, 108), (1067, 2, 19, 108), (1068, 2, 19, 108),
     (1069, 2, 19, 108), (1070, 2, 19, 108), (1071, 2, 19, 108), (1072, 2, 19, 108), (1073, 2, 19, 108), (1074, 2, 19, 108),
     (1075, 2, 19, 108), (1076, 2, 19, 108), (1077, 2, 19, 108), (1078, 2, 19, 108), (1079, 2, 19, 108), (1080, 2, 19, 108),
     (1081, 2, 19, 108), (1082, 2, 19, 108), (1083, 2, 19, 107), (1084, 2, 19, 107), (1085, 2, 19, 107), (1086, 2, 19, 107),
     (1087, 2, 19, 107), (1088, 2, 19, 107), (1089, 2, 19, 107), (1090, 2, 19, 107), (1091, 2, 19, 107), (1092, 2, 19, 107),
     (1093, 2, 19, 107), (1094, 2, 19, 107), (1095, 2, 19, 106), (1096, 2, 19, 106), (1097, 2, 19, 106), (1098, 2, 19, 106),
     (1099, 2, 19, 106), (1100, 2, 19, 106), (1101, 2, 19, 106), (1102, 2, 5, 110), (1103, 2, 5, 110), (1104, 2, 5, 110),
     (1105, 2, 5, 110), (1106, 2, 5, 110), (1107, 2, 5, 110), (1108, 2, 5, 110), (1109, 2, 5, 110), (1110, 2, 5, 112),
     (1111, 2, 5, 112), (1112, 2, 5, 112), (1113, 2, 5, 112), (1114, 2, 5, 112), (1115, 2, 5, 112), (1116, 2, 5, 112),
     (1117, 2, 5, 112), (1118, 2, 5, 112), (1119, 2, 5, 112), (1120, 2, 5, 112), (1121, 2, 5, 112), (1122, 2, 5, 112),
     (1123, 2, 5, 112), (1124, 2, 5, 112), (1125, 2, 5, 112), (1126, 2, 5, 112), (1127, 2, 5, 112), (1128, 2, 5, 112),
     (1129, 2, 5, 112), (1130, 2, 5, 112), (1131, 2, 5, 112), (1132, 2, 5, 112), (1133, 2, 5, 112), (1134, 2, 5, 112),
     (1135, 2, 5, 112), (1136, 2, 5, 113), (1137, 2, 5, 113), (1138, 2, 5, 113), (1139, 2, 5, 113), (1140, 2, 5, 113),
     (1141, 2, 5, 113), (1142, 2, 5, 113), (1143, 2, 5, 113), (1144, 2, 5, 113), (1145, 2, 5, 113), (1146, 2, 5, 113),
     (1147, 2, 5, 111), (1148, 2, 5, 111), (1149, 2, 5, 111), (1150, 2, 5, 111), (1151, 2, 5, 111), (1152, 2, 5, 111),
     (1153, 2, 5, 111), (1154, 2, 5, 111), (1155, 2, 5, 111), (1156, 2, 5, 111), (1157, 2, 5, 111), (1158, 2, 5, 111),
     (1159, 2, 5, 111), (1160, 2, 5, 111), (1161, 2, 5, 111), (1162, 2, 5, 111), (1163, 2, 5, 111), (1164, 2, 5, 111),
     (1165, 2, 5, 111), (1166, 2, 20, 116), (1167, 2, 20, 116), (1168, 2, 20, 116), (1169, 2, 20, 116), (1170, 2, 20, 116),
     (1171, 2, 20, 116), (1172, 2, 20, 116), (1173, 2, 20, 116), (1174, 2, 20, 114), (1175, 2, 20, 114), (1176, 2, 20, 114),
     (1177, 2, 20, 114), (1178, 2, 20, 114), (1179, 2, 20, 114), (1180, 2, 20, 114), (1182, 2, 20, 114), (1183, 2, 20, 114),
     (1184, 2, 20, 114), (1185, 2, 20, 114), (1186, 2, 20, 114), (1187, 2, 20, 114), (1188, 2, 20, 114), (1189, 2, 20, 114),
     (1190, 2, 20, 115), (1191, 2, 20, 115), (1192, 2, 20, 115), (1193, 2, 20, 115), (1194, 2, 20, 115), (1195, 2, 20, 115),
     (1196, 2, 20, 115), (1197, 2, 20, 115), (1198, 2, 20, 115), (1199, 2, 20, 115), (1200, 2, 20, 118), (1201, 2, 20, 118),
     (1202, 2, 20, 118), (1203, 2, 20, 118), (1204, 2, 20, 118), (1205, 2, 20, 118), (1206, 2, 20, 118), (1207, 2, 20, 118)
   ]"

definition locationRows09 :: "(nat \<times> nat \<times> nat \<times> nat) list" where
  "locationRows09 = [
     (1208, 2, 20, 118), (1209, 2, 20, 117), (1210, 2, 20, 117), (1211, 2, 20, 117), (1212, 2, 20, 117), (1213, 2, 20, 117),
     (1214, 2, 20, 117), (1215, 2, 20, 117), (1216, 2, 20, 117), (1217, 2, 21, 119), (1218, 2, 21, 119), (1219, 2, 21, 119),
     (1220, 2, 21, 119), (1221, 2, 21, 119), (1222, 2, 21, 119), (1223, 2, 21, 119), (1224, 2, 21, 119), (1225, 2, 21, 119),
     (1226, 2, 21, 119), (1227, 2, 21, 119), (1228, 2, 21, 119), (1229, 2, 21, 119), (1230, 2, 21, 119), (1231, 2, 21, 119),
     (1232, 2, 21, 119), (1233, 2, 21, 119), (1234, 2, 21, 119), (1235, 2, 21, 119), (1236, 2, 21, 119), (1237, 2, 21, 119),
     (1238, 2, 21, 119), (1239, 2, 21, 119), (1240, 2, 21, 119), (1241, 2, 21, 119), (1242, 2, 21, 121), (1243, 2, 21, 121),
     (1244, 2, 21, 121), (1245, 2, 21, 121), (1246, 2, 21, 121), (1247, 2, 21, 121), (1248, 2, 21, 121), (1249, 2, 21, 121),
     (1250, 2, 21, 121), (1251, 2, 21, 121), (1252, 2, 21, 121), (1253, 2, 21, 121), (1254, 2, 21, 121), (1255, 2, 21, 121),
     (1256, 2, 21, 121), (1257, 2, 21, 121), (1258, 2, 21, 121), (1259, 2, 21, 121), (1260, 2, 21, 121), (1261, 2, 21, 121),
     (1262, 2, 21, 121), (1263, 2, 21, 121), (1264, 2, 21, 120), (1265, 2, 21, 120), (1266, 2, 21, 120), (1267, 2, 21, 120),
     (1268, 2, 21, 120), (1269, 2, 21, 120), (1270, 2, 21, 120), (1271, 2, 21, 120), (1272, 2, 22, 125), (1273, 2, 22, 125),
     (1274, 2, 22, 125), (1275, 2, 22, 125), (1276, 2, 22, 125), (1277, 2, 22, 125), (1278, 2, 22, 125), (1279, 2, 22, 125),
     (1280, 2, 22, 124), (1281, 2, 22, 124), (1282, 2, 22, 124), (1283, 2, 22, 124), (1284, 2, 22, 124), (1285, 2, 22, 124),
     (1286, 2, 22, 124), (1287, 2, 22, 124), (1288, 2, 22, 124), (1289, 2, 22, 124), (1290, 2, 22, 124), (1291, 2, 22, 124),
     (1292, 2, 22, 124), (1293, 3, 0, 0), (1294, 2, 22, 124), (1295, 2, 22, 128), (1296, 2, 22, 128), (1297, 2, 22, 128),
     (1298, 2, 22, 128), (1299, 2, 22, 128), (1300, 2, 22, 126), (1301, 2, 22, 126), (1302, 2, 22, 126), (1303, 2, 22, 126),
     (1304, 2, 22, 126), (1305, 2, 22, 123), (1306, 2, 22, 123), (1307, 2, 22, 123), (1308, 2, 22, 123), (1309, 2, 22, 123),
     (1310, 2, 22, 123), (1311, 2, 22, 123), (1312, 2, 22, 123), (1313, 2, 22, 122), (1314, 2, 22, 122), (1315, 2, 22, 122),
     (1316, 2, 22, 122), (1317, 2, 22, 122), (1318, 2, 22, 122), (1319, 2, 22, 122), (1320, 2, 22, 122), (1321, 2, 22, 122),
     (1322, 2, 22, 127), (1323, 2, 22, 127), (1324, 2, 22, 127), (1325, 2, 22, 127), (1326, 2, 22, 127), (1327, 2, 22, 127),
     (1328, 2, 23, 131), (1329, 2, 23, 131), (1330, 2, 23, 131), (1331, 2, 23, 131), (1332, 2, 23, 131), (1333, 2, 23, 131),
     (1334, 2, 23, 131), (1335, 2, 23, 131), (1336, 2, 23, 131), (1337, 2, 23, 131), (1338, 2, 23, 131), (1339, 2, 23, 131),
     (1340, 2, 23, 131), (1341, 2, 23, 131), (1342, 2, 23, 131), (1343, 2, 23, 129), (1344, 2, 23, 129), (1345, 2, 23, 129),
     (1346, 2, 23, 129), (1347, 2, 23, 129), (1348, 2, 23, 129), (1349, 2, 23, 129), (1350, 2, 23, 129), (1351, 2, 23, 129),
     (1352, 2, 23, 129), (1353, 2, 23, 129), (1354, 2, 23, 130), (1355, 2, 23, 130), (1356, 2, 23, 130), (1357, 2, 23, 130)
   ]"

definition locationRows10 :: "(nat \<times> nat \<times> nat \<times> nat) list" where
  "locationRows10 = [
     (1358, 2, 23, 130), (1359, 2, 23, 130), (1360, 2, 23, 130), (1361, 2, 23, 130), (1362, 2, 23, 130), (1363, 2, 23, 132),
     (1364, 2, 23, 132), (1365, 2, 23, 132), (1366, 2, 23, 132), (1367, 2, 23, 132), (1368, 2, 23, 132), (1369, 2, 23, 132),
     (1370, 2, 23, 132), (1371, 2, 23, 132), (1372, 2, 23, 132), (1373, 2, 23, 133), (1374, 2, 23, 133), (1375, 2, 23, 133),
     (1376, 2, 23, 133), (1377, 2, 3, 134), (1378, 2, 3, 134), (1379, 2, 3, 134), (1380, 2, 3, 134), (1381, 2, 3, 134),
     (1382, 2, 3, 134), (1383, 2, 3, 134), (1384, 2, 3, 134), (1385, 2, 3, 134), (1386, 2, 3, 134), (1387, 2, 3, 134),
     (1388, 2, 3, 134), (1389, 2, 3, 134), (1390, 2, 3, 134), (1391, 2, 3, 134), (1392, 2, 3, 134), (1393, 2, 3, 134),
     (1394, 2, 3, 134), (1395, 2, 3, 134), (1396, 2, 3, 134), (1397, 2, 3, 134), (1398, 2, 3, 134), (1399, 2, 3, 134),
     (1400, 2, 3, 134), (1401, 2, 3, 134), (1402, 2, 3, 134), (1403, 2, 3, 134), (1404, 2, 3, 136), (1405, 2, 3, 136),
     (1406, 2, 3, 136), (1407, 2, 3, 136), (1408, 2, 3, 136), (1409, 2, 3, 136), (1410, 2, 3, 136), (1411, 2, 3, 136),
     (1412, 2, 3, 136), (1413, 2, 3, 136), (1414, 2, 3, 136), (1415, 2, 3, 136), (1416, 2, 3, 136), (1417, 2, 3, 136),
     (1418, 2, 3, 136), (1419, 2, 3, 136), (1420, 2, 3, 136), (1421, 2, 3, 136), (1422, 2, 3, 135), (1423, 2, 3, 135),
     (1424, 2, 3, 135), (1425, 2, 3, 135), (1426, 2, 3, 135), (1427, 2, 3, 135), (1428, 2, 3, 135), (1429, 2, 3, 135),
     (1430, 2, 3, 135), (1431, 2, 3, 135), (1432, 2, 3, 135), (1433, 2, 3, 135), (1434, 2, 3, 135), (1435, 2, 3, 135),
     (1436, 2, 3, 135), (1437, 2, 24, 151), (1438, 2, 24, 151), (1439, 2, 24, 151), (1440, 2, 24, 151), (1441, 2, 24, 151),
     (1442, 2, 24, 151), (1443, 2, 24, 151), (1444, 2, 24, 151), (1445, 2, 24, 151), (1446, 2, 24, 151), (1447, 2, 24, 151),
     (1448, 2, 24, 151), (1449, 2, 24, 152), (1450, 2, 24, 152), (1451, 2, 24, 152), (1452, 2, 24, 152), (1453, 2, 24, 152),
     (1454, 2, 24, 152), (1455, 2, 24, 152), (1456, 2, 24, 152), (1457, 2, 24, 152), (1458, 2, 24, 152), (1459, 2, 24, 152),
     (1460, 2, 24, 152), (1461, 2, 24, 152), (1462, 2, 24, 152), (1463, 2, 24, 152), (1464, 2, 24, 152), (1465, 2, 24, 152),
     (1466, 2, 24, 152), (1467, 2, 24, 152), (1468, 2, 24, 152), (1469, 2, 24, 152), (1470, 2, 24, 152), (1471, 2, 24, 152),
     (1472, 2, 24, 152), (1473, 2, 24, 152), (1474, 2, 24, 152), (1475, 2, 24, 150), (1476, 2, 24, 150), (1477, 2, 24, 150),
     (1478, 2, 24, 150), (1479, 2, 24, 150), (1480, 2, 24, 150), (1481, 2, 24, 150), (1482, 2, 24, 150), (1483, 2, 24, 150),
     (1484, 2, 24, 150), (1485, 2, 24, 150), (1486, 2, 24, 150), (1487, 2, 24, 150), (1488, 2, 24, 150), (1489, 2, 24, 150),
     (1490, 2, 24, 150), (1491, 2, 24, 150), (1492, 2, 24, 153), (1493, 2, 24, 153), (1494, 2, 24, 153), (1495, 2, 24, 153),
     (1496, 2, 24, 153), (1497, 2, 24, 153), (1498, 2, 24, 153), (1499, 2, 24, 153), (1500, 2, 24, 153), (1501, 2, 24, 153),
     (1502, 2, 24, 153), (1503, 2, 26, 138), (1504, 2, 26, 138), (1505, 2, 26, 138), (1506, 2, 26, 138), (1507, 2, 26, 138)
   ]"

definition locationRows11 :: "(nat \<times> nat \<times> nat \<times> nat) list" where
  "locationRows11 = [
     (1508, 2, 26, 138), (1509, 2, 26, 138), (1510, 2, 26, 138), (1511, 2, 26, 138), (1512, 2, 26, 137), (1513, 2, 26, 137),
     (1514, 2, 26, 137), (1515, 2, 26, 137), (1516, 2, 26, 137), (1517, 2, 26, 137), (1518, 2, 26, 137), (1519, 2, 26, 137),
     (1520, 2, 26, 137), (1521, 2, 26, 137), (1522, 2, 26, 137), (1523, 2, 26, 137), (1524, 2, 26, 137), (1525, 2, 26, 137),
     (1526, 2, 26, 137), (1527, 2, 26, 137), (1528, 2, 26, 137), (1529, 2, 26, 137), (1530, 2, 26, 137), (1531, 2, 26, 137),
     (1532, 2, 26, 137), (1533, 2, 26, 137), (1534, 2, 26, 137), (1535, 2, 26, 137), (1536, 2, 26, 137), (1537, 2, 26, 137),
     (1538, 2, 26, 137), (1539, 2, 26, 137), (1540, 2, 26, 137), (1541, 2, 26, 137), (1542, 2, 26, 137), (1543, 2, 26, 137),
     (1544, 2, 26, 137), (1545, 2, 26, 139), (1546, 2, 26, 139), (1547, 2, 26, 139), (1548, 2, 26, 139), (1549, 2, 26, 139),
     (1550, 2, 26, 139), (1551, 2, 26, 139), (1552, 2, 26, 139), (1553, 2, 26, 139), (1554, 2, 26, 139), (1555, 2, 25, 142),
     (1556, 2, 25, 142), (1557, 2, 25, 142), (1558, 2, 25, 142), (1559, 2, 25, 142), (1560, 2, 25, 142), (1561, 2, 25, 142),
     (1562, 2, 25, 142), (1563, 2, 25, 142), (1564, 2, 25, 142), (1565, 2, 25, 142), (1566, 2, 25, 142), (1567, 2, 25, 142),
     (1568, 2, 25, 142), (1569, 2, 25, 142), (1570, 2, 25, 142), (1571, 2, 25, 142), (1572, 2, 25, 140), (1573, 2, 25, 140),
     (1574, 2, 25, 140), (1575, 2, 25, 140), (1576, 2, 25, 140), (1577, 2, 25, 140), (1578, 2, 25, 140), (1579, 2, 25, 140),
     (1580, 2, 25, 140), (1581, 2, 25, 140), (1582, 2, 25, 140), (1583, 2, 25, 140), (1584, 2, 25, 140), (1585, 2, 25, 140),
     (1586, 2, 25, 140), (1587, 2, 25, 140), (1588, 2, 25, 140), (1589, 2, 25, 140), (1590, 2, 25, 140), (1591, 2, 25, 140),
     (1592, 2, 25, 143), (1593, 2, 25, 143), (1594, 2, 25, 143), (1595, 2, 25, 143), (1596, 2, 25, 143), (1597, 2, 25, 143),
     (1598, 2, 25, 143), (1599, 2, 25, 143), (1600, 2, 25, 143), (1601, 2, 25, 143), (1602, 2, 25, 143), (1603, 2, 25, 141),
     (1604, 2, 25, 141), (1605, 2, 25, 141), (1606, 2, 25, 141), (1607, 2, 25, 144), (1608, 2, 25, 144), (1609, 2, 25, 144),
     (1610, 2, 25, 144), (1611, 2, 25, 144), (9999, 0, 0, 0)
   ]"

definition locationRows :: "(nat \<times> nat \<times> nat \<times> nat) list" where
  "locationRows = locationRows01 @ locationRows02 @ locationRows03 @ locationRows04 @ locationRows05 @ locationRows06 @
     locationRows07 @ locationRows08 @ locationRows09 @ locationRows10 @ locationRows11"

definition toRow :: "nat \<times> nat \<times> nat \<times> nat \<Rightarrow> LocationRow" where
  "toRow r = (case r of (uid, ty, oblast, raion) \<Rightarrow>
     \<lparr>row_uid = of_nat uid, row_type = of_nat ty, row_oblastUid = of_nat oblast, row_raionUid = of_nat raion\<rparr>)"

definition kLocationTable :: "LocationRow list" where
  "kLocationTable = map toRow locationRows"

lemmas locationRows_defs = locationRows_def locationRows01_def locationRows02_def locationRows03_def locationRows04_def locationRows05_def locationRows06_def locationRows07_def locationRows08_def locationRows09_def locationRows10_def locationRows11_def

end
