(* ===== verification/LocationCatalog.thy ===== *)
theory LocationCatalog
  imports LocationMatcher LocationTable
begin

text \<open>
  \<open>src/alerts/LocationCatalog.h\<close>: the catalogue as a binary search over the generated table.
\<close>

function lowerBound :: "LocationRow list \<Rightarrow> u16 \<Rightarrow> nat \<Rightarrow> nat \<Rightarrow> nat" where
  "lowerBound table uid lo hi =
     (if lo < hi
      then let mid = (lo + hi) div 2 in
        if row_uid (table ! mid) < uid then lowerBound table uid (mid + 1) hi
        else lowerBound table uid lo mid
      else lo)"
  by pat_completeness auto
termination
  by (relation "measure (\<lambda>(table, uid, lo, hi). hi - lo)") auto

declare lowerBound.simps [simp del]

text \<open>\<open>static_cast<LocationType>(r.type)\<close>; the generator writes 0 to 3 only.\<close>

definition toLocationType :: "u8 \<Rightarrow> LocationType" where
  "toLocationType n = (if n = 0 then Oblast else if n = 1 then Raion else if n = 2 then Hromada
     else if n = 3 then City else UnknownLoc)"

definition rowLocation :: "LocationRow \<Rightarrow> Location" where
  "rowLocation r = \<lparr>loc_uid = row_uid r, loc_type = toLocationType (row_type r),
     loc_oblastUid = row_oblastUid r, loc_raionUid = row_raionUid r\<rparr>"

definition findByUid :: "LocationRow list \<Rightarrow> Catalog" where
  "findByUid table uid =
     (let lo = lowerBound table uid 0 (length table) in
      if lo \<ge> length table then None
      else let r = table ! lo in
        if row_uid r \<noteq> uid then None else Some (rowLocation r))"

definition sortedTable :: "LocationRow list \<Rightarrow> bool" where
  "sortedTable table \<longleftrightarrow> sorted_wrt (<) (map row_uid table)"

lemma sortedTable_less:
  "sortedTable table \<Longrightarrow> i < j \<Longrightarrow> j < length table \<Longrightarrow> row_uid (table ! i) < row_uid (table ! j)"
  by (simp add: sortedTable_def sorted_wrt_iff_nth_less)

lemma lowerBound_spec:
  assumes "sortedTable table" and "hi \<le> length table" and "lo \<le> hi"
    and "\<forall>i < lo. row_uid (table ! i) < uid" and "\<forall>i. hi \<le> i \<and> i < length table \<longrightarrow> uid \<le> row_uid (table ! i)"
  shows "(\<forall>i < lowerBound table uid lo hi. row_uid (table ! i) < uid) \<and>
    (\<forall>i. lowerBound table uid lo hi \<le> i \<and> i < length table \<longrightarrow> uid \<le> row_uid (table ! i))"
  using assms
proof (induction table uid lo hi rule: lowerBound.induct)
  case (1 table uid lo hi)
  define mid where "mid = (lo + hi) div 2"
  show ?case
  proof (cases "lo < hi")
    case False
    then have "lowerBound table uid lo hi = lo" by (subst lowerBound.simps) simp
    moreover have "hi = lo" using False "1.prems"(3) by simp
    ultimately show ?thesis using "1.prems"(4,5) by simp
  next
    case True
    then have mid: "lo \<le> mid" "mid < hi" by (auto simp: mid_def)
    then have mid_len: "mid < length table" using "1.prems" by simp
    show ?thesis
    proof (cases "row_uid (table ! mid) < uid")
      case less: True
      have "\<forall>i < mid + 1. row_uid (table ! i) < uid"
        using less sortedTable_less [OF "1.prems"(1) _ mid_len] by (auto simp: less_Suc_eq intro: less_trans)
      moreover have "lowerBound table uid lo hi = lowerBound table uid (mid + 1) hi"
        using True less by (subst lowerBound.simps) (simp add: mid_def [symmetric] Let_def)
      ultimately show ?thesis
        using "1.IH"(1) [OF True mid_def less "1.prems"(1,2) _ _ "1.prems"(5)] mid(2) by auto
    next
      case False
      have "uid \<le> row_uid (table ! i)" if "mid \<le> i" "i < length table" for i
      proof (cases "i = mid")
        case True
        then show ?thesis using False by simp
      next
        case greater: False
        then have "row_uid (table ! mid) < row_uid (table ! i)"
          using sortedTable_less [OF "1.prems"(1), of mid i] that by simp
        then show ?thesis using False by simp
      qed
      then have above: "\<forall>i. mid \<le> i \<and> i < length table \<longrightarrow> uid \<le> row_uid (table ! i)" by blast
      have "lowerBound table uid lo hi = lowerBound table uid lo mid"
        using True False by (subst lowerBound.simps) (simp add: mid_def [symmetric] Let_def)
      then show ?thesis
        using "1.IH"(2) [OF True mid_def False "1.prems"(1) _ mid(1) "1.prems"(4) above] mid_len by simp
    qed
  qed
qed

text \<open>The binary search finds what a linear search finds.\<close>

lemma findByUid_iff:
  assumes "sortedTable table"
  shows "findByUid table uid = Some l \<longleftrightarrow> (\<exists>r \<in> set table. row_uid r = uid \<and> rowLocation r = l)"
proof -
  define lo where "lo = lowerBound table uid 0 (length table)"
  have beyond: "\<forall>i. length table \<le> i \<and> i < length table \<longrightarrow> uid \<le> row_uid (table ! i)" by auto
  have below: "\<And>i. i < lo \<Longrightarrow> row_uid (table ! i) < uid"
    and above: "\<And>i. lo \<le> i \<Longrightarrow> i < length table \<Longrightarrow> uid \<le> row_uid (table ! i)"
    using lowerBound_spec [OF assms order_refl _ _ beyond] by (auto simp: lo_def)
  have hit: "i = lo" if "i < length table" "row_uid (table ! i) = uid" for i
  proof (rule ccontr)
    assume "i \<noteq> lo"
    then consider "i < lo" | "lo < i" by linarith
    then show False
      using below that above [of lo] sortedTable_less [OF assms, of lo i] by cases auto
  qed
  show ?thesis
  proof
    assume "findByUid table uid = Some l"
    then have "lo < length table" "row_uid (table ! lo) = uid" "rowLocation (table ! lo) = l"
      by (auto simp: findByUid_def lo_def [symmetric] Let_def split: if_splits)
    then show "\<exists>r \<in> set table. row_uid r = uid \<and> rowLocation r = l" using nth_mem by blast
  next
    assume "\<exists>r \<in> set table. row_uid r = uid \<and> rowLocation r = l"
    then obtain i where "i < length table" "row_uid (table ! i) = uid" "rowLocation (table ! i) = l"
      by (auto simp: in_set_conv_nth)
    with hit [of i] show "findByUid table uid = Some l"
      by (simp add: findByUid_def lo_def [symmetric] Let_def)
  qed
qed

subsection \<open>The shipped table\<close>

text \<open>
  What the firmware relies on and the generator is trusted for, checked here row by row:
  uids ascend strictly (the binary search needs it), every oblast a row names is a row of
  type \<open>Oblast\<close>, every raion a row of type \<open>Raion\<close> of the same oblast, oblasts have no parents
  and raions no raion. Neighbouring rows mostly agree in all but the uid, so only changes
  are looked up.
\<close>

fun ascending :: "nat \<Rightarrow> nat list \<Rightarrow> bool" where
  "ascending a [] = True"
| "ascending a (x # xs) = (a < x \<and> ascending x xs)"

definition oblastUids :: "nat list" where
  "oblastUids = [
     3, 4, 5, 8, 9, 10, 11, 12, 13, 14, 15, 16, 17, 18, 19, 20,
     21, 22, 23, 24, 25, 26, 27, 28, 9999]"

definition raionUids :: "(nat \<times> nat) list" where
  "raionUids = [
     (32, 4), (33, 4), (34, 4), (35, 4), (36, 4), (37, 4), (38, 8), (39, 8), (40, 8), (41, 8),
     (42, 9), (43, 9), (44, 9), (45, 9), (46, 9), (47, 9), (48, 9), (49, 28), (50, 28), (51, 28),
     (52, 28), (53, 28), (54, 28), (55, 28), (56, 28), (57, 10), (58, 10), (59, 10), (60, 10), (61, 11),
     (62, 11), (63, 11), (64, 11), (65, 11), (66, 11), (67, 13), (68, 13), (69, 13), (70, 13), (71, 13),
     (72, 13), (73, 14), (74, 14), (75, 14), (76, 14), (77, 14), (78, 14), (79, 14), (80, 15), (81, 15),
     (82, 15), (83, 15), (84, 16), (85, 16), (86, 16), (87, 16), (88, 27), (89, 27), (90, 27), (91, 27),
     (92, 27), (93, 27), (94, 27), (95, 17), (96, 17), (97, 17), (98, 17), (99, 18), (100, 18), (101, 18),
     (102, 18), (103, 18), (104, 18), (105, 18), (106, 19), (107, 19), (108, 19), (109, 19), (110, 5), (111, 5),
     (112, 5), (113, 5), (114, 20), (115, 20), (116, 20), (117, 20), (118, 20), (119, 21), (120, 21), (121, 21),
     (122, 22), (123, 22), (124, 22), (125, 22), (126, 22), (127, 22), (128, 22), (129, 23), (130, 23), (131, 23),
     (132, 23), (133, 23), (134, 3), (135, 3), (136, 3), (137, 26), (138, 26), (139, 26), (140, 25), (141, 25),
     (142, 25), (143, 25), (144, 25), (145, 12), (146, 12), (147, 12), (148, 12), (149, 12), (150, 24), (151, 24),
     (152, 24), (153, 24)]"

definition kindOk :: "nat \<times> nat \<times> nat \<Rightarrow> bool" where
  "kindOk k = (case k of (ty, oblast, raion) \<Rightarrow> ty < 4 \<and>
     (oblast = 0 \<or> oblast \<in> set oblastUids) \<and> (raion = 0 \<or> (raion, oblast) \<in> set raionUids) \<and>
     (ty = 0 \<longrightarrow> oblast = 0 \<and> raion = 0) \<and> (ty = 1 \<longrightarrow> raion = 0))"

fun rowsOk :: "nat \<times> nat \<times> nat \<Rightarrow> (nat \<times> nat \<times> nat \<times> nat) list \<Rightarrow> bool" where
  "rowsOk cur [] = True"
| "rowsOk cur ((uid, k) # rows) = (if k = cur then rowsOk cur rows else kindOk k \<and> rowsOk k rows)"

lemma rowsOk_kindOk: "rowsOk cur rows \<Longrightarrow> kindOk cur \<Longrightarrow> \<forall>r \<in> set rows. kindOk (snd r)"
  by (induction cur rows rule: rowsOk.induct) (auto split: if_splits)

lemma ascending_sorted: "ascending a xs \<Longrightarrow> (\<forall>x \<in> set xs. a < x) \<and> sorted_wrt (<) xs"
  by (induction a xs rule: ascending.induct) auto

lemma ascending_append:
  "ascending a (xs @ ys) \<longleftrightarrow> ascending a xs \<and> ascending (last (a # xs)) ys"
  by (induction a xs rule: ascending.induct) auto

lemma ascending_locationRows01: "ascending 0 (map fst locationRows01) \<and> last (0 # map fst locationRows01) = 156"
  by (simp add: locationRows01_def)

lemma rowsOk_locationRows01: "rowsOk (0, 0, 0) locationRows01"
  by (simp add: locationRows01_def kindOk_def oblastUids_def raionUids_def)

lemma ascending_locationRows02: "ascending 156 (map fst locationRows02) \<and> last (156 # map fst locationRows02) = 306"
  by (simp add: locationRows02_def)

lemma rowsOk_locationRows02: "rowsOk (0, 0, 0) locationRows02"
  by (simp add: locationRows02_def kindOk_def oblastUids_def raionUids_def)

lemma ascending_locationRows03: "ascending 306 (map fst locationRows03) \<and> last (306 # map fst locationRows03) = 456"
  by (simp add: locationRows03_def)

lemma rowsOk_locationRows03: "rowsOk (0, 0, 0) locationRows03"
  by (simp add: locationRows03_def kindOk_def oblastUids_def raionUids_def)

lemma ascending_locationRows04: "ascending 456 (map fst locationRows04) \<and> last (456 # map fst locationRows04) = 606"
  by (simp add: locationRows04_def)

lemma rowsOk_locationRows04: "rowsOk (0, 0, 0) locationRows04"
  by (simp add: locationRows04_def kindOk_def oblastUids_def raionUids_def)

lemma ascending_locationRows05: "ascending 606 (map fst locationRows05) \<and> last (606 # map fst locationRows05) = 756"
  by (simp add: locationRows05_def)

lemma rowsOk_locationRows05: "rowsOk (0, 0, 0) locationRows05"
  by (simp add: locationRows05_def kindOk_def oblastUids_def raionUids_def)

lemma ascending_locationRows06: "ascending 756 (map fst locationRows06) \<and> last (756 # map fst locationRows06) = 906"
  by (simp add: locationRows06_def)

lemma rowsOk_locationRows06: "rowsOk (0, 0, 0) locationRows06"
  by (simp add: locationRows06_def kindOk_def oblastUids_def raionUids_def)

lemma ascending_locationRows07: "ascending 906 (map fst locationRows07) \<and> last (906 # map fst locationRows07) = 1056"
  by (simp add: locationRows07_def)

lemma rowsOk_locationRows07: "rowsOk (0, 0, 0) locationRows07"
  by (simp add: locationRows07_def kindOk_def oblastUids_def raionUids_def)

lemma ascending_locationRows08: "ascending 1056 (map fst locationRows08) \<and> last (1056 # map fst locationRows08) = 1207"
  by (simp add: locationRows08_def)

lemma rowsOk_locationRows08: "rowsOk (0, 0, 0) locationRows08"
  by (simp add: locationRows08_def kindOk_def oblastUids_def raionUids_def)

lemma ascending_locationRows09: "ascending 1207 (map fst locationRows09) \<and> last (1207 # map fst locationRows09) = 1357"
  by (simp add: locationRows09_def)

lemma rowsOk_locationRows09: "rowsOk (0, 0, 0) locationRows09"
  by (simp add: locationRows09_def kindOk_def oblastUids_def raionUids_def)

lemma ascending_locationRows10: "ascending 1357 (map fst locationRows10) \<and> last (1357 # map fst locationRows10) = 1507"
  by (simp add: locationRows10_def)

lemma rowsOk_locationRows10: "rowsOk (0, 0, 0) locationRows10"
  by (simp add: locationRows10_def kindOk_def oblastUids_def raionUids_def)

lemma ascending_locationRows11: "ascending 1507 (map fst locationRows11) \<and> last (1507 # map fst locationRows11) = 9999"
  by (simp add: locationRows11_def)

lemma rowsOk_locationRows11: "rowsOk (0, 0, 0) locationRows11"
  by (simp add: locationRows11_def kindOk_def oblastUids_def raionUids_def)

lemmas ascending_chunks = ascending_locationRows01 ascending_locationRows02 ascending_locationRows03 ascending_locationRows04 ascending_locationRows05 ascending_locationRows06 ascending_locationRows07 ascending_locationRows08 ascending_locationRows09 ascending_locationRows10 ascending_locationRows11
lemmas rowsOk_chunks = rowsOk_locationRows01 rowsOk_locationRows02 rowsOk_locationRows03 rowsOk_locationRows04 rowsOk_locationRows05 rowsOk_locationRows06 rowsOk_locationRows07 rowsOk_locationRows08 rowsOk_locationRows09 rowsOk_locationRows10 rowsOk_locationRows11

lemma locationRows_ascending: "ascending 0 (map fst locationRows)"
  using ascending_chunks by (simp only: locationRows_def map_append ascending_append simp_thms)

lemma locationRows_kinds:
  assumes "r \<in> set locationRows"
  shows "kindOk (snd r)"
proof -
  have "kindOk (0, 0, 0)" by (simp add: kindOk_def)
  then show ?thesis
    using assms rowsOk_chunks [THEN rowsOk_kindOk] by (auto simp only: locationRows_def set_append)
qed

lemma sorted_wrt_le_last:
  "sorted_wrt (<) (xs :: nat list) \<Longrightarrow> x \<in> set xs \<Longrightarrow> x \<le> last xs"
  by (induction xs) (auto split: if_splits intro: less_imp_le)

lemma locationRows_bound: "r \<in> set locationRows \<Longrightarrow> fst r \<le> 9999"
proof -
  assume r: "r \<in> set locationRows"
  have "last (map fst locationRows) = last (map fst locationRows11)"
    by (simp add: locationRows_def last_append) (simp add: locationRows11_def)
  also have "\<dots> = 9999" by (simp add: locationRows11_def)
  finally have "last (map fst locationRows) = 9999" .
  then show ?thesis
    using sorted_wrt_le_last ascending_sorted [OF locationRows_ascending] r by (metis image_eqI list.set_map)
qed

lemma locationRows_sorted: "sorted_wrt (\<lambda>r s. fst r < fst s) locationRows"
  using ascending_sorted [OF locationRows_ascending] by (simp add: sorted_wrt_map)

lemma of_nat_u16_less: "a \<le> 9999 \<Longrightarrow> b \<le> 9999 \<Longrightarrow> (of_nat a :: u16) < of_nat b \<longleftrightarrow> a < b"
  by (simp add: of_nat_word_less_iff take_bit_nat_eq_self)

lemma of_nat_u16_eq: "a \<le> 9999 \<Longrightarrow> b \<le> 9999 \<Longrightarrow> (of_nat a :: u16) = of_nat b \<longleftrightarrow> a = b"
  by (metis less_irrefl linorder_neqE_nat of_nat_u16_less)

lemma kLocationTable_sorted: "sortedTable kLocationTable"
proof -
  have "sorted_wrt (\<lambda>r s. row_uid (toRow r) < row_uid (toRow s)) locationRows"
    using locationRows_sorted
    by (rule sorted_wrt_mono_rel [rotated])
      (simp add: toRow_def split_beta of_nat_u16_less locationRows_bound)
  then show ?thesis
    by (simp add: sortedTable_def kLocationTable_def sorted_wrt_map comp_def)
qed

text \<open>The parents that rows name are rows themselves.\<close>

lemma oblastUids_rows: "x \<in> set oblastUids \<Longrightarrow> (x, 0, 0, 0) \<in> set locationRows"
proof -
  have "list_all (\<lambda>x. List.member locationRows01 (x, 0, 0, 0) \<or> List.member locationRows11 (x, 0, 0, 0)) oblastUids"
    by (simp add: oblastUids_def locationRows01_def locationRows11_def)
  then show "x \<in> set oblastUids \<Longrightarrow> (x, 0, 0, 0) \<in> set locationRows"
    by (auto simp only: list_all_iff List.member_iff locationRows_def set_append)
qed

lemma raionUids_rows: "(x, o1) \<in> set raionUids \<Longrightarrow> (x, 1, o1, 0) \<in> set locationRows"
proof -
  have "list_all (\<lambda>k. List.member locationRows01 (fst k, 1, snd k, 0)) raionUids"
    by (simp add: raionUids_def locationRows01_def)
  then show "(x, o1) \<in> set raionUids \<Longrightarrow> (x, 1, o1, 0) \<in> set locationRows"
    by (fastforce simp only: list_all_iff List.member_iff locationRows_def set_append fst_conv snd_conv)
qed

abbreviation shippedCatalog :: Catalog where
  "shippedCatalog \<equiv> findByUid kLocationTable"

lemma shippedCatalog_iff:
  "shippedCatalog uid = Some l \<longleftrightarrow> (\<exists>r \<in> set locationRows. of_nat (fst r) = uid \<and> rowLocation (toRow r) = l)"
  unfolding findByUid_iff [OF kLocationTable_sorted]
  by (auto simp: kLocationTable_def toRow_def split_beta)

lemma shippedCatalog_row: "r \<in> set locationRows \<Longrightarrow> shippedCatalog (of_nat (fst r)) = Some (rowLocation (toRow r))"
  by (auto simp: shippedCatalog_iff)

lemma rowLocation_toRow [simp]:
  "rowLocation (toRow (uid, ty, o1, r1)) = \<lparr>loc_uid = of_nat uid, loc_type = toLocationType (of_nat ty),
     loc_oblastUid = of_nat o1, loc_raionUid = of_nat r1\<rparr>"
  by (simp add: rowLocation_def toRow_def)

lemma toLocationType_kind:
  "ty < 4 \<Longrightarrow> toLocationType (of_nat ty) = [Oblast, Raion, Hromada, City] ! ty"
proof -
  assume "ty < 4"
  then consider "ty = 0" | "ty = 1" | "ty = 2" | "ty = 3" by linarith
  then show ?thesis by cases (simp_all add: toLocationType_def)
qed

text \<open>A row of the shipped table, as the catalogue returns it.\<close>

lemma shippedCatalog_cases:
  assumes "shippedCatalog uid = Some l"
  obtains n ty o1 r1 where "(n, ty, o1, r1) \<in> set locationRows" "uid = of_nat n"
    "l = \<lparr>loc_uid = of_nat n, loc_type = [Oblast, Raion, Hromada, City] ! ty,
          loc_oblastUid = of_nat o1, loc_raionUid = of_nat r1\<rparr>"
    "kindOk (ty, o1, r1)" "ty < 4"
proof -
  obtain r where r: "r \<in> set locationRows" "of_nat (fst r) = uid" "rowLocation (toRow r) = l"
    using assms shippedCatalog_iff by auto
  obtain n ty o1 r1 where [simp]: "r = (n, ty, o1, r1)" by (cases r)
  have "kindOk (ty, o1, r1)" using locationRows_kinds [OF r(1)] by simp
  moreover from this have "ty < 4" by (simp add: kindOk_def)
  ultimately show ?thesis
    using that [of n ty o1 r1] r by (simp add: toLocationType_kind)
qed

interpretation shipped: location_catalog shippedCatalog
proof (unfold_locales, goal_cases)
  case (1 uid l)
  then show ?case by (auto elim: shippedCatalog_cases)
next
  case (2 uid l)
  obtain n ty o1 r1 where row: "(n, ty, o1, r1) \<in> set locationRows" "uid = of_nat n"
      "l = \<lparr>loc_uid = of_nat n, loc_type = [Oblast, Raion, Hromada, City] ! ty,
            loc_oblastUid = of_nat o1, loc_raionUid = of_nat r1\<rparr>"
      "kindOk (ty, o1, r1)" "ty < 4"
    by (rule shippedCatalog_cases [OF 2(1)])
  then have "o1 \<in> set oblastUids" using 2(2) by (auto simp: kindOk_def)
  then show ?case
    using shippedCatalog_row [OF oblastUids_rows] row by (simp add: toLocationType_def)
next
  case (3 uid l)
  obtain n ty o1 r1 where row: "(n, ty, o1, r1) \<in> set locationRows" "uid = of_nat n"
      "l = \<lparr>loc_uid = of_nat n, loc_type = [Oblast, Raion, Hromada, City] ! ty,
            loc_oblastUid = of_nat o1, loc_raionUid = of_nat r1\<rparr>"
      "kindOk (ty, o1, r1)" "ty < 4"
    by (rule shippedCatalog_cases [OF 3(1)])
  then have "(r1, o1) \<in> set raionUids" using 3(2) by (auto simp: kindOk_def)
  then show ?case
    using shippedCatalog_row [OF raionUids_rows] row by (simp add: toLocationType_def)
next
  case (4 uid l)
  obtain n ty o1 r1 where row: "(n, ty, o1, r1) \<in> set locationRows" "uid = of_nat n"
      "l = \<lparr>loc_uid = of_nat n, loc_type = [Oblast, Raion, Hromada, City] ! ty,
            loc_oblastUid = of_nat o1, loc_raionUid = of_nat r1\<rparr>"
      "kindOk (ty, o1, r1)" "ty < 4"
    by (rule shippedCatalog_cases [OF 4(1)])
  then consider "ty = 0" | "ty = 1" | "ty = 2" | "ty = 3" by linarith
  then have "ty = 0" using 4(2) row(3) by cases simp_all
  then show ?case using row by (simp add: kindOk_def)
next
  case (5 uid l)
  obtain n ty o1 r1 where row: "(n, ty, o1, r1) \<in> set locationRows" "uid = of_nat n"
      "l = \<lparr>loc_uid = of_nat n, loc_type = [Oblast, Raion, Hromada, City] ! ty,
            loc_oblastUid = of_nat o1, loc_raionUid = of_nat r1\<rparr>"
      "kindOk (ty, o1, r1)" "ty < 4"
    by (rule shippedCatalog_cases [OF 5(1)])
  then consider "ty = 0" | "ty = 1" | "ty = 2" | "ty = 3" by linarith
  then have "ty = 1" using 5(2) row(3) by cases simp_all
  then show ?case using row by (simp add: kindOk_def)
qed

text \<open>
  C38. The binary search over the shipped table is an exact lookup: it finds a uid exactly
  when some row has it, and returns that row's type and parents.
\<close>

theorem catalog_lookup_exact:
  "findByUid kLocationTable uid = Some l \<longleftrightarrow> (\<exists>r \<in> set kLocationTable. row_uid r = uid \<and> rowLocation r = l)"
  by (rule findByUid_iff [OF kLocationTable_sorted])

text \<open>
  Hierarchical matching is consistent over the shipped catalogue: for two different
  locations \<open>s\<close> and \<open>c\<close>, an alert on \<open>c\<close> covers the selected \<open>s\<close> partially exactly when an alert
  on \<open>s\<close> would cover the selected \<open>c\<close> fully; an alert never covers its own location only
  partially.
\<close>

theorem partial_is_converse_of_full:
  assumes "findByUid kLocationTable (loc_uid s) = Some s" and "findByUid kLocationTable (loc_uid c) = Some c"
    and "loc_uid s \<noteq> 0" and "loc_uid c \<noteq> 0"
    and "al_locationUid a = loc_uid c" and "al_locationUid b = loc_uid s"
  shows "matchLocation (Some (findByUid kLocationTable)) s a = Partial \<longleftrightarrow>
    loc_uid s \<noteq> loc_uid c \<and> matchLocation (Some (findByUid kLocationTable)) c b = Full"
  using assms by (rule shipped.partial_iff_full_converse)

theorem partial_is_converse_of_full_witness:
  "matchLocation (Some (findByUid kLocationTable))
     \<lparr>loc_uid = 4, loc_type = Oblast, loc_oblastUid = 0, loc_raionUid = 0\<rparr>
     \<lparr>al_type = AirRaid, al_locationUid = 32, al_startedAt = 0\<rparr> = Partial"
proof -
  let ?s = "\<lparr>loc_uid = 4, loc_type = Oblast, loc_oblastUid = 0, loc_raionUid = 0\<rparr>"
  let ?c = "\<lparr>loc_uid = 32, loc_type = Raion, loc_oblastUid = 4, loc_raionUid = 0\<rparr>"
  have "(4, 0, 0, 0) \<in> set locationRows" by (rule oblastUids_rows) (simp add: oblastUids_def)
  then have s: "findByUid kLocationTable 4 = Some ?s"
    using shippedCatalog_row [of "(4, 0, 0, 0)"] by (simp add: toLocationType_def)
  have "(32, 1, 4, 0) \<in> set locationRows" by (rule raionUids_rows) (simp add: raionUids_def)
  then have c: "findByUid kLocationTable 32 = Some ?c"
    using shippedCatalog_row [of "(32, 1, 4, 0)"] by (simp add: toLocationType_def)
  show ?thesis
    using partial_is_converse_of_full [of ?s ?c "\<lparr>al_type = AirRaid, al_locationUid = 32, al_startedAt = 0\<rparr>"
        "\<lparr>al_type = AirRaid, al_locationUid = 4, al_startedAt = 0\<rparr>"] s c
    by (simp add: matchLocation_Full selfAndParents_def)
qed

end
