(* ===== verification/PreexistingAlerts.thy ===== *)
theory PreexistingAlerts
  imports AlertEngine
begin

text \<open>
  \<open>lib/core/src/airalert/PreexistingAlerts.h\<close>: the types already present in the first
  snapshot, whose start is to be applied silently. The single field, the mask with a bit per
  type, is the state itself.
\<close>

definition presentIn :: "bool \<Rightarrow> Snapshot \<Rightarrow> AlertType \<Rightarrow> bool" where
  "presentIn partialActive s t =
     (ti_coverage (s t) = Full \<or> (ti_coverage (s t) = Partial \<and> partialActive))"

definition observeType :: "Snapshot \<Rightarrow> bool \<Rightarrow> bool \<Rightarrow> AlertType \<Rightarrow> u8 \<Rightarrow> u8" where
  "observeType s firstSync partialActive t m =
     (if \<not> presentIn partialActive s t then maskClear m (typeIdx t)
      else if firstSync then maskSet m (typeIdx t) else m)"

definition observe :: "Snapshot \<Rightarrow> bool \<Rightarrow> bool \<Rightarrow> u8 \<Rightarrow> u8" where
  "observe s firstSync partialActive m =
     fold (observeType s firstSync partialActive) allTypes (if firstSync then 0 else m)"

definition consumeStart :: "AlertType \<Rightarrow> u8 \<Rightarrow> bool \<times> u8" where
  "consumeStart t m = (maskTest m (typeIdx t), maskClear m (typeIdx t))"

lemma typeInMask_observeType:
  "typeInMask (observeType s firstSync pa t m) u \<longleftrightarrow>
   (if t = u then presentIn pa s u \<and> (firstSync \<or> typeInMask m u) else typeInMask m u)"
  by (auto simp: observeType_def)

lemma typeInMask_observe_fold:
  "distinct ts \<Longrightarrow> typeInMask (fold (observeType s firstSync pa) ts m) u \<longleftrightarrow>
   (if u \<in> set ts then presentIn pa s u \<and> (firstSync \<or> typeInMask m u) else typeInMask m u)"
  by (induction ts arbitrary: m) (auto simp: typeInMask_observeType)

lemma typeInMask_observe:
  "typeInMask (observe s firstSync pa m) u \<longleftrightarrow> presentIn pa s u \<and> (firstSync \<or> typeInMask m u)"
  by (simp add: observe_def typeInMask_observe_fold)

lemma consumeStart_effect:
  "fst (consumeStart t m) \<longleftrightarrow> typeInMask m t"
  "typeInMask (snd (consumeStart t m)) u \<longleftrightarrow> typeInMask m u \<and> t \<noteq> u"
  by (simp_all add: consumeStart_def typeInMask_def mask_simps)

text \<open>The rule mirrors the engine's own notion of an alert that is present.\<close>

lemma presentIn_engine:
  "presentIn (ec_partialActive cfg) s t \<longleftrightarrow> effectiveCoverage cfg (s t) \<noteq> NoCoverage"
  by (cases "ti_coverage (s t)") (auto simp: presentIn_def effectiveCoverage_def)

subsection \<open>A life of the tracker\<close>

datatype PreStep = Observe Snapshot bool bool | Consume AlertType

fun preStep :: "PreStep \<Rightarrow> u8 \<Rightarrow> u8" where
  "preStep (Observe s firstSync pa) m = observe s firstSync pa m"
| "preStep (Consume t) m = snd (consumeStart t m)"

definition preRun :: "PreStep list \<Rightarrow> u8 \<Rightarrow> u8" where
  "preRun steps m = fold preStep steps m"

text \<open>Present in every snapshot since, and not yet voiced: what a set bit stands for.\<close>

fun undisturbed :: "AlertType \<Rightarrow> PreStep \<Rightarrow> bool" where
  "undisturbed t (Observe s firstSync pa) = presentIn pa s t"
| "undisturbed t (Consume u) = (u \<noteq> t)"

fun laterStep :: "PreStep \<Rightarrow> bool" where
  "laterStep (Observe s firstSync pa) = (\<not> firstSync)"
| "laterStep (Consume u) = True"

lemma preRun_typeInMask:
  "list_all laterStep steps \<Longrightarrow>
   typeInMask (preRun steps m) t \<longleftrightarrow> typeInMask m t \<and> list_all (undisturbed t) steps"
proof (induction steps arbitrary: m)
  case (Cons x steps)
  have "typeInMask (preStep x m) t \<longleftrightarrow> typeInMask m t \<and> undisturbed t x"
    using Cons.prems by (cases x) (auto simp: typeInMask_observe consumeStart_effect)
  then show ?case using Cons by (auto simp: preRun_def)
qed (simp add: preRun_def)

text \<open>
  C37. After the first snapshot of a session, whatever the mask held before, and any later
  snapshots and start events, a start of type \<open>t\<close> is silenced exactly when the alert has been
  present in the first snapshot and in every one since and no start of \<open>t\<close> was voiced before.
  So an alert that was already running is announced silently once, and one that comes back
  after an interruption sounds.
\<close>

theorem preexisting_silent_once:
  assumes "list_all laterStep steps"
  shows "fst (consumeStart t (preRun (Observe first True pa # steps) m)) \<longleftrightarrow>
         presentIn pa first t \<and> list_all (undisturbed t) steps"
  using preRun_typeInMask [OF assms] by (simp add: preRun_def consumeStart_effect typeInMask_observe)

theorem preexisting_silent_once_witness:
  "let s = (\<lambda>t. if t = AirRaid then emptyInput\<lparr>ti_coverage := Full\<rparr> else emptyInput) in
   fst (consumeStart AirRaid (preRun [Observe s True True, Observe s False True] 255)) \<and>
   \<not> fst (consumeStart AirRaid (preRun [Observe s True True, Observe s False True, Consume AirRaid] 255)) \<and>
   \<not> fst (consumeStart Nuclear (preRun [Observe s True True, Observe s False True] 255))"
  by (simp add: preexisting_silent_once presentIn_def emptyInput_def Let_def)

end
