(* ===== verification/BackoffPolicy.thy ===== *)
theory BackoffPolicy
  imports AirPrelude
begin

text \<open>
  \<open>lib/core/src/airalert/BackoffPolicy.h\<close>: the delay before the next poll. Arithmetic is the
  code's 32-bit arithmetic; the product of the jitter span and the random byte is taken in
  64 bits, where it cannot overflow, hence on \<open>nat\<close>.
\<close>

datatype Outcome =
  Success | NotModified | NetError | HttpError | ParseErrorOutcome | RateLimited | AuthError

record BackoffConfig =
  bc_pollMs :: u32
  bc_maxMs :: u32
  bc_rateLimitMinMs :: u32
  bc_authErrorMs :: u32
  bc_jitterPct :: u8

record BackoffPolicy =
  bp_cfg :: BackoffConfig
  bp_errors :: u8

definition defaultBackoffConfig :: BackoffConfig where
  "defaultBackoffConfig = \<lparr>bc_pollMs = 15000, bc_maxMs = 120000, bc_rateLimitMinMs = 60000,
     bc_authErrorMs = 300000, bc_jitterPct = 10\<rparr>"

definition initBackoff :: "BackoffConfig \<Rightarrow> BackoffPolicy" where
  "initBackoff cfg = \<lparr>bp_cfg = cfg, bp_errors = 0\<rparr>"

definition backoff_setConfig :: "BackoffConfig \<Rightarrow> BackoffPolicy \<Rightarrow> BackoffPolicy" where
  "backoff_setConfig cfg b = b\<lparr>bp_cfg := cfg\<rparr>"

text \<open>The \<open>switch\<close> of \<open>next\<close>: the base delay and the new error count.\<close>

definition backoff_base :: "Outcome \<Rightarrow> u32 \<Rightarrow> BackoffPolicy \<Rightarrow> u32 \<times> BackoffPolicy" where
  "backoff_base oc retryAfterSec b =
     (let cfg = bp_cfg b in
      case oc of
        Success \<Rightarrow> (bc_pollMs cfg, b\<lparr>bp_errors := 0\<rparr>)
      | NotModified \<Rightarrow> (bc_pollMs cfg, b\<lparr>bp_errors := 0\<rparr>)
      | AuthError \<Rightarrow> (bc_authErrorMs cfg, b\<lparr>bp_errors := 0\<rparr>)
      | RateLimited \<Rightarrow>
          (let ra = retryAfterSec * 1000
           in (if ra > bc_rateLimitMinMs cfg then ra else bc_rateLimitMinMs cfg, b\<lparr>bp_errors := 0\<rparr>))
      | _ \<Rightarrow>
          (let shift = (if bp_errors b < 3 then bp_errors b else 3);
               base = push_bit (unat shift) (bc_pollMs cfg);
               base = (if base > bc_maxMs cfg then bc_maxMs cfg else base)
           in (base, if bp_errors b < 10 then b\<lparr>bp_errors := bp_errors b + 1\<rparr> else b)))"

definition backoff_jitter :: "u32 \<Rightarrow> u8 \<Rightarrow> u8 \<Rightarrow> u32" where
  "backoff_jitter base pct rnd =
     (let j = base div 100 * ucast pct
      in base - j + of_nat (unat (2 * j) * unat rnd div 255))"

definition backoff_next :: "Outcome \<Rightarrow> u32 \<Rightarrow> u8 \<Rightarrow> BackoffPolicy \<Rightarrow> u32 \<times> BackoffPolicy" where
  "backoff_next oc retryAfterSec rnd b =
     (let (base, b') = backoff_base oc retryAfterSec b
      in (backoff_jitter base (bc_jitterPct (bp_cfg b)) rnd, b'))"

definition isFailure :: "Outcome \<Rightarrow> bool" where
  "isFailure oc \<longleftrightarrow> oc \<in> {NetError, HttpError, ParseErrorOutcome}"

text \<open>A run of polls: their outcomes, each with its \<open>Retry-After\<close> and random byte.\<close>

fun backoffRun :: "(Outcome \<times> u32 \<times> u8) list \<Rightarrow> BackoffPolicy \<Rightarrow> BackoffPolicy" where
  "backoffRun [] b = b"
| "backoffRun ((oc, ra, rnd) # rest) b = backoffRun rest (snd (backoff_next oc ra rnd b))"

lemma backoff_base_cfg [simp]: "bp_cfg (snd (backoff_base oc ra b)) = bp_cfg b"
  by (simp add: backoff_base_def Let_def split: Outcome.splits)

lemma backoff_next_cfg [simp]: "bp_cfg (snd (backoff_next oc ra rnd b)) = bp_cfg b"
  using backoff_base_cfg [of oc ra b] by (simp add: backoff_next_def split_beta)

lemma jitter_bounds:
  assumes pct: "pct \<le> 100" and base: "unat base < 2 ^ 31"
  defines "j \<equiv> unat base div 100 * unat pct"
  shows "unat base - j \<le> unat (backoff_jitter base pct rnd)"
    and "unat (backoff_jitter base pct rnd) \<le> unat base + j"
    and "j \<le> unat base"
proof -
  define w where "w = base div 100 * ucast pct"
  have pct_n: "unat pct \<le> 100" using pct by (simp add: word_le_nat_alt)
  have "unat base div 100 * unat pct \<le> unat base div 100 * 100" using pct_n by (intro mult_le_mono) auto
  also have "\<dots> \<le> unat base" by simp
  finally show j_le: "j \<le> unat base" by (simp add: j_def)
  have w: "unat w = j"
    using j_le base by (simp add: w_def j_def unat_word_ariths unat_div unat_ucast_up)
  have two: "unat (2 * w) = 2 * j"
    using w j_le base by (simp add: unat_word_ariths)
  have "unat rnd \<le> 255" using unsigned_less [of rnd, where ?'a = nat] by simp
  then have span: "2 * j * unat rnd div 255 \<le> 2 * j"
    using div_le_mono [of "2 * j * unat rnd" "2 * j * 255" 255] by (simp add: mult_le_mono)
  have sub: "unat (base - w) = unat base - j"
    using w j_le by (simp add: unat_sub word_le_nat_alt)
  have add: "unat (of_nat (2 * j * unat rnd div 255) :: u32) = 2 * j * unat rnd div 255"
    using span j_le base by (simp add: unat_of_nat)
  have eq: "unat (backoff_jitter base pct rnd) = unat base - j + 2 * j * unat rnd div 255"
    using span j_le base sub add
    by (simp add: backoff_jitter_def Let_def w_def [symmetric] two unat_word_ariths(1))
  show "unat base - j \<le> unat (backoff_jitter base pct rnd)" by (simp add: eq)
  show "unat (backoff_jitter base pct rnd) \<le> unat base + j" using span j_le by (simp add: eq)
qed

text \<open>The ladder: \<open>n\<close> failures in a row count up to 10, and the base doubles three times.\<close>

lemma backoff_next_failure_errors:
  "isFailure oc \<Longrightarrow> unat (bp_errors b) \<le> 10 \<Longrightarrow>
   unat (bp_errors (snd (backoff_next oc ra rnd b))) = min 10 (Suc (unat (bp_errors b)))"
  by (auto simp: isFailure_def backoff_next_def backoff_base_def Let_def word_less_nat_alt
      unat_word_ariths)

lemma backoffRun_failures_errors:
  "\<forall>(oc, _) \<in> set polls. isFailure oc \<Longrightarrow> unat (bp_errors b) \<le> 10 \<Longrightarrow>
   unat (bp_errors (backoffRun polls b)) = min 10 (unat (bp_errors b) + length polls) \<and>
   bp_cfg (backoffRun polls b) = bp_cfg b"
proof (induction polls b rule: backoffRun.induct)
  case (2 oc ra rnd rest b)
  then show ?case using backoff_next_failure_errors [of oc b ra rnd] by simp
qed simp

lemma backoff_base_ladder:
  assumes "isFailure oc" and "8 * unat (bc_pollMs (bp_cfg b)) < 2 ^ 32"
  shows "unat (fst (backoff_base oc ra b)) =
    min (unat (bc_maxMs (bp_cfg b))) (2 ^ min 3 (unat (bp_errors b)) * unat (bc_pollMs (bp_cfg b)))"
proof -
  define k where "k = min 3 (unat (bp_errors b))"
  have k: "unat (if bp_errors b < 3 then bp_errors b else 3) = k"
    by (auto simp: k_def word_less_nat_alt)
  have "2 ^ k * unat (bc_pollMs (bp_cfg b)) \<le> 2 ^ 3 * unat (bc_pollMs (bp_cfg b))"
    by (intro mult_le_mono power_increasing) (auto simp: k_def)
  also have "\<dots> = 8 * unat (bc_pollMs (bp_cfg b))" by simp
  also have "\<dots> < 2 ^ 32" by (rule assms(2))
  finally have "2 ^ k * unat (bc_pollMs (bp_cfg b)) < 2 ^ 32" .
  moreover have "push_bit k (bc_pollMs (bp_cfg b)) = of_nat (2 ^ k * unat (bc_pollMs (bp_cfg b)))"
    by (simp add: push_bit_eq_mult mult.commute)
  ultimately have "unat (push_bit k (bc_pollMs (bp_cfg b))) = 2 ^ k * unat (bc_pollMs (bp_cfg b))"
    by (simp only: unat_of_nat) simp
  then show ?thesis
    using assms(1) k
    by (auto simp: isFailure_def backoff_base_def Let_def k_def [symmetric] word_less_nat_alt)
qed

text \<open>
  C39. The retry ladder: after \<open>n\<close> failed polls in a row the next failure waits
  \<open>min maxMs (2 ^ min 3 n * pollMs)\<close>, give or take the jitter percentage, and the delay
  never leaves that window. Whatever came before the last success does not matter.
\<close>

theorem backoff_ladder:
  assumes "\<forall>(oc, _) \<in> set polls. isFailure oc" and "isFailure oc"
    and "bp_errors b = 0" and "8 * unat (bc_pollMs (bp_cfg b)) < 2 ^ 32"
    and "unat (bc_maxMs (bp_cfg b)) < 2 ^ 31" and "bc_jitterPct (bp_cfg b) \<le> 100"
  defines "base \<equiv> min (unat (bc_maxMs (bp_cfg b))) (2 ^ min 3 (length polls) * unat (bc_pollMs (bp_cfg b)))"
  shows "\<bar>int (unat (fst (backoff_next oc ra rnd (backoffRun polls b)))) - int base\<bar>
    \<le> int (base div 100 * unat (bc_jitterPct (bp_cfg b)))"
proof -
  define b' where "b' = backoffRun polls b"
  have b': "unat (bp_errors b') = min 10 (length polls)" "bp_cfg b' = bp_cfg b"
    using backoffRun_failures_errors [OF assms(1), of b] assms(3) by (auto simp: b'_def)
  have base: "unat (fst (backoff_base oc ra b')) = base"
    using backoff_base_ladder [OF assms(2), of b' ra] assms(4) b' by (simp add: base_def min_def)
  have "base < 2 ^ 31" using assms(5) by (simp add: base_def min_def)
  define delay where "delay = unat (fst (backoff_next oc ra rnd b'))"
  define j where "j = base div 100 * unat (bc_jitterPct (bp_cfg b))"
  have "base - j \<le> delay" "delay \<le> base + j"
    using jitter_bounds(1,2) [OF assms(6), of "fst (backoff_base oc ra b')" rnd] base b' \<open>base < 2 ^ 31\<close>
    by (simp_all add: backoff_next_def split_beta delay_def j_def)
  then have "\<bar>int delay - int base\<bar> \<le> int j" by linarith
  then show ?thesis unfolding delay_def j_def b'_def .
qed

theorem backoff_ladder_witness:
  "\<bar>int (unat (fst (backoff_next HttpError 0 0 (backoffRun [(NetError, 0, 7), (ParseErrorOutcome, 0, 9)]
      (initBackoff defaultBackoffConfig))))) - int (min 120000 (2 ^ min 3 2 * 15000))\<bar>
   \<le> int (min 120000 (2 ^ min 3 2 * 15000) div 100 * 10)"
  using backoff_ladder [of "[(NetError, 0, 7), (ParseErrorOutcome, 0, 9)]" HttpError
      "initBackoff defaultBackoffConfig" 0 0]
  by (simp add: isFailure_def initBackoff_def defaultBackoffConfig_def)

text \<open>
  Rate limiting is respected: after a 429 the next poll waits at least the configured
  minimum and at least the server's \<open>Retry-After\<close>, less the jitter, for every
  \<open>Retry-After\<close> up to 24 days; and the failure ladder starts again.
\<close>

theorem backoff_rate_limited:
  assumes "unat ra * 1000 < 2 ^ 31" and "unat (bc_rateLimitMinMs (bp_cfg b)) < 2 ^ 31"
    and "bc_jitterPct (bp_cfg b) \<le> 100"
    and "backoff_next RateLimited ra rnd b = (delay, b')"
  defines "base \<equiv> max (unat ra * 1000) (unat (bc_rateLimitMinMs (bp_cfg b)))"
  shows "base - base div 100 * unat (bc_jitterPct (bp_cfg b)) \<le> unat delay \<and> bp_errors b' = 0"
proof -
  have ra: "unat (ra * 1000) = unat ra * 1000" using assms(1) by (simp add: unat_word_ariths)
  then have base: "unat (fst (backoff_base RateLimited ra b)) = base"
    by (auto simp: backoff_base_def Let_def base_def word_less_nat_alt)
  have "base < 2 ^ 31" using assms(1,2) by (simp add: base_def)
  then show ?thesis
    using jitter_bounds(1) [OF assms(3), of "fst (backoff_base RateLimited ra b)" rnd] base assms(4)
    by (auto simp: backoff_next_def split_beta) (auto simp: backoff_base_def Let_def)
qed

theorem backoff_rate_limited_witness:
  "108000 \<le> unat (fst (backoff_next RateLimited 120 0 (initBackoff defaultBackoffConfig)))"
proof -
  have "120000 - 120000 div 100 * 10 \<le>
      unat (fst (backoff_next RateLimited 120 0 (initBackoff defaultBackoffConfig)))"
    using backoff_rate_limited [of 120 "initBackoff defaultBackoffConfig" 0, OF _ _ _ surjective_pairing]
    by (simp add: initBackoff_def defaultBackoffConfig_def)
  then show ?thesis by simp
qed

text \<open>
  With a poll interval above \<open>maxMs\<close> (the configuration allows up to 600 s) the ceiling of
  the ladder lies below the normal cadence: a failing server is then polled more often
  than a healthy one.
\<close>

lemma backoff_faster_than_poll:
  "fst (backoff_next NetError 0 0 (initBackoff (defaultBackoffConfig\<lparr>bc_pollMs := 600000\<rparr>))) = 108000 \<and>
   fst (backoff_next Success 0 0 (initBackoff (defaultBackoffConfig\<lparr>bc_pollMs := 600000\<rparr>))) = 540000"
  by (simp add: backoff_next_def backoff_base_def backoff_jitter_def initBackoff_def
      defaultBackoffConfig_def Let_def)

end
