(* ===== verification/Debouncer.thy ===== *)
theory Debouncer
  imports TimeUtils
begin

text \<open>
  \<open>lib/core/src/airalert/Debouncer.h\<close> and \<open>src/hardware/ButtonController.h\<close>: debounced
  buttons with short and long presses. The button driver reads a pull-up input, so pressed
  is a LOW level; its pin level is an argument.
\<close>

datatype ButtonEvent = NoEvent | Press | LongPress | Release

record DebouncerConfig =
  dc_debounceMs :: u32
  dc_longPressMs :: u32

record Debouncer =
  db_cfg :: DebouncerConfig
  db_lastRaw :: bool
  db_stable :: bool
  db_longFired :: bool
  db_rawChangeAt :: u32
  db_pressedAt :: u32

definition defaultDebouncerConfig :: DebouncerConfig where
  "defaultDebouncerConfig = \<lparr>dc_debounceMs = 40, dc_longPressMs = 2000\<rparr>"

definition initDebouncer :: "DebouncerConfig \<Rightarrow> Debouncer" where
  "initDebouncer cfg = \<lparr>db_cfg = cfg, db_lastRaw = False, db_stable = False, db_longFired = False,
     db_rawChangeAt = 0, db_pressedAt = 0\<rparr>"

definition debouncer_update :: "bool \<Rightarrow> u32 \<Rightarrow> Debouncer \<Rightarrow> ButtonEvent \<times> Debouncer" where
  "debouncer_update rawPressed nowMs d =
     (let d = (if rawPressed \<noteq> db_lastRaw d
               then d\<lparr>db_lastRaw := rawPressed, db_rawChangeAt := nowMs\<rparr> else d)
      in if rawPressed \<noteq> db_stable d \<and> intervalPassed nowMs (db_rawChangeAt d) (dc_debounceMs (db_cfg d))
         then (let d = d\<lparr>db_stable := rawPressed\<rparr>
               in if db_stable d then (Press, d\<lparr>db_pressedAt := nowMs, db_longFired := False\<rparr>)
                  else (Release, d))
         else if db_stable d \<and> \<not> db_longFired d \<and>
                 intervalPassed nowMs (db_pressedAt d) (dc_longPressMs (db_cfg d))
              then (LongPress, d\<lparr>db_longFired := True\<rparr>)
              else (NoEvent, d))"

definition wasShortPress :: "Debouncer \<Rightarrow> bool" where
  "wasShortPress d \<longleftrightarrow> \<not> db_longFired d"

text \<open>\<open>ButtonController::tick\<close>: \<open>levelHigh\<close> is \<open>digitalRead(pin_) == HIGH\<close>.\<close>

definition button_tick :: "bool \<Rightarrow> u32 \<Rightarrow> Debouncer \<Rightarrow> ButtonEvent \<times> Debouncer" where
  "button_tick levelHigh nowMs d = debouncer_update (\<not> levelHigh) nowMs d"

text \<open>A run over samples of the input; each event comes with \<open>wasShortPress\<close> right after it.\<close>

fun debounceRun :: "Debouncer \<Rightarrow> (bool \<times> nat) list \<Rightarrow> (ButtonEvent \<times> bool) list" where
  "debounceRun d [] = []"
| "debounceRun d ((raw, t) # rest) =
     (let (ev, d') = debouncer_update raw (of_nat t) d in (ev, wasShortPress d') # debounceRun d' rest)"

text \<open>
  What a run of events may look like: presses and releases alternate, a press is long at
  most once, and a release counts as short exactly when its press was not long.
\<close>

fun pressGrammar :: "bool \<Rightarrow> bool \<Rightarrow> (ButtonEvent \<times> bool) list \<Rightarrow> bool" where
  "pressGrammar held long [] = True"
| "pressGrammar held long ((NoEvent, _) # rest) = pressGrammar held long rest"
| "pressGrammar held long ((Press, short) # rest) = (\<not> held \<and> short \<and> pressGrammar True False rest)"
| "pressGrammar held long ((LongPress, short) # rest) =
     (held \<and> \<not> long \<and> \<not> short \<and> pressGrammar True True rest)"
| "pressGrammar held long ((Release, short) # rest) =
     (held \<and> short = (\<not> long) \<and> pressGrammar False long rest)"

lemma debounceRun_grammar:
  "pressGrammar (db_stable d) (db_longFired d) (debounceRun d samples)"
proof (induction samples arbitrary: d)
  case (Cons sample rest)
  obtain raw t where [simp]: "sample = (raw, t)" by fastforce
  obtain ev d' where step: "debouncer_update raw (of_nat t) d = (ev, d')" by fastforce
  from Cons.IH [of d'] step show ?case
    by (auto simp: debouncer_update_def Let_def wasShortPress_def split: if_splits)
qed simp

text \<open>
  \<open>dbInv d hist\<close> (\<open>hist\<close> the samples so far, the last one first): the debouncer remembers the
  time of the first sample of the current run of equal levels.
\<close>

definition levelRun :: "Debouncer \<Rightarrow> (bool \<times> nat) list \<Rightarrow> (bool \<times> nat) list" where
  "levelRun d hist = takeWhile (\<lambda>h. fst h = db_lastRaw d) hist"

definition dbInv :: "Debouncer \<Rightarrow> (bool \<times> nat) list \<Rightarrow> bool" where
  "dbInv d hist \<longleftrightarrow>
     (levelRun d hist = hist \<and> \<not> db_lastRaw d \<and> \<not> db_stable d) \<or>
     (levelRun d hist \<noteq> [] \<and> db_rawChangeAt d = of_nat (snd (last (levelRun d hist))))"

lemma debouncer_lastRaw [simp]: "db_lastRaw (snd (debouncer_update raw t d)) = raw"
  by (auto simp: debouncer_update_def Let_def)

lemma debouncer_cfg [simp]: "db_cfg (snd (debouncer_update raw t d)) = db_cfg d"
  by (auto simp: debouncer_update_def Let_def)

lemma debouncer_rawChangeAt:
  "db_rawChangeAt (snd (debouncer_update raw t d)) = (if raw = db_lastRaw d then db_rawChangeAt d else t)"
  by (auto simp: debouncer_update_def Let_def)

lemma dbInv_step:
  assumes "dbInv d hist"
  shows "dbInv (snd (debouncer_update raw (of_nat t) d)) ((raw, t) # hist)"
proof (cases "raw = db_lastRaw d")
  case False
  moreover have "takeWhile (\<lambda>h. fst h = raw) hist = []"
    using assms False by (cases hist) (auto simp: dbInv_def levelRun_def split: if_splits)
  ultimately show ?thesis by (simp add: dbInv_def levelRun_def debouncer_rawChangeAt)
next
  case True
  then show ?thesis
    using assms by (auto simp: dbInv_def levelRun_def debouncer_rawChangeAt)
      (auto simp: debouncer_update_def Let_def)
qed

lemma elapsed_lower_bound:
  assumes "a \<le> b" and "intervalPassed (of_nat b) (of_nat a) i"
  shows "unat i \<le> b - a"
proof -
  have "(of_nat b :: u32) - of_nat a = of_nat (b - a)" using assms(1) by simp
  then have "unat i \<le> unat (of_nat (b - a) :: u32)"
    using assms(2) by (simp only: intervalPassed_def elapsedMs_def word_le_nat_alt)
  also have "\<dots> \<le> b - a" by (simp only: unat_of_nat) (rule mod_less_eq_dividend)
  finally show ?thesis .
qed

text \<open>The events of one sample, and what they say of the levels before it.\<close>

definition edgeEvent :: "ButtonEvent \<Rightarrow> bool \<Rightarrow> bool" where
  "edgeEvent ev raw \<longleftrightarrow> (ev = Press \<and> raw) \<or> (ev = Release \<and> \<not> raw)"

lemma debouncer_event_held:
  assumes "dbInv d hist" and "debouncer_update raw (of_nat t) d = (ev, d')" and "ev = Press \<or> ev = Release"
    and "\<forall>h \<in> set hist. snd h \<le> t"
  shows "edgeEvent ev raw \<and> (\<exists>run rest. (raw, t) # hist = run @ rest \<and> run \<noteq> [] \<and>
    (\<forall>h \<in> set run. fst h = raw) \<and> unat (dc_debounceMs (db_cfg d)) \<le> t - snd (last run))"
proof -
  have d': "d' = snd (debouncer_update raw (of_nat t) d)" using assms(2) by simp
  have inv: "dbInv d' ((raw, t) # hist)" unfolding d' using assms(1) by (rule dbInv_step)
  have edge: "edgeEvent ev raw" and changed: "raw \<noteq> db_stable d"
    and passed: "intervalPassed (of_nat t) (db_rawChangeAt d') (dc_debounceMs (db_cfg d))"
    and stable': "db_stable d' = raw"
    using assms(2,3) by (auto simp: debouncer_update_def Let_def edgeEvent_def split: if_splits)
  have last': "db_lastRaw d' = raw" by (simp add: d')
  define run where "run = levelRun d' ((raw, t) # hist)"
  have split: "(raw, t) # hist = run @ dropWhile (\<lambda>h. fst h = raw) hist"
    by (simp add: run_def levelRun_def last')
  have run: "run \<noteq> []" "\<forall>h \<in> set run. fst h = raw"
    by (auto simp: run_def levelRun_def last' dest: set_takeWhileD)
  have "db_rawChangeAt d' = of_nat (snd (last run))"
  proof (cases "raw")
    case True
    then show ?thesis using inv last' by (auto simp: dbInv_def run_def)
  next
    case False
    then have "db_stable d" using changed by simp
    then have "\<not> (levelRun d hist = hist \<and> \<not> db_lastRaw d \<and> \<not> db_stable d)" by simp
    then have "levelRun d hist \<noteq> []" "db_rawChangeAt d = of_nat (snd (last (levelRun d hist)))"
      using assms(1) by (auto simp: dbInv_def)
    moreover have "takeWhile (\<lambda>h. fst h = raw) hist = []" if "raw \<noteq> db_lastRaw d"
      using calculation(1) that by (cases hist) (auto simp: levelRun_def split: if_splits)
    ultimately show ?thesis
      by (auto simp: run_def levelRun_def last' d' debouncer_rawChangeAt)
  qed
  moreover have "snd (last run) \<le> t"
  proof -
    have "last run \<in> set ((raw, t) # hist)" using run(1) split by (metis in_set_conv_decomp last_in_set append_Cons append_assoc)
    then show ?thesis using assms(4) by auto
  qed
  ultimately have "unat (dc_debounceMs (db_cfg d)) \<le> t - snd (last run)"
    using passed elapsed_lower_bound by simp
  then show ?thesis using edge split run by blast
qed

lemma debounceRun_held:
  assumes "dbInv d hist" and "sorted (map snd samples)" and "\<forall>h \<in> set hist. \<forall>x \<in> set samples. snd h \<le> snd x"
    and "i < length samples" and "fst (debounceRun d samples ! i) = ev" and "ev = Press \<or> ev = Release"
  shows "\<exists>run rest. rev (take (Suc i) samples) @ hist = run @ rest \<and> run \<noteq> [] \<and>
    (\<forall>h \<in> set run. fst h \<longleftrightarrow> ev = Press) \<and>
    unat (dc_debounceMs (db_cfg d)) \<le> snd (samples ! i) - snd (last run)"
  using assms
proof (induction samples arbitrary: d hist i)
  case Nil
  then show ?case by simp
next
  case (Cons sample rest)
  obtain raw t where [simp]: "sample = (raw, t)" by fastforce
  obtain ev1 d' where step: "debouncer_update raw (of_nat t) d = (ev1, d')" by fastforce
  have d': "d' = snd (debouncer_update raw (of_nat t) d)" using step by simp
  show ?case
  proof (cases i)
    case 0
    then have "ev1 = ev" using Cons.prems(5) step by simp
    then have step_ev: "debouncer_update raw (of_nat t) d = (ev, d')" using step by simp
    have "\<forall>h \<in> set hist. snd h \<le> t" using Cons.prems(3) by simp
    from debouncer_event_held [OF Cons.prems(1) step_ev Cons.prems(6) this]
    obtain run rest' where held: "edgeEvent ev raw" "(raw, t) # hist = run @ rest'" "run \<noteq> []"
        "\<forall>h \<in> set run. fst h = raw" "unat (dc_debounceMs (db_cfg d)) \<le> t - snd (last run)"
      by (elim conjE exE)
    have raw: "raw = (ev = Press)" using held(1) by (auto simp: edgeEvent_def)
    have "rev (take (Suc i) (sample # rest)) @ hist = run @ rest'" using 0 held(2) by simp
    moreover have "\<forall>h \<in> set run. fst h \<longleftrightarrow> ev = Press" using held(4) unfolding raw .
    moreover have "unat (dc_debounceMs (db_cfg d)) \<le> snd ((sample # rest) ! i) - snd (last run)"
      using 0 held(5) by simp
    ultimately show ?thesis using held(3) by blast
  next
    case (Suc i')
    have inv: "dbInv d' ((raw, t) # hist)" unfolding d' using Cons.prems(1) by (rule dbInv_step)
    have sorted: "sorted (map snd rest)" and i': "i' < length rest" "fst (debounceRun d' rest ! i') = ev"
      using Cons.prems(2,4,5) Suc step by simp_all
    have before: "\<forall>h \<in> set ((raw, t) # hist). \<forall>x \<in> set rest. snd h \<le> snd x"
      using Cons.prems(2,3) by simp
    have "\<exists>run rest'. rev (take (Suc i') rest) @ (raw, t) # hist = run @ rest' \<and> run \<noteq> [] \<and>
        (\<forall>h \<in> set run. fst h \<longleftrightarrow> ev = Press) \<and>
        unat (dc_debounceMs (db_cfg d')) \<le> snd (rest ! i') - snd (last run)"
      by (rule Cons.IH [OF inv sorted before i' Cons.prems(6)])
    then show ?thesis using Suc by (simp add: d')
  qed
qed

text \<open>
  No glitch ever becomes a button event: a \<open>Press\<close> (\<open>Release\<close>) is reported only after
  every sample of the last \<open>debounceMs\<close> or more milliseconds read pressed (released),
  whatever the sampling times.
\<close>

theorem debounce_filters_glitches:
  assumes "sorted (map snd samples)" and "i < length samples"
    and "fst (debounceRun (initDebouncer cfg) samples ! i) = ev" and "ev = Press \<or> ev = Release"
  shows "\<exists>before run. take (Suc i) samples = before @ run \<and> run \<noteq> [] \<and>
    (\<forall>h \<in> set run. fst h \<longleftrightarrow> ev = Press) \<and>
    unat (dc_debounceMs cfg) \<le> snd (samples ! i) - snd (hd run)"
proof -
  have "dbInv (initDebouncer cfg) []" by (simp add: dbInv_def initDebouncer_def levelRun_def)
  from debounceRun_held [OF this assms(1) _ assms(2-4)]
  obtain run rest where "rev (take (Suc i) samples) = run @ rest" "run \<noteq> []"
      "\<forall>h \<in> set run. fst h \<longleftrightarrow> ev = Press"
      "unat (dc_debounceMs cfg) \<le> snd (samples ! i) - snd (last run)"
    by (auto simp: initDebouncer_def)
  then show ?thesis
    by (intro exI [of _ "rev rest"] exI [of _ "rev run"])
      (auto simp: hd_rev rev_swap simp flip: rev_append)
qed

theorem debounce_filters_glitches_witness:
  "map fst (debounceRun (initDebouncer defaultDebouncerConfig)
      [(True, 1000), (False, 1010), (True, 1020), (True, 1059), (True, 1060)])
   = [NoEvent, NoEvent, NoEvent, NoEvent, Press] \<and>
   (\<exists>before run. take (Suc 4) [(True, 1000), (False, 1010), (True, 1020), (True, 1059), (True, 1060::nat)] = before @ run \<and>
     run \<noteq> [] \<and> (\<forall>h \<in> set run. fst h) \<and> 40 \<le> 1060 - snd (hd run))"
proof -
  let ?samples = "[(True, 1000), (False, 1010), (True, 1020), (True, 1059), (True, 1060)]"
  have run: "map fst (debounceRun (initDebouncer defaultDebouncerConfig) ?samples)
      = [NoEvent, NoEvent, NoEvent, NoEvent, Press]"
    by (simp add: debouncer_update_def initDebouncer_def defaultDebouncerConfig_def
        intervalPassed_def elapsedMs_def wasShortPress_def Let_def)
  have "fst (debounceRun (initDebouncer defaultDebouncerConfig) ?samples ! 4) = Press"
    by (simp add: debouncer_update_def initDebouncer_def defaultDebouncerConfig_def
        intervalPassed_def elapsedMs_def wasShortPress_def Let_def)
  from debounce_filters_glitches [OF _ _ this] run show ?thesis
    by (simp add: defaultDebouncerConfig_def)
qed

text \<open>
  C40. Button events come in order: presses and releases alternate, at most one long press
  is reported per press and only while the button is held, and \<open>wasShortPress\<close> at the
  release is true exactly when no long press was reported. So one physical press never
  triggers both the short and the long action.
\<close>

theorem button_events_in_order: "pressGrammar False False (debounceRun (initDebouncer cfg) samples)"
  using debounceRun_grammar [of "initDebouncer cfg" samples] by (simp add: initDebouncer_def)

end
