(* ===== verification/MuteState.thy ===== *)
theory MuteState
  imports ThreatTypes TimeUtils
begin

text \<open>
  \<open>lib/core/src/airalert/MuteState.h\<close>: which signals are silenced. A mute remembers the
  types that were active, so a new type sounds again; it ends by the scope it was given.
\<close>

datatype MuteScope = ScopeNone | CurrentPattern | UntilClear | Snooze

record MuteConfig =
  mc_snoozeMs :: u32
  mc_muteAllAlertTypes :: bool

record MuteState =
  mu_cfg :: MuteConfig
  mu_scope :: MuteScope
  mu_since :: u32
  mu_mutedTypesMask :: u8

definition defaultMuteConfig :: MuteConfig where
  "defaultMuteConfig = \<lparr>mc_snoozeMs = 15 * 60 * 1000, mc_muteAllAlertTypes = False\<rparr>"

definition initMute :: "MuteConfig \<Rightarrow> MuteState" where
  "initMute cfg = \<lparr>mu_cfg = cfg, mu_scope = ScopeNone, mu_since = 0, mu_mutedTypesMask = 0\<rparr>"

definition mute_setConfig :: "MuteConfig \<Rightarrow> MuteState \<Rightarrow> MuteState" where
  "mute_setConfig cfg m = m\<lparr>mu_cfg := cfg\<rparr>"

definition mute :: "MuteScope \<Rightarrow> u32 \<Rightarrow> u8 \<Rightarrow> MuteState \<Rightarrow> MuteState" where
  "mute scope nowMs activeTypesMask m =
     m\<lparr>mu_scope := scope, mu_since := nowMs, mu_mutedTypesMask := activeTypesMask\<rparr>"

definition unmute :: "MuteState \<Rightarrow> MuteState" where
  "unmute m = m\<lparr>mu_scope := ScopeNone, mu_mutedTypesMask := 0\<rparr>"

definition mute_onAllClear :: "MuteState \<Rightarrow> MuteState" where
  "mute_onAllClear m = (if mu_scope m = UntilClear \<or> mu_scope m = CurrentPattern then unmute m else m)"

definition mute_onPatternFinished :: "MuteState \<Rightarrow> MuteState" where
  "mute_onPatternFinished m = (if mu_scope m = CurrentPattern then unmute m else m)"

definition shouldSilence :: "AlertType \<Rightarrow> u32 \<Rightarrow> MuteState \<Rightarrow> bool \<times> MuteState" where
  "shouldSilence ty nowMs m =
     (if mu_scope m = ScopeNone then (False, m)
      else if mu_scope m = Snooze \<and> intervalPassed nowMs (mu_since m) (mc_snoozeMs (mu_cfg m))
           then (False, unmute m)
      else if mc_muteAllAlertTypes (mu_cfg m) then (True, m)
      else (mu_mutedTypesMask m AND bitMask (typeIdx ty) \<noteq> 0, m))"

definition muted :: "MuteState \<Rightarrow> bool" where
  "muted m \<longleftrightarrow> mu_scope m \<noteq> ScopeNone"

lemma shouldSilence_mask:
  "mu_mutedTypesMask m AND bitMask (typeIdx ty) \<noteq> 0 \<longleftrightarrow> typeInMask (mu_mutedTypesMask m) ty"
  by (simp add: typeInMask_def maskTest_def)

lemma shouldSilence_cfg [simp]: "mu_cfg (snd (shouldSilence ty t m)) = mu_cfg m"
  by (simp add: shouldSilence_def unmute_def)

lemma shouldSilence_True_state: "fst (shouldSilence ty t m) \<Longrightarrow> snd (shouldSilence ty t m) = m"
  by (auto simp: shouldSilence_def)

text \<open>
  What a mute silences: pressed at time \<open>T\<close> while the types in \<open>activeTypes\<close> were active, it
  silences a signal of type \<open>ty\<close> at \<open>t\<close> exactly when it was already active (or all types
  are configured to be muted) and a snooze has not run out. A type that was not active
  sounds at once, and an expired snooze is over for good.
\<close>

theorem mute_silences_exactly:
  assumes "T \<le> t" and "t - T < 2 ^ 32"
    and "shouldSilence ty (of_nat t) (mute scope (of_nat T) activeTypes m) = (silent, m')"
  defines "expired \<equiv> scope = Snooze \<and> unat (mc_snoozeMs (mu_cfg m)) \<le> t - T"
  shows "silent = (scope \<noteq> ScopeNone \<and> \<not> expired \<and>
      (mc_muteAllAlertTypes (mu_cfg m) \<or> typeInMask activeTypes ty)) \<and>
    (muted m' \<longleftrightarrow> scope \<noteq> ScopeNone \<and> \<not> expired)"
  using assms(3) intervalPassed_clock [OF assms(1,2), of "mc_snoozeMs (mu_cfg m)"]
  by (auto simp: shouldSilence_def mute_def expired_def muted_def unmute_def typeInMask_def maskTest_def
      split: if_splits)

theorem mute_silences_exactly_witness:
  "fst (shouldSilence AirRaid (of_nat 60000)
     (mute Snooze (of_nat 1000) (bitMask (typeIdx AirRaid)) (initMute defaultMuteConfig))) \<and>
   \<not> fst (shouldSilence Chemical (of_nat 60000)
     (mute Snooze (of_nat 1000) (bitMask (typeIdx AirRaid)) (initMute defaultMuteConfig)))"
proof -
  have bits: "typeInMask (bitMask (typeIdx AirRaid)) AirRaid"
    "\<not> typeInMask (bitMask (typeIdx AirRaid)) Chemical"
    by (simp_all add: typeInMask_def mask_simps)
  show ?thesis
    using mute_silences_exactly [where T = 1000 and t = 60000 and scope = Snooze
        and activeTypes = "bitMask (typeIdx AirRaid)" and m = "initMute defaultMuteConfig",
        OF _ _ surjective_pairing] bits
    by (simp add: initMute_def defaultMuteConfig_def)
qed

text \<open>
  The clock wraps here too. A snooze is only found expired when a signal is due; if none
  was due for 49.7 days, the elapsed time has wrapped and the forgotten snooze silences the
  next alert of a type that was active back then.
\<close>

lemma forgotten_snooze_silences:
  "fst (shouldSilence AirRaid (of_nat (2 ^ 32 + 60000))
     (mute Snooze (of_nat 1000) (bitMask (typeIdx AirRaid)) (initMute defaultMuteConfig)))"
  by (simp add: shouldSilence_def mute_def initMute_def defaultMuteConfig_def intervalPassed_def
      elapsedMs_def bitMask_def)

end
