(* ===== verification/NotificationQueue.thy ===== *)
theory NotificationQueue
  imports ThreatTypes
begin

text \<open>
  \<open>lib/core/src/airalert/NotificationQueue.h\<close>: the fixed-depth priority queue of siren
  events. The arrays \<open>slots_\<close> and \<open>seq_\<close> are lists of length \<open>kDepth\<close>, indexed modulo the
  depth as in the code. The locale \<open>signal_queue\<close> is the contract that the notification
  engine relies on; it is interpreted on the circular buffer at the end.
\<close>

datatype Signal = StartSig | Escalation | Reminder | EndSig | ManualTest

record Notification =
  nt_signal :: Signal
  nt_type :: AlertType
  nt_priority :: u8

definition defaultNotification :: Notification where
  "defaultNotification = \<lparr>nt_signal = StartSig, nt_type = UnknownType, nt_priority = 50\<rparr>"

abbreviation kDepth :: nat where "kDepth \<equiv> 12"

record NotificationQueue =
  nq_slots :: "Notification list"
  nq_seq :: "u32 list"
  nq_head :: nat
  nq_count :: nat
  nq_nextSeq :: u32

definition initQueue :: NotificationQueue where
  "initQueue = \<lparr>nq_slots = replicate kDepth defaultNotification, nq_seq = replicate kDepth 0,
     nq_head = 0, nq_count = 0, nq_nextSeq = 0\<rparr>"

definition slotIdx :: "NotificationQueue \<Rightarrow> nat \<Rightarrow> nat" where
  "slotIdx q i = (nq_head q + i) mod kDepth"

definition slotAt :: "NotificationQueue \<Rightarrow> nat \<Rightarrow> Notification" where
  "slotAt q i = nq_slots q ! slotIdx q i"

definition seqAt :: "NotificationQueue \<Rightarrow> nat \<Rightarrow> u32" where
  "seqAt q i = nq_seq q ! slotIdx q i"

fun rank :: "Signal \<Rightarrow> nat" where
  "rank ManualTest = 4"
| "rank StartSig = 3"
| "rank Escalation = 3"
| "rank EndSig = 2"
| "rank Reminder = 1"

definition canPreempt :: "Notification \<Rightarrow> Notification \<Rightarrow> bool" where
  "canPreempt incoming playing \<longleftrightarrow> rank (nt_signal incoming) = 3 \<and> nt_signal playing = Reminder"

definition better :: "NotificationQueue \<Rightarrow> nat \<Rightarrow> nat \<Rightarrow> bool" where
  "better q a b =
     (let na = slotAt q a; nb = slotAt q b in
      if rank (nt_signal na) \<noteq> rank (nt_signal nb) then rank (nt_signal na) > rank (nt_signal nb)
      else if nt_priority na \<noteq> nt_priority nb then nt_priority na > nt_priority nb
      else seqAt q a < seqAt q b)"

definition sameSignal :: "Notification \<Rightarrow> Notification \<Rightarrow> bool" where
  "sameSignal n q \<longleftrightarrow> nt_signal q = nt_signal n \<and> nt_type q = nt_type n"

definition queue_push :: "Notification \<Rightarrow> NotificationQueue \<Rightarrow> bool \<times> NotificationQueue" where
  "queue_push n q =
     (if list_ex (\<lambda>i. sameSignal n (slotAt q i)) [0..<nq_count q] then (True, q)
      else if nq_count q \<ge> kDepth then (False, q)
      else (True, q\<lparr>nq_slots := (nq_slots q)[slotIdx q (nq_count q) := n],
                     nq_seq := (nq_seq q)[slotIdx q (nq_count q) := nq_nextSeq q],
                     nq_nextSeq := nq_nextSeq q + 1, nq_count := nq_count q + 1\<rparr>))"

definition bestIdx :: "NotificationQueue \<Rightarrow> nat" where
  "bestIdx q = fold (\<lambda>i best. if better q i best then i else best) [1..<nq_count q] 0"

definition shiftDown :: "nat \<Rightarrow> NotificationQueue \<Rightarrow> NotificationQueue" where
  "shiftDown i q = q\<lparr>nq_slots := (nq_slots q)[slotIdx q i := slotAt q (i + 1)],
                     nq_seq := (nq_seq q)[slotIdx q i := seqAt q (i + 1)]\<rparr>"

definition queue_pop :: "NotificationQueue \<Rightarrow> Notification option \<times> NotificationQueue" where
  "queue_pop q =
     (if nq_count q = 0 then (None, q)
      else
        let best = bestIdx q; out = slotAt q best;
            q = fold shiftDown [best..<nq_count q - 1] q
        in (Some out, q\<lparr>nq_count := nq_count q - 1\<rparr>))"

definition queue_clear :: "NotificationQueue \<Rightarrow> NotificationQueue" where
  "queue_clear q = q\<lparr>nq_count := 0\<rparr>"

subsection \<open>The contract\<close>

text \<open>
  The order in which pending signals are taken: rank first, then the priority of the
  profile. Among equals the queue is first in, first out.
\<close>

definition urgency :: "Notification \<Rightarrow> nat" where
  "urgency n = rank (nt_signal n) * 256 + unat (nt_priority n)"

lemma urgency_less_iff:
  "urgency a < urgency b \<longleftrightarrow> rank (nt_signal a) < rank (nt_signal b) \<or>
     rank (nt_signal a) = rank (nt_signal b) \<and> nt_priority a < nt_priority b"
proof -
  have "unat (nt_priority a) < 256" "unat (nt_priority b) < 256"
    using unsigned_less [of "nt_priority a", where ?'a = nat] unsigned_less [of "nt_priority b", where ?'a = nat]
    by simp_all
  then show ?thesis by (simp add: urgency_def word_less_nat_alt) linarith
qed

fun pushNew :: "Notification \<Rightarrow> Notification list \<Rightarrow> Notification list" where
  "pushNew n xs = (if list_ex (sameSignal n) xs \<or> length xs \<ge> kDepth then xs else xs @ [n])"

declare pushNew.simps [simp del]

definition distinctSignals :: "Notification list \<Rightarrow> bool" where
  "distinctSignals xs \<longleftrightarrow> distinct (map (\<lambda>n. (nt_signal n, nt_type n)) xs)"

lemma distinctSignals_pushNew: "distinctSignals xs \<Longrightarrow> distinctSignals (pushNew n xs)"
  by (auto simp: distinctSignals_def pushNew.simps list_ex_iff sameSignal_def)

lemma length_pushNew: "length xs \<le> kDepth \<Longrightarrow> length (pushNew n xs) \<le> kDepth"
  by (simp add: pushNew.simps)

lemma set_pushNew: "set xs \<subseteq> set (pushNew n xs)" "set (pushNew n xs) \<subseteq> insert n (set xs)"
  by (auto simp: pushNew.simps)

locale signal_queue =
  fixes push :: "Notification \<Rightarrow> 'q \<Rightarrow> bool \<times> 'q"
    and pop :: "'q \<Rightarrow> Notification option \<times> 'q"
    and clear :: "'q \<Rightarrow> 'q"
    and items :: "'q \<Rightarrow> Notification list"
    and wf :: "nat \<Rightarrow> 'q \<Rightarrow> bool"
  assumes wf_mono: "wf (Suc k) q \<Longrightarrow> wf k q"
    and wf_push: "wf (Suc k) q \<Longrightarrow> wf k (snd (push n q))"
    and wf_pop: "wf k q \<Longrightarrow> wf k (snd (pop q))"
    and wf_clear: "wf k q \<Longrightarrow> wf k (clear q)"
    and push_items: "wf (Suc k) q \<Longrightarrow> items (snd (push n q)) = pushNew n (items q)"
    and push_ok: "wf (Suc k) q \<Longrightarrow>
      fst (push n q) \<longleftrightarrow> list_ex (sameSignal n) (items q) \<or> length (items q) < kDepth"
    and clear_items: "items (clear q) = []"
    and pop_empty: "items q = [] \<Longrightarrow> pop q = (None, q)"
    and pop_best: "wf k q \<Longrightarrow> items q \<noteq> [] \<Longrightarrow> \<exists>xs n ys. items q = xs @ n # ys \<and>
      fst (pop q) = Some n \<and> items (snd (pop q)) = xs @ ys \<and>
      (\<forall>x\<in>set xs. urgency x < urgency n) \<and> (\<forall>y\<in>set ys. urgency y \<le> urgency n)"
begin

fun drain :: "nat \<Rightarrow> 'q \<Rightarrow> Notification list" where
  "drain 0 q = []"
| "drain (Suc n) q = (case pop q of (None, q') \<Rightarrow> [] | (Some x, q') \<Rightarrow> x # drain n q')"

definition byUrgency :: "Notification list \<Rightarrow> Notification list" where
  "byUrgency xs = sort_key (\<lambda>n. - int (urgency n)) xs"

lemma byUrgency_split:
  assumes "\<forall>x\<in>set xs. urgency x < urgency n" "\<forall>y\<in>set ys. urgency y \<le> urgency n"
  shows "byUrgency (xs @ n # ys) = n # byUrgency (xs @ ys)"
proof -
  have "byUrgency (n # ys) = n # byUrgency ys"
    using assms(2) by (simp add: byUrgency_def insort_is_Cons)
  then show ?thesis
    using assms(1) by (induction xs) (auto simp: byUrgency_def)
qed

lemma pop_cases:
  assumes "wf k q"
  obtains (empty) "items q = []" "pop q = (None, q)"
  | (best) n q' where "pop q = (Some n, q')" "wf k q'" "byUrgency (items q) = n # byUrgency (items q')"
      "n \<in> set (items q)" "set (items q') \<subseteq> set (items q)" "length (items q) = Suc (length (items q'))"
proof (cases "items q = []")
  case True
  then show ?thesis using pop_empty empty by blast
next
  case False
  from pop_best [OF assms this] obtain xs n ys where *: "items q = xs @ n # ys" "fst (pop q) = Some n"
      "items (snd (pop q)) = xs @ ys"
      "\<forall>x\<in>set xs. urgency x < urgency n" "\<forall>y\<in>set ys. urgency y \<le> urgency n"
    by blast
  then have "pop q = (Some n, snd (pop q))" by (simp add: prod_eq_iff)
  then show ?thesis
    by (rule best) (use * wf_pop [OF assms] in \<open>auto simp: byUrgency_split\<close>)
qed

lemma drain_sorted:
  "wf k q \<Longrightarrow> length (items q) \<le> n \<Longrightarrow> drain n q = byUrgency (items q)"
proof (induction n arbitrary: q)
  case 0
  then show ?case by (simp add: byUrgency_def)
next
  case (Suc n)
  from Suc.prems(1) show ?case
  proof (cases rule: pop_cases)
    case empty
    then show ?thesis by (simp add: byUrgency_def)
  next
    case (best m q')
    then show ?thesis using Suc.IH [of q'] Suc.prems(2) by simp
  qed
qed

lemma wf_weaken: "wf (k + j) q \<Longrightarrow> wf k q"
  by (induction j) (auto intro: wf_mono)

lemma push_all_items:
  "wf (length ns + k) q \<Longrightarrow>
   items (fold (\<lambda>n q. snd (push n q)) ns q) = fold pushNew ns (items q) \<and>
   wf k (fold (\<lambda>n q. snd (push n q)) ns q)"
proof (induction ns arbitrary: q)
  case (Cons n ns)
  then show ?case using wf_push [of "length ns + k" q n] push_items [of "length ns + k" q n] by simp
qed simp

end

subsection \<open>The circular buffer keeps the contract\<close>

definition queueItems :: "NotificationQueue \<Rightarrow> Notification list" where
  "queueItems q = map (slotAt q) [0..<nq_count q]"

text \<open>
  Well-formedness: the arrays have their depth and the sequence numbers grow along the
  queue, with \<open>k\<close> more to hand out before the 32-bit counter wraps.
\<close>

definition queueWf :: "nat \<Rightarrow> NotificationQueue \<Rightarrow> bool" where
  "queueWf k q \<longleftrightarrow> length (nq_slots q) = kDepth \<and> length (nq_seq q) = kDepth \<and> nq_count q \<le> kDepth \<and>
     unat (nq_nextSeq q) + k < 2 ^ 32 \<and>
     (\<forall>i < nq_count q. seqAt q i < nq_nextSeq q) \<and>
     (\<forall>j < nq_count q. \<forall>i < j. seqAt q i < seqAt q j)"

lemma slotIdx_less [simp]: "slotIdx q i < kDepth"
  by (simp add: slotIdx_def)

lemma slotIdx_eq [simp]:
  assumes "i < kDepth" "j < kDepth" shows "slotIdx q i = slotIdx q j \<longleftrightarrow> i = j"
proof
  assume "slotIdx q i = slotIdx q j"
  then obtain a b where "nq_head q + i + 12 * a = nq_head q + j + 12 * b"
    unfolding slotIdx_def nat_mod_eq_iff by blast
  then have "i + 12 * a = j + 12 * b" by linarith
  then show "i = j" using assms by presburger
qed simp

lemma slotIdx_cong [simp]:
  "slotIdx (q\<lparr>nq_slots := s\<rparr>) i = slotIdx q i" "slotIdx (q\<lparr>nq_seq := e\<rparr>) i = slotIdx q i"
  "slotIdx (q\<lparr>nq_nextSeq := m\<rparr>) i = slotIdx q i" "slotIdx (q\<lparr>nq_count := c\<rparr>) i = slotIdx q i"
  by (simp_all add: slotIdx_def)

lemma queue_push_items:
  assumes "queueWf k q"
  shows "queueItems (snd (queue_push n q)) = pushNew n (queueItems q)"
  using assms
  by (auto simp: queueItems_def queue_push_def pushNew.simps queueWf_def slotAt_def list_ex_iff
      intro!: nth_equalityI simp: nth_append nth_list_update)

lemma queue_push_wf:
  assumes "queueWf (Suc k) q" shows "queueWf k (snd (queue_push n q))"
proof (cases "list_ex (\<lambda>i. sameSignal n (slotAt q i)) [0..<nq_count q] \<or> nq_count q \<ge> kDepth")
  case True
  then show ?thesis using assms by (auto simp: queue_push_def queueWf_def)
next
  case False
  define q' where "q' = snd (queue_push n q)"
  have q': "nq_nextSeq q' = nq_nextSeq q + 1" "nq_count q' = Suc (nq_count q)"
      "length (nq_slots q') = kDepth" "length (nq_seq q') = kDepth"
    using False assms by (auto simp: q'_def queue_push_def queueWf_def)
  have nx: "unat (nq_nextSeq q + 1) = Suc (unat (nq_nextSeq q))"
    using assms by (simp add: queueWf_def unat_word_ariths)
  have s: "seqAt q' i = (if i = nq_count q then nq_nextSeq q else seqAt q i)" if "i \<le> nq_count q" for i
    using False assms that by (auto simp: q'_def queue_push_def queueWf_def seqAt_def nth_list_update)
  have old: "seqAt q i < nq_nextSeq q" if "i < nq_count q" for i
    using assms that by (simp add: queueWf_def)
  have "seqAt q' i < nq_nextSeq q'" if "i < nq_count q'" for i
    using that s [of i] old [of i] nx by (auto simp: q' word_less_nat_alt)
  moreover have "seqAt q' i < seqAt q' j" if "j < nq_count q'" "i < j" for i j
    using that s [of i] s [of j] old [of i] assms by (auto simp: q' queueWf_def)
  ultimately show ?thesis
    using q' nx assms False unfolding q'_def [symmetric] by (simp add: queueWf_def)
qed

lemma better_later:
  assumes "queueWf k q" "i < j" "j < nq_count q"
  shows "better q j i \<longleftrightarrow> urgency (slotAt q i) < urgency (slotAt q j)"
proof -
  have "\<not> seqAt q j < seqAt q i" using assms by (auto simp: queueWf_def dest: less_asym)
  then show ?thesis by (auto simp: better_def Let_def urgency_less_iff)
qed

lemma bestIdx_best:
  assumes "queueWf k q" "0 < n" "n \<le> nq_count q"
  shows "let best = fold (\<lambda>i best. if better q i best then i else best) [1..<n] 0 in
    best < n \<and> (\<forall>i<best. urgency (slotAt q i) < urgency (slotAt q best)) \<and>
    (\<forall>i<n. best < i \<longrightarrow> urgency (slotAt q i) \<le> urgency (slotAt q best))"
  using assms(2, 3)
proof (induction n rule: nat_induct_non_zero)
  case (Suc n)
  define f where "f = (\<lambda>i best. if better q i best then i else best)"
  define b where "b = fold f [1..<n] 0"
  have IH: "b < n" "\<forall>i<b. urgency (slotAt q i) < urgency (slotAt q b)"
      "\<forall>i<n. b < i \<longrightarrow> urgency (slotAt q i) \<le> urgency (slotAt q b)"
    using Suc.IH Suc.prems by (simp_all add: b_def f_def Let_def)
  have le: "urgency (slotAt q i) \<le> urgency (slotAt q b)" if "i < n" for i
    using IH that by (cases i b rule: linorder_cases) auto
  have "better q n b \<longleftrightarrow> urgency (slotAt q b) < urgency (slotAt q n)"
    by (rule better_later [OF assms(1)]) (use IH Suc.prems in auto)
  moreover have "fold f [1..<Suc n] 0 = (if better q n b then n else b)"
    using Suc.hyps by (simp add: b_def) (simp add: f_def)
  ultimately show ?case
    using IH le Suc.hyps unfolding f_def [symmetric] by (auto simp: Let_def less_Suc_eq dest: le_less_trans)
qed simp

lemma shiftDown_simps [simp]:
  "slotIdx (shiftDown i q) = slotIdx q" "nq_count (shiftDown i q) = nq_count q"
  "nq_nextSeq (shiftDown i q) = nq_nextSeq q"
  "length (nq_slots (shiftDown i q)) = length (nq_slots q)"
  "length (nq_seq (shiftDown i q)) = length (nq_seq q)"
  by (simp_all add: shiftDown_def slotIdx_def fun_eq_iff)

lemma shiftDown_at:
  assumes "length (nq_slots q) = kDepth" "length (nq_seq q) = kDepth" "i < kDepth" "j < kDepth"
  shows "slotAt (shiftDown i q) j = (if j = i then slotAt q (i + 1) else slotAt q j)"
    and "seqAt (shiftDown i q) j = (if j = i then seqAt q (i + 1) else seqAt q j)"
  using assms by (simp_all add: slotAt_def seqAt_def nth_list_update) (simp_all add: shiftDown_def nth_list_update slotAt_def seqAt_def)

lemma fold_shiftDown:
  fixes b :: nat
  assumes "length (nq_slots q) = kDepth" "length (nq_seq q) = kDepth" "m < kDepth"
  defines "r \<equiv> \<lambda>m. fold shiftDown [b..<m] q"
  shows "length (nq_slots (r m)) = kDepth \<and> length (nq_seq (r m)) = kDepth \<and>
    nq_count (r m) = nq_count q \<and> nq_nextSeq (r m) = nq_nextSeq q \<and>
    (\<forall>j<kDepth. slotAt (r m) j = slotAt q (if b \<le> j \<and> j < m then j + 1 else j) \<and>
      seqAt (r m) j = seqAt q (if b \<le> j \<and> j < m then j + 1 else j))"
  using assms(3)
proof (induction m)
  case 0
  then show ?case using assms by simp
next
  case (Suc m)
  then have IH: "length (nq_slots (r m)) = kDepth" "length (nq_seq (r m)) = kDepth"
      "nq_count (r m) = nq_count q" "nq_nextSeq (r m) = nq_nextSeq q"
      "\<And>j. j < kDepth \<Longrightarrow> slotAt (r m) j = slotAt q (if b \<le> j \<and> j < m then j + 1 else j)"
      "\<And>j. j < kDepth \<Longrightarrow> seqAt (r m) j = seqAt q (if b \<le> j \<and> j < m then j + 1 else j)"
    by simp_all
  show ?case
  proof (cases "b \<le> m")
    case True
    then have "r (Suc m) = shiftDown m (r m)" by (simp add: r_def)
    then show ?thesis
      using IH Suc.prems True by (auto simp: shiftDown_at)
  next
    case False
    then have "r (Suc m) = q" by (simp add: r_def)
    then show ?thesis using False assms by auto
  qed
qed

lemma count_fold_shiftDown [simp]: "nq_count (fold shiftDown is q) = nq_count q"
  by (induction "is" arbitrary: q) simp_all

lemma queue_pop_effect:
  assumes "queueWf k q" "nq_count q > 0"
  defines "q' \<equiv> snd (queue_pop q)" and "best \<equiv> bestIdx q"
  shows "fst (queue_pop q) = Some (slotAt q best) \<and> nq_count q' = nq_count q - 1 \<and>
    nq_nextSeq q' = nq_nextSeq q \<and> length (nq_slots q') = kDepth \<and> length (nq_seq q') = kDepth \<and>
    (\<forall>j < nq_count q - 1. slotAt q' j = slotAt q (if best \<le> j then j + 1 else j) \<and>
       seqAt q' j = seqAt q (if best \<le> j then j + 1 else j))"
proof -
  define r where "r = fold shiftDown [best..<nq_count q - 1] q"
  have "q' = r\<lparr>nq_count := nq_count q - 1\<rparr>" "fst (queue_pop q) = Some (slotAt q best)"
    using assms(2) by (simp_all add: q'_def queue_pop_def r_def best_def Let_def)
  moreover have "slotAt (r\<lparr>nq_count := c\<rparr>) = slotAt r" "seqAt (r\<lparr>nq_count := c\<rparr>) = seqAt r" for c
    by (simp_all add: slotAt_def seqAt_def fun_eq_iff)
  moreover have "nq_count q - 1 < kDepth" "length (nq_slots q) = kDepth" "length (nq_seq q) = kDepth"
    using assms(1, 2) by (auto simp: queueWf_def)
  ultimately show ?thesis
    using fold_shiftDown [of q "nq_count q - 1" best] by (simp add: r_def)
qed

lemma queue_pop_wf:
  assumes "queueWf k q" shows "queueWf k (snd (queue_pop q))"
proof (cases "nq_count q > 0")
  case True
  show ?thesis
    using assms queue_pop_effect [OF assms True] unfolding queueWf_def by auto
qed (use assms in \<open>simp add: queue_pop_def\<close>)

lemma queue_pop_best:
  assumes "queueWf k q" "queueItems q \<noteq> []"
  shows "\<exists>xs n ys. queueItems q = xs @ n # ys \<and> fst (queue_pop q) = Some n \<and>
    queueItems (snd (queue_pop q)) = xs @ ys \<and>
    (\<forall>x\<in>set xs. urgency x < urgency n) \<and> (\<forall>y\<in>set ys. urgency y \<le> urgency n)"
proof -
  have c: "nq_count q > 0" using assms(2) by (simp add: queueItems_def)
  define b where "b = bestIdx q"
  have b: "b < nq_count q" "\<forall>i<b. urgency (slotAt q i) < urgency (slotAt q b)"
      "\<forall>i<nq_count q. b < i \<longrightarrow> urgency (slotAt q i) \<le> urgency (slotAt q b)"
    using bestIdx_best [OF assms(1) c order_refl] by (simp_all add: b_def bestIdx_def Let_def)
  define xs where "xs = map (slotAt q) [0..<b]"
  define ys where "ys = map (slotAt q) [Suc b..<nq_count q]"
  have "queueItems q = xs @ slotAt q b # ys"
    using b(1) upt_add_eq_append [of 0 b "nq_count q - b"]
    by (simp add: queueItems_def xs_def ys_def upt_conv_Cons)
  moreover have "queueItems (snd (queue_pop q)) = xs @ ys"
    using queue_pop_effect [OF assms(1) c] b(1)
    by (intro nth_equalityI) (auto simp: queueItems_def xs_def ys_def nth_append b_def)
  moreover have "fst (queue_pop q) = Some (slotAt q b)"
    using queue_pop_effect [OF assms(1) c] by (simp add: b_def)
  moreover have "\<forall>x\<in>set xs. urgency x < urgency (slotAt q b)" "\<forall>y\<in>set ys. urgency y \<le> urgency (slotAt q b)"
    using b by (auto simp: xs_def ys_def)
  ultimately show ?thesis by blast
qed

interpretation ring: signal_queue queue_push queue_pop queue_clear queueItems queueWf
proof
  fix q :: NotificationQueue and k n
  show "queueWf (Suc k) q \<Longrightarrow> queueWf k q" by (simp add: queueWf_def)
  show "queueWf (Suc k) q \<Longrightarrow> queueWf k (snd (queue_push n q))" by (rule queue_push_wf)
  show "queueWf k q \<Longrightarrow> queueWf k (snd (queue_pop q))" by (rule queue_pop_wf)
  show "queueWf k q \<Longrightarrow> queueWf k (queue_clear q)" by (simp add: queueWf_def queue_clear_def)
  show "queueWf (Suc k) q \<Longrightarrow> queueItems (snd (queue_push n q)) = pushNew n (queueItems q)"
    by (rule queue_push_items)
  show "queueWf (Suc k) q \<Longrightarrow>
      fst (queue_push n q) \<longleftrightarrow> list_ex (sameSignal n) (queueItems q) \<or> length (queueItems q) < kDepth"
    by (auto simp: queue_push_def queueItems_def list_ex_iff)
  show "queueItems (queue_clear q) = []" by (simp add: queueItems_def queue_clear_def)
  show "queueItems q = [] \<Longrightarrow> queue_pop q = (None, q)" by (simp add: queueItems_def queue_pop_def)
  show "queueWf k q \<Longrightarrow> queueItems q \<noteq> [] \<Longrightarrow> \<exists>xs n ys. queueItems q = xs @ n # ys \<and>
      fst (queue_pop q) = Some n \<and> queueItems (snd (queue_pop q)) = xs @ ys \<and>
      (\<forall>x\<in>set xs. urgency x < urgency n) \<and> (\<forall>y\<in>set ys. urgency y \<le> urgency n)"
    by (rule queue_pop_best)
qed

lemma initQueue_wf: "k < 2 ^ 32 \<Longrightarrow> queueWf k initQueue"
  by (simp add: queueWf_def initQueue_def)

lemma initQueue_items [simp]: "queueItems initQueue = []"
  by (simp add: queueItems_def initQueue_def)

subsection \<open>The queue as a priority list\<close>

datatype QueueOp = Push Notification | Pop | Clear
datatype QueueOut = Pushed bool | Popped "Notification option" | Cleared

fun queueStep :: "QueueOp \<Rightarrow> NotificationQueue \<Rightarrow> QueueOut \<times> NotificationQueue" where
  "queueStep (Push n) q = (case queue_push n q of (ok, q') \<Rightarrow> (Pushed ok, q'))"
| "queueStep Pop q = (case queue_pop q of (r, q') \<Rightarrow> (Popped r, q'))"
| "queueStep Clear q = (Cleared, queue_clear q)"

fun queueRun :: "QueueOp list \<Rightarrow> NotificationQueue \<Rightarrow> QueueOut list \<times> NotificationQueue" where
  "queueRun [] q = ([], q)"
| "queueRun (x # ops) q =
     (case queueStep x q of (r, q') \<Rightarrow> (case queueRun ops q' of (rs, q'') \<Rightarrow> (r # rs, q'')))"

text \<open>
  The abstract queue: a list of pending signals in the order of their arrival, no two of the
  same signal and type, at most \<open>kDepth\<close>; taken is the first of the most urgent ones.
\<close>

definition mostUrgent :: "Notification list \<Rightarrow> Notification" where
  "mostUrgent xs = hd (sort_key (\<lambda>n. - int (urgency n)) xs)"

fun listStep :: "QueueOp \<Rightarrow> Notification list \<Rightarrow> QueueOut \<times> Notification list" where
  "listStep (Push n) xs = (Pushed (list_ex (sameSignal n) xs \<or> length xs < kDepth), pushNew n xs)"
| "listStep Pop xs = (if xs = [] then (Popped None, []) else (Popped (Some (mostUrgent xs)), remove1 (mostUrgent xs) xs))"
| "listStep Clear xs = (Cleared, [])"

fun listRun :: "QueueOp list \<Rightarrow> Notification list \<Rightarrow> QueueOut list \<times> Notification list" where
  "listRun [] xs = ([], xs)"
| "listRun (x # ops) xs =
     (case listStep x xs of (r, xs') \<Rightarrow> (case listRun ops xs' of (rs, xs'') \<Rightarrow> (r # rs, xs'')))"

lemma remove1_split: "\<forall>x\<in>set xs. urgency x < urgency n \<Longrightarrow> remove1 n (xs @ n # ys) = xs @ ys"
  by (induction xs) auto

lemma queueStep_refines:
  assumes "queueWf (Suc k) q"
  shows "fst (queueStep x q) = fst (listStep x (queueItems q)) \<and>
    queueItems (snd (queueStep x q)) = snd (listStep x (queueItems q)) \<and> queueWf k (snd (queueStep x q))"
proof (cases x)
  case (Push n)
  then show ?thesis
    using ring.push_items [OF assms] ring.push_ok [OF assms] ring.wf_push [OF assms]
    by (simp add: split_beta)
next
  case Pop
  show ?thesis
  proof (cases "queueItems q = []")
    case True
    then show ?thesis using Pop ring.pop_empty ring.wf_mono [OF assms] by simp
  next
    case False
    from ring.pop_best [OF assms this] obtain xs n ys where *: "queueItems q = xs @ n # ys"
        "fst (queue_pop q) = Some n" "queueItems (snd (queue_pop q)) = xs @ ys"
        "\<forall>z\<in>set xs. urgency z < urgency n" "\<forall>y\<in>set ys. urgency y \<le> urgency n"
      by blast
    have "mostUrgent (queueItems q) = n"
      using ring.byUrgency_split [OF *(4, 5)] *(1) by (simp add: mostUrgent_def ring.byUrgency_def)
    then show ?thesis
      using Pop * False ring.wf_mono [OF ring.wf_pop [OF assms]] by (simp add: split_beta remove1_split)
  qed
next
  case Clear
  then show ?thesis using ring.clear_items ring.wf_clear [OF ring.wf_mono [OF assms]] by simp
qed

lemma queueRun_refines:
  "queueWf (length ops + k) q \<Longrightarrow>
   fst (queueRun ops q) = fst (listRun ops (queueItems q)) \<and>
   queueItems (snd (queueRun ops q)) = snd (listRun ops (queueItems q)) \<and> queueWf k (snd (queueRun ops q))"
proof (induction ops arbitrary: q)
  case (Cons x ops)
  then have "queueWf (Suc (length ops + k)) q" by simp
  note step = queueStep_refines [OF this, of x]
  then show ?case using Cons.IH [of "snd (queueStep x q)"] by (simp add: split_beta)
qed simp

lemma listStep_distinct:
  "distinctSignals xs \<Longrightarrow> length xs \<le> kDepth \<Longrightarrow>
   distinctSignals (snd (listStep x xs)) \<and> length (snd (listStep x xs)) \<le> kDepth"
proof (cases x)
  case Pop
  have "distinctSignals xs \<Longrightarrow> distinctSignals (remove1 y xs)" for y
    unfolding distinctSignals_def by (induction xs) (auto dest: in_set_remove1 [THEN iffD1, rotated] notin_set_remove1)
  then show "distinctSignals xs \<Longrightarrow> length xs \<le> kDepth \<Longrightarrow> ?thesis"
    using Pop by (auto simp: length_remove1)
qed (auto simp: distinctSignals_pushNew length_pushNew distinctSignals_def [of "[]"])

lemma listRun_distinct:
  "distinctSignals xs \<Longrightarrow> length xs \<le> kDepth \<Longrightarrow>
   distinctSignals (snd (listRun ops xs)) \<and> length (snd (listRun ops xs)) \<le> kDepth"
proof (induction ops arbitrary: xs)
  case (Cons x ops)
  then show ?case using listStep_distinct [OF Cons.prems, of x] by (simp add: split_beta)
qed simp

text \<open>
  C18. The circular buffer implements the priority list: over any sequence of fewer than
  \<open>2 ^ 32\<close> pushes, pops and clears, starting empty, it answers exactly as the list does (what
  is accepted, coalesced or dropped, and which signal each pop returns), its contents are the
  list's, no signal is pending twice and there are never more than \<open>kDepth\<close>.
\<close>

theorem queue_refines_priority_list:
  assumes "length ops < 2 ^ 32"
  shows "fst (queueRun ops initQueue) = fst (listRun ops []) \<and>
    queueItems (snd (queueRun ops initQueue)) = snd (listRun ops []) \<and>
    distinctSignals (queueItems (snd (queueRun ops initQueue))) \<and>
    length (queueItems (snd (queueRun ops initQueue))) \<le> kDepth"
proof -
  have "queueWf (length ops + 0) initQueue" using assms by (simp add: initQueue_wf)
  from queueRun_refines [OF this] listRun_distinct [of "[]" ops] show ?thesis
    by (simp add: distinctSignals_def)
qed

theorem queue_refines_priority_list_witness:
  "let n = (\<lambda>s t p. \<lparr>nt_signal = s, nt_type = t, nt_priority = p\<rparr>);
       ops = [Push (n EndSig AirRaid 90), Push (n StartSig Nuclear 50), Push (n EndSig AirRaid 10),
              Push (n StartSig Chemical 80), Pop, Pop, Pop, Pop] in
   fst (queueRun ops initQueue) = fst (listRun ops []) \<and>
   drop 4 (fst (queueRun ops initQueue)) =
     map Popped [Some (n StartSig Chemical 80), Some (n StartSig Nuclear 50), Some (n EndSig AirRaid 90), None]"
proof -
  let ?n = "\<lambda>s t p. \<lparr>nt_signal = s, nt_type = t, nt_priority = p\<rparr>"
  let ?ops = "[Push (?n EndSig AirRaid 90), Push (?n StartSig Nuclear 50), Push (?n EndSig AirRaid 10),
              Push (?n StartSig Chemical 80), Pop, Pop, Pop, Pop]"
  have "fst (queueRun ?ops initQueue) = fst (listRun ?ops [])"
    using queue_refines_priority_list [of ?ops] by simp
  moreover have "drop 4 (fst (queueRun ?ops initQueue)) =
     map Popped [Some (?n StartSig Chemical 80), Some (?n StartSig Nuclear 50), Some (?n EndSig AirRaid 90), None]"
    by code_simp
  ultimately show ?thesis by (simp only: Let_def simp_thms)
qed

fun drainQueue :: "nat \<Rightarrow> NotificationQueue \<Rightarrow> Notification list" where
  "drainQueue 0 q = []"
| "drainQueue (Suc n) q = (case queue_pop q of (None, q') \<Rightarrow> [] | (Some x, q') \<Rightarrow> x # drainQueue n q')"

lemma drainQueue_drain: "drainQueue n q = ring.drain n q"
  by (induction n arbitrary: q) (auto split: prod.splits option.splits)

text \<open>
  Emptying a well-formed queue takes at most \<open>kDepth\<close> pops and yields the pending
  signals in the stable order of urgency: manual test, then start and escalation, then end,
  then reminder; within a rank the higher profile priority first; equals in arrival order.
\<close>

theorem queue_drains_by_urgency:
  assumes "queueWf k q"
  shows "drainQueue kDepth q = sort_key (\<lambda>n. - int (urgency n)) (queueItems q)"
proof -
  have "length (queueItems q) \<le> kDepth" using assms by (simp add: queueItems_def queueWf_def)
  from ring.drain_sorted [OF assms this] show ?thesis
    by (simp add: drainQueue_drain ring.byUrgency_def)
qed

theorem queue_drains_by_urgency_witness:
  "drainQueue kDepth (snd (queue_push (defaultNotification\<lparr>nt_signal := EndSig\<rparr>) initQueue)) =
   [defaultNotification\<lparr>nt_signal := EndSig\<rparr>]"
proof -
  have wf: "queueWf (Suc 0) initQueue" by (simp add: initQueue_wf)
  show ?thesis
    using queue_drains_by_urgency [OF ring.wf_push [OF wf]] ring.push_items [OF wf]
    by (simp add: pushNew.simps)
qed

end
