(* ===== verification/NotificationEngine.thy ===== *)
theory NotificationEngine
  imports AlertEngine AlertProfiles MuteState NotificationQueue
begin

text \<open>
  \<open>lib/core/src/airalert/NotificationEngine.h\<close>: queue, scheduler, mute and profiles glued
  into the siren policy. Arrays over the alert types are functions; the loop that takes
  signals from the queue until one sounds is a recursive function that terminates because
  every pop shortens the queue.
\<close>

record NotifyConfig =
  nc_notifyEscalation :: bool
  nc_notifyAdditionalLocation :: bool
  nc_remindersWhenStale :: bool
  nc_manualTestMs :: u16

definition defaultNotifyConfig :: NotifyConfig where
  "defaultNotifyConfig = \<lparr>nc_notifyEscalation = True, nc_notifyAdditionalLocation = False,
     nc_remindersWhenStale = False, nc_manualTestMs = 600\<rparr>"

datatype StartupMode = NormalMode | SilentMode

record NotificationEngine =
  ne_profiles :: "AlertType \<Rightarrow> AlertProfile"
  ne_cfg :: NotifyConfig
  ne_testPattern :: Pattern
  ne_queue :: NotificationQueue
  ne_sched :: PatternScheduler
  ne_mute :: MuteState
  ne_current :: Notification
  ne_playing :: bool
  ne_apiStale :: bool
  ne_activeMask :: u8
  ne_lastReminderAt :: "AlertType \<Rightarrow> u32"

definition initNotify :: NotificationEngine where
  "initNotify = \<lparr>ne_profiles = defaultProfile, ne_cfg = defaultNotifyConfig,
     ne_testPattern = manualTestPattern, ne_queue = initQueue, ne_sched = initScheduler,
     ne_mute = initMute defaultMuteConfig, ne_current = defaultNotification, ne_playing = False,
     ne_apiStale = False, ne_activeMask = 0, ne_lastReminderAt = (\<lambda>_. 0)\<rparr>"

definition notify_setProfile :: "AlertType \<Rightarrow> AlertProfile \<Rightarrow> NotificationEngine \<Rightarrow> NotificationEngine" where
  "notify_setProfile t p e = e\<lparr>ne_profiles := (ne_profiles e)(t := p)\<rparr>"

definition notify_setMuteConfig :: "MuteConfig \<Rightarrow> NotificationEngine \<Rightarrow> NotificationEngine" where
  "notify_setMuteConfig c e = e\<lparr>ne_mute := mute_setConfig c (ne_mute e)\<rparr>"

definition notify_setConfig :: "NotifyConfig \<Rightarrow> NotificationEngine \<Rightarrow> NotificationEngine" where
  "notify_setConfig c e = e\<lparr>ne_cfg := c\<rparr>"

definition setApiStale :: "bool \<Rightarrow> NotificationEngine \<Rightarrow> NotificationEngine" where
  "setApiStale stale e = e\<lparr>ne_apiStale := stale\<rparr>"

definition pushNotification :: "Signal \<Rightarrow> AlertType \<Rightarrow> u8 \<Rightarrow> NotificationEngine \<Rightarrow> NotificationEngine" where
  "pushNotification s t prio e =
     e\<lparr>ne_queue := snd (queue_push \<lparr>nt_signal = s, nt_type = t, nt_priority = prio\<rparr> (ne_queue e))\<rparr>"

definition onEngineEvent :: "EngineEvent \<Rightarrow> StartupMode \<Rightarrow> u32 \<Rightarrow> NotificationEngine \<Rightarrow> NotificationEngine" where
  "onEngineEvent ev mode nowMs e =
     (let t = ee_type ev; p = ne_profiles e t in
      case ee_kind ev of
        Started \<Rightarrow>
          (let e = e\<lparr>ne_activeMask := maskSet (ne_activeMask e) (typeIdx t),
                     ne_lastReminderAt := (ne_lastReminderAt e)(t := nowMs)\<rparr> in
           if \<not> ap_enabled p \<or> mode = SilentMode then e
           else
             let e = pushNotification StartSig t (ap_priority p) e in
             if ne_playing e \<and> canPreempt \<lparr>nt_signal = StartSig, nt_type = t, nt_priority = ap_priority p\<rparr> (ne_current e)
             then e\<lparr>ne_sched := sched_stop (ne_sched e), ne_playing := False\<rparr>
             else e)
      | Escalated \<Rightarrow>
          (if ap_enabled p \<and> nc_notifyEscalation (ne_cfg e)
           then pushNotification Escalation t (ap_priority p) e else e)
      | Ended \<Rightarrow>
          (let e = e\<lparr>ne_activeMask := maskClear (ne_activeMask e) (typeIdx t)\<rparr>;
               e = (if ap_enabled p \<and> mode \<noteq> SilentMode then pushNotification EndSig t (ap_priority p) e else e)
           in if ne_activeMask e = 0 then e\<lparr>ne_mute := mute_onAllClear (ne_mute e)\<rparr> else e)
      | LocationAdded \<Rightarrow>
          (if ap_enabled p \<and> nc_notifyAdditionalLocation (ne_cfg e)
           then pushNotification Escalation t (ap_priority p) e else e)
      | CoverageReduced \<Rightarrow> e
      | NoAlertEvent \<Rightarrow> e)"

definition stopAll :: "NotificationEngine \<Rightarrow> NotificationEngine" where
  "stopAll e = e\<lparr>ne_sched := sched_stop (ne_sched e), ne_queue := queue_clear (ne_queue e), ne_playing := False\<rparr>"

definition resetAlertState :: "NotificationEngine \<Rightarrow> NotificationEngine" where
  "resetAlertState e = (stopAll e)\<lparr>ne_activeMask := 0, ne_lastReminderAt := (\<lambda>_. 0),
     ne_mute := mute_onAllClear (ne_mute e)\<rparr>"

definition doMute :: "MuteScope \<Rightarrow> u32 \<Rightarrow> NotificationEngine \<Rightarrow> NotificationEngine" where
  "doMute scope nowMs e = e\<lparr>ne_sched := sched_stop (ne_sched e), ne_queue := queue_clear (ne_queue e),
     ne_playing := False, ne_mute := mute scope nowMs (ne_activeMask e) (ne_mute e)\<rparr>"

definition muteShort :: "u32 \<Rightarrow> NotificationEngine \<Rightarrow> NotificationEngine" where
  "muteShort nowMs e = doMute UntilClear nowMs e"

definition muteLong :: "u32 \<Rightarrow> NotificationEngine \<Rightarrow> NotificationEngine" where
  "muteLong nowMs e = doMute Snooze nowMs e"

definition notify_unmute :: "NotificationEngine \<Rightarrow> NotificationEngine" where
  "notify_unmute e = e\<lparr>ne_mute := unmute (ne_mute e)\<rparr>"

definition playTest :: "Pattern \<Rightarrow> NotificationEngine \<Rightarrow> NotificationEngine" where
  "playTest p e = pushNotification ManualTest UnknownType 255 (e\<lparr>ne_testPattern := p\<rparr>)"

definition manualTest :: "NotificationEngine \<Rightarrow> NotificationEngine" where
  "manualTest e = playTest (pulses (ucast (nc_manualTestMs (ne_cfg e))) 0 1 True) e"

definition patternFor :: "NotificationEngine \<Rightarrow> AlertProfile \<Rightarrow> Signal \<Rightarrow> Pattern" where
  "patternFor e p s = (case s of
     StartSig \<Rightarrow> ap_start p | Escalation \<Rightarrow> ap_start p | EndSig \<Rightarrow> ap_end p
   | Reminder \<Rightarrow> ap_reminder p | ManualTest \<Rightarrow> ne_testPattern e)"

definition reminderDue :: "NotificationEngine \<Rightarrow> u32 \<Rightarrow> AlertType \<Rightarrow> bool" where
  "reminderDue e nowMs t \<longleftrightarrow>
     (let p = ne_profiles e t in
      ne_activeMask e AND bitMask (typeIdx t) \<noteq> 0 \<and> ap_enabled p \<and> pat_enabled (ap_reminder p) \<and>
      (\<not> ne_apiStale e \<or> nc_remindersWhenStale (ne_cfg e)) \<and>
      intervalPassed nowMs (ne_lastReminderAt e t) (ap_reminderIntervalMs p))"

definition remindType :: "u32 \<Rightarrow> AlertType \<Rightarrow> NotificationEngine \<Rightarrow> NotificationEngine" where
  "remindType nowMs t e =
     (if reminderDue e nowMs t
      then pushNotification Reminder t (ap_priority (ne_profiles e t))
             (e\<lparr>ne_lastReminderAt := (ne_lastReminderAt e)(t := nowMs)\<rparr>)
      else e)"

lemma count_queue_pop: "queue_pop q = (Some n, q') \<Longrightarrow> nq_count q' < nq_count q"
  by (auto simp: queue_pop_def Let_def split: if_splits)

text \<open>The loop \<open>while (queue_.pop(n))\<close>.\<close>

function popLoop :: "u32 \<Rightarrow> NotificationEngine \<Rightarrow> bool \<times> NotificationEngine" where
  "popLoop nowMs e =
     (case queue_pop (ne_queue e) of
        (None, q) \<Rightarrow> (False, e\<lparr>ne_queue := q\<rparr>)
      | (Some n, q) \<Rightarrow>
          let e = e\<lparr>ne_queue := q\<rparr>;
              (silent, m) = (if nt_signal n \<noteq> ManualTest then shouldSilence (nt_type n) nowMs (ne_mute e)
                             else (False, ne_mute e));
              e = e\<lparr>ne_mute := m\<rparr>
          in if silent then popLoop nowMs e
             else
               let e = e\<lparr>ne_current := n,
                         ne_sched := sched_start (patternFor e (ne_profiles e (nt_type n)) (nt_signal n)) nowMs (ne_sched e)\<rparr>
               in if sch_running (ne_sched e)
                  then let (out, s) = sched_tick (ne_sched e) nowMs
                       in (out, e\<lparr>ne_playing := True, ne_sched := s\<rparr>)
                  else popLoop nowMs e)"
  by pat_completeness auto
termination
  by (relation "measure (\<lambda>(_, e). nq_count (ne_queue e))") (auto dest: sym [THEN count_queue_pop])

declare popLoop.simps [simp del]

definition notify_tick :: "u32 \<Rightarrow> NotificationEngine \<Rightarrow> bool \<times> NotificationEngine" where
  "notify_tick nowMs e =
     (let e = fold (remindType nowMs) allTypes e in
      if ne_playing e
      then let (out, s) = sched_tick (ne_sched e) nowMs; e = e\<lparr>ne_sched := s\<rparr>
           in if \<not> sch_running s
              then (out, e\<lparr>ne_playing := False, ne_mute := mute_onPatternFinished (ne_mute e)\<rparr>)
              else (out, e)
      else popLoop nowMs e)"

subsection \<open>The pop loop and the reminders\<close>

lemma sched_start_running:
  "sch_running (sched_start p t s) \<longleftrightarrow> pat_enabled p \<and> pat_repeat p > 0 \<and> hasOn p"
  by (auto simp: sched_start_def skipSilence_def hasOn_def)

text \<open>Whether a signal would be silenced, and whether it would sound.\<close>

definition silenced :: "MuteState \<Rightarrow> u32 \<Rightarrow> Notification \<Rightarrow> bool" where
  "silenced m nowMs n \<longleftrightarrow> nt_signal n \<noteq> ManualTest \<and> fst (shouldSilence (nt_type n) nowMs m)"

definition playable :: "NotificationEngine \<Rightarrow> Notification \<Rightarrow> bool" where
  "playable e n \<longleftrightarrow>
     (let p = patternFor e (ne_profiles e (nt_type n)) (nt_signal n)
      in pat_enabled p \<and> pat_repeat p > 0 \<and> hasOn p)"

definition audible :: "NotificationEngine \<Rightarrow> u32 \<Rightarrow> Notification \<Rightarrow> bool" where
  "audible e nowMs n \<longleftrightarrow> \<not> silenced (ne_mute e) nowMs n \<and> playable e n"

lemma shouldSilence_again [simp]:
  "fst (shouldSilence u t (snd (shouldSilence v t m))) = fst (shouldSilence u t m)"
  by (auto simp: shouldSilence_def unmute_def)

lemma silenced_again [simp]:
  "silenced (snd (shouldSilence v t m)) t n \<longleftrightarrow> silenced m t n"
  by (simp add: silenced_def)

lemma patternFor_cong [simp]:
  "patternFor (e\<lparr>ne_queue := q\<rparr>) = patternFor e" "patternFor (e\<lparr>ne_mute := m\<rparr>) = patternFor e"
  "patternFor (e\<lparr>ne_sched := s\<rparr>) = patternFor e" "patternFor (e\<lparr>ne_current := c\<rparr>) = patternFor e"
  "patternFor (e\<lparr>ne_lastReminderAt := l\<rparr>) = patternFor e"
  by (simp_all add: patternFor_def fun_eq_iff split: Signal.split)

text \<open>What the pop loop leaves alone.\<close>

definition sameSetup :: "NotificationEngine \<Rightarrow> NotificationEngine \<Rightarrow> bool" where
  "sameSetup e e' \<longleftrightarrow> ne_profiles e' = ne_profiles e \<and> ne_cfg e' = ne_cfg e \<and>
     ne_testPattern e' = ne_testPattern e \<and> ne_apiStale e' = ne_apiStale e \<and>
     ne_activeMask e' = ne_activeMask e"

lemma sameSetup_refl [simp]: "sameSetup e e"
  by (simp add: sameSetup_def)

lemma playable_cong: "sameSetup e e' \<Longrightarrow> playable e' = playable e"
  by (auto simp: playable_def sameSetup_def patternFor_def fun_eq_iff Let_def split: Signal.splits)

lemma popLoop_None: "queue_pop (ne_queue e) = (None, q) \<Longrightarrow> popLoop t e = (False, e\<lparr>ne_queue := q\<rparr>)"
  by (subst popLoop.simps) simp

text \<open>The engine after taking \<open>n\<close>, which is silenced or cannot be played.\<close>

definition skipped :: "u32 \<Rightarrow> Notification \<Rightarrow> NotificationQueue \<Rightarrow> NotificationEngine \<Rightarrow> NotificationEngine" where
  "skipped t n q e =
     (let e' = e\<lparr>ne_queue := q, ne_mute := (if nt_signal n \<noteq> ManualTest
                   then snd (shouldSilence (nt_type n) t (ne_mute e)) else ne_mute e)\<rparr>
      in if silenced (ne_mute e) t n then e'
         else e'\<lparr>ne_current := n, ne_sched :=
                sched_start (patternFor e (ne_profiles e (nt_type n)) (nt_signal n)) t (ne_sched e)\<rparr>)"

lemma popLoop_Some:
  assumes "queue_pop (ne_queue e) = (Some n, q)"
  shows "popLoop t e =
    (if audible e t n
     then (let e' = skipped t n q e; r = sched_tick (ne_sched e') t
           in (fst r, e'\<lparr>ne_playing := True, ne_sched := snd r\<rparr>))
     else popLoop t (skipped t n q e))"
  using assms
  by (subst popLoop.simps)
    (auto simp: skipped_def audible_def silenced_def playable_def Let_def sched_start_running split_beta)

lemma skipped_simps [simp]:
  "sameSetup e (skipped t n q e)" "ne_queue (skipped t n q e) = q"
  "ne_lastReminderAt (skipped t n q e) = ne_lastReminderAt e" "ne_playing (skipped t n q e) = ne_playing e"
  "silenced (ne_mute (skipped t n q e)) t = silenced (ne_mute e) t"
  by (simp_all add: skipped_def Let_def sameSetup_def fun_eq_iff)

lemma audible_skipped [simp]: "audible (skipped t n q e) t = audible e t"
  using playable_cong [OF skipped_simps(1) [of e t n q]] by (simp add: audible_def fun_eq_iff)

text \<open>
  The loop takes the pending signals in the order of urgency and stops at the first one
  that is neither silenced nor empty: that one is playing, and what is less urgent is left.
\<close>

fun popSpec :: "u32 \<Rightarrow> NotificationEngine \<Rightarrow> Notification list \<Rightarrow> bool \<times> NotificationEngine \<Rightarrow> bool" where
  "popSpec t e [] (out, e') = (\<not> out \<and> ne_playing e' = ne_playing e \<and> queueItems (ne_queue e') = [])"
| "popSpec t e (n # ys) (out, e') = (ne_playing e' \<and> ne_current e' = n \<and>
     ring.byUrgency (queueItems (ne_queue e')) = ys \<and>
     (\<exists>s. sched_tick (sched_start (patternFor e (ne_profiles e (nt_type n)) (nt_signal n)) t s) t = (out, ne_sched e')))"

lemma popLoop_spec:
  "queueWf k (ne_queue e) \<Longrightarrow>
   sameSetup e (snd (popLoop t e)) \<and> ne_lastReminderAt (snd (popLoop t e)) = ne_lastReminderAt e \<and>
   queueWf k (ne_queue (snd (popLoop t e))) \<and>
   popSpec t e (dropWhile (\<lambda>n. \<not> audible e t n) (ring.byUrgency (queueItems (ne_queue e)))) (popLoop t e)"
proof (induction "nq_count (ne_queue e)" arbitrary: e rule: less_induct)
  case less
  show ?case
  proof (cases rule: ring.pop_cases [OF less.prems])
    case 1
    then show ?thesis
      using less.prems by (simp add: popLoop_None ring.byUrgency_def)
  next
    case (2 n q)
    define e' where "e' = skipped t n q e"
    show ?thesis
    proof (cases "audible e t n")
      case True
      then have "\<not> silenced (ne_mute e) t n" by (simp add: audible_def)
      with True show ?thesis
        using 2 by (auto simp: popLoop_Some Let_def sameSetup_def skipped_def)
    next
      case False
      have "popLoop t e = popLoop t e'" using False 2 by (simp add: popLoop_Some e'_def)
      moreover have frame: "sameSetup e e'" "audible e' t = audible e t" "ne_queue e' = q"
          "ne_lastReminderAt e' = ne_lastReminderAt e" "ne_playing e' = ne_playing e"
        by (simp_all add: e'_def)
      moreover have "patternFor e' = patternFor e" "ne_profiles e' = ne_profiles e"
        using frame(1) by (auto simp: sameSetup_def patternFor_def fun_eq_iff split: Signal.splits)
      then have "popSpec t e' xs r \<longleftrightarrow> popSpec t e xs r" for xs r
        using frame by (cases xs; cases r) simp_all
      moreover note less.hyps [of e'] count_queue_pop [OF 2(1)]
      ultimately show ?thesis
        using 2 False by (simp add: sameSetup_def)
    qed
  qed
qed

lemma popLoop_mute:
  "ne_mute (snd (popLoop t e)) = ne_mute e \<or>
   (mu_scope (ne_mute e) = Snooze \<and> ne_mute (snd (popLoop t e)) = unmute (ne_mute e) \<and>
    intervalPassed t (mu_since (ne_mute e)) (mc_snoozeMs (mu_cfg (ne_mute e))))"
proof (induction "nq_count (ne_queue e)" arbitrary: e rule: less_induct)
  case less
  obtain r q where pop: "queue_pop (ne_queue e) = (r, q)" by fastforce
  show ?case
  proof (cases r)
    case None
    then show ?thesis using pop by (simp add: popLoop_None)
  next
    case (Some n)
    have m: "ne_mute (skipped t n q e) = ne_mute e \<or> (mu_scope (ne_mute e) = Snooze \<and>
        ne_mute (skipped t n q e) = unmute (ne_mute e) \<and>
        intervalPassed t (mu_since (ne_mute e)) (mc_snoozeMs (mu_cfg (ne_mute e))))"
      by (auto simp: skipped_def Let_def shouldSilence_def)
    have pop': "queue_pop (ne_queue e) = (Some n, q)" using pop Some by simp
    show ?thesis
    proof (cases "audible e t n")
      case True
      then show ?thesis using m popLoop_Some [OF pop'] by (auto simp: Let_def)
    next
      case False
      have "nq_count (ne_queue (skipped t n q e)) < nq_count (ne_queue e)"
        using count_queue_pop [OF pop'] by simp
      from less.hyps [OF this] show ?thesis
        using m popLoop_Some [OF pop', of t] False by (auto simp: unmute_def)
    qed
  qed
qed

text \<open>The reminders of a tick: each due type is pushed once and its clock restarts.\<close>

definition reminderOf :: "NotificationEngine \<Rightarrow> AlertType \<Rightarrow> Notification" where
  "reminderOf e t = \<lparr>nt_signal = Reminder, nt_type = t, nt_priority = ap_priority (ne_profiles e t)\<rparr>"

definition remindAll :: "u32 \<Rightarrow> NotificationEngine \<Rightarrow> NotificationEngine" where
  "remindAll nowMs e = fold (remindType nowMs) allTypes e"

lemma remindType_simps [simp]:
  "sameSetup e (remindType t u e)" "ne_sched (remindType t u e) = ne_sched e"
  "ne_mute (remindType t u e) = ne_mute e" "ne_current (remindType t u e) = ne_current e"
  "ne_playing (remindType t u e) = ne_playing e"
  by (simp_all add: remindType_def pushNotification_def sameSetup_def)

lemma sameSetup_trans: "sameSetup a b \<Longrightarrow> sameSetup b c \<Longrightarrow> sameSetup a c"
  by (simp add: sameSetup_def)

lemma reminderDue_cong:
  "sameSetup e e' \<Longrightarrow> ne_lastReminderAt e' v = ne_lastReminderAt e v \<Longrightarrow> reminderDue e' t v = reminderDue e t v"
  by (simp add: reminderDue_def sameSetup_def Let_def)

lemma reminderOf_cong: "sameSetup e e' \<Longrightarrow> reminderOf e' = reminderOf e"
  by (simp add: reminderOf_def sameSetup_def fun_eq_iff)

lemma remindType_last:
  "ne_lastReminderAt (remindType t u e) v =
   (if u = v \<and> reminderDue e t u then t else ne_lastReminderAt e v)"
  by (simp add: remindType_def pushNotification_def)

lemma remindType_queue:
  "queueWf (Suc k) (ne_queue e) \<Longrightarrow> queueWf k (ne_queue (remindType t u e)) \<and>
   queueItems (ne_queue (remindType t u e)) =
     (if reminderDue e t u then pushNew (reminderOf e u) (queueItems (ne_queue e)) else queueItems (ne_queue e))"
  using ring.push_items [of k "ne_queue e"] ring.wf_push [of k "ne_queue e"] ring.wf_mono [of k "ne_queue e"]
  by (simp add: remindType_def pushNotification_def reminderOf_def)

lemma remind_fold:
  fixes t :: u32
  assumes "distinct ts" and "queueWf (length ts + k) (ne_queue e)"
  defines "e' \<equiv> fold (remindType t) ts e"
  shows "sameSetup e e' \<and> ne_sched e' = ne_sched e \<and> ne_mute e' = ne_mute e \<and>
    ne_current e' = ne_current e \<and> ne_playing e' = ne_playing e \<and> queueWf k (ne_queue e') \<and>
    queueItems (ne_queue e') =
      fold pushNew (map (reminderOf e) (filter (reminderDue e t) ts)) (queueItems (ne_queue e)) \<and>
    (\<forall>u. ne_lastReminderAt e' u = (if u \<in> set ts \<and> reminderDue e t u then t else ne_lastReminderAt e u))"
  using assms(1, 2) unfolding e'_def
proof (induction ts arbitrary: e)
  case (Cons u ts)
  define e1 where "e1 = remindType t u e"
  have e1: "sameSetup e e1" by (simp add: e1_def)
  have due: "filter (reminderDue e1 t) ts = filter (reminderDue e t) ts"
    using Cons.prems(1) by (intro filter_cong refl reminderDue_cong [OF e1]) (auto simp: e1_def remindType_last)
  have q: "queueWf (length ts + k) (ne_queue e1)" "queueItems (ne_queue e1) =
      (if reminderDue e t u then pushNew (reminderOf e u) (queueItems (ne_queue e)) else queueItems (ne_queue e))"
    using remindType_queue [of "length ts + k" e t u] Cons.prems(2) by (simp_all add: e1_def)
  have last: "ne_lastReminderAt e1 v = (if u = v \<and> reminderDue e t u then t else ne_lastReminderAt e v)" for v
    by (simp add: e1_def remindType_last)
  have due1: "reminderDue e1 t v = reminderDue e t v" if "v \<noteq> u" for v
    using that by (intro reminderDue_cong [OF e1]) (simp add: last)
  have *: "ne_sched e1 = ne_sched e" "ne_mute e1 = ne_mute e" "ne_current e1 = ne_current e"
      "ne_playing e1 = ne_playing e" by (simp_all add: e1_def)
  define e2 where "e2 = fold (remindType t) ts e1"
  have ts: "distinct ts" "u \<notin> set ts" using Cons.prems(1) by simp_all
  note IH = Cons.IH [of e1, OF ts(1) q(1), folded e2_def]
  have "ne_lastReminderAt e2 v = (if v \<in> set (u # ts) \<and> reminderDue e t v then t else ne_lastReminderAt e v)" for v
    using IH ts(2) last [of v] due1 [of v] by (cases "v = u") simp_all
  moreover have "queueItems (ne_queue e2) =
      fold pushNew (map (reminderOf e) (filter (reminderDue e t) (u # ts))) (queueItems (ne_queue e))"
    using IH due q(2) reminderOf_cong [OF e1] by simp
  moreover have "fold (remindType t) (u # ts) e = e2" by (simp add: e2_def e1_def)
  ultimately show ?case
    using IH * sameSetup_trans [OF e1] by simp
qed simp

lemma remindAll_spec:
  assumes "queueWf (7 + k) (ne_queue e)"
  shows "sameSetup e (remindAll t e) \<and> ne_sched (remindAll t e) = ne_sched e \<and>
    ne_mute (remindAll t e) = ne_mute e \<and> ne_current (remindAll t e) = ne_current e \<and>
    ne_playing (remindAll t e) = ne_playing e \<and> queueWf k (ne_queue (remindAll t e)) \<and>
    queueItems (ne_queue (remindAll t e)) =
      fold pushNew (map (reminderOf e) (filter (reminderDue e t) allTypes)) (queueItems (ne_queue e)) \<and>
    (\<forall>u. ne_lastReminderAt (remindAll t e) u = (if reminderDue e t u then t else ne_lastReminderAt e u))"
  using remind_fold [of allTypes k e t] assms by (simp add: remindAll_def)

text \<open>What is pending when a tick chooses: the queue with the reminders that are due.\<close>

definition pendingAt :: "u32 \<Rightarrow> NotificationEngine \<Rightarrow> Notification list" where
  "pendingAt nowMs e =
     fold pushNew (map (reminderOf e) (filter (reminderDue e nowMs) allTypes)) (queueItems (ne_queue e))"

definition engineWf :: "NotificationEngine \<Rightarrow> bool" where
  "engineWf e \<longleftrightarrow> (\<forall>t. profileWf (ne_profiles e t)) \<and> patternWf (ne_testPattern e)"

definition patternOf :: "NotificationEngine \<Rightarrow> Notification \<Rightarrow> Pattern" where
  "patternOf e n = patternFor e (ne_profiles e (nt_type n)) (nt_signal n)"

lemma patternOf_wf: "engineWf e \<Longrightarrow> patternWf (patternOf e n)"
  by (cases "nt_signal n") (simp_all add: engineWf_def profileWf_def patternOf_def patternFor_def)

lemma notify_tick_alt:
  "notify_tick t e =
     (let e = remindAll t e in
      if ne_playing e
      then let r = sched_tick (ne_sched e) t in
           (fst r, if \<not> sch_running (snd r)
              then e\<lparr>ne_sched := snd r, ne_playing := False, ne_mute := mute_onPatternFinished (ne_mute e)\<rparr>
              else e\<lparr>ne_sched := snd r\<rparr>)
      else popLoop t e)"
  by (simp add: notify_tick_def remindAll_def Let_def split_beta)

lemma start_tick_out:
  assumes "sched_tick (sched_start p (of_nat t) s) (of_nat t) = (out, s')"
  shows "out = playAt (timeline p) 0 \<and> tracks s' t (timeline p) 0"
proof -
  have *: "sched_tick (sched_start p (of_nat t) s) (of_nat (t + 0)) = (out, s')" using assms by simp
  note sched_tick_tracks [OF sched_start_tracks _ _ *]
  then show ?thesis by auto
qed

lemma idle_tick_spec:
  assumes "queueWf (7 + k) (ne_queue e)" and "\<not> ne_playing e"
    and "notify_tick (of_nat t) e = (out, e')"
  defines "cands \<equiv> dropWhile (\<lambda>n. \<not> audible e (of_nat t) n)
                     (sort_key (\<lambda>n. - int (urgency n)) (pendingAt (of_nat t) e))"
  shows "case cands of
      [] \<Rightarrow> \<not> out \<and> \<not> ne_playing e' \<and> queueItems (ne_queue e') = []
    | n # rest \<Rightarrow> ne_playing e' \<and> ne_current e' = n \<and> out = playAt (timeline (patternOf e n)) 0 \<and>
        sort_key (\<lambda>n. - int (urgency n)) (queueItems (ne_queue e')) = rest"
proof -
  define e1 where "e1 = remindAll (of_nat t) e"
  note r = remindAll_spec [OF assms(1), of "of_nat t", folded e1_def]
  have tick: "popLoop (of_nat t) e1 = (out, e')"
    using assms(2, 3) r by (simp add: notify_tick_alt e1_def [symmetric] Let_def)
  have aud: "audible e1 (of_nat t) = audible e (of_nat t)"
    using r playable_cong [of e e1] by (simp add: audible_def fun_eq_iff)
  have pat: "patternFor e1 (ne_profiles e1 (nt_type n)) (nt_signal n) = patternOf e n" for n
    using r by (auto simp: sameSetup_def patternOf_def patternFor_def split: Signal.splits)
  have cands: "cands = dropWhile (\<lambda>n. \<not> audible e1 (of_nat t) n) (ring.byUrgency (queueItems (ne_queue e1)))"
    using r by (simp add: cands_def aud ring.byUrgency_def pendingAt_def)
  have wf1: "queueWf k (ne_queue e1)" using r by simp
  have spec: "popSpec (of_nat t) e1 cands (out, e')"
    using popLoop_spec [OF wf1, of "of_nat t"] tick cands by simp
  show ?thesis
  proof (cases cands)
    case Nil
    then show ?thesis using spec r assms(2) by simp
  next
    case (Cons n rest)
    then obtain s where s: "sched_tick (sched_start (patternOf e n) (of_nat t) s) (of_nat t) = (out, ne_sched e')"
        "ne_playing e'" "ne_current e' = n" "ring.byUrgency (queueItems (ne_queue e')) = rest"
      using spec pat by auto
    then show ?thesis using Cons start_tick_out [OF s(1)] by (simp add: ring.byUrgency_def)
  qed
qed

text \<open>
  C26. An idle engine starts the most urgent of the pending signals (reminders that just came
  due included) that the mute does not silence and whose pattern sounds at all; the more
  urgent ones that do not sound are dropped, the less urgent ones stay queued, and the
  output is the first phase of the pattern. When none sounds the siren stays off and the
  queue is empty. So every tick of an idle engine returns, and takes at most the pending
  signals.
\<close>

theorem idle_tick_plays_most_urgent:
  assumes "queueWf (7 + k) (ne_queue e)" and "\<not> ne_playing e"
    and "notify_tick (of_nat t) e = (out, e')"
  defines "cands \<equiv> dropWhile (\<lambda>n. \<not> audible e (of_nat t) n)
                     (sort_key (\<lambda>n. - int (urgency n)) (pendingAt (of_nat t) e))"
  shows "case cands of
      [] \<Rightarrow> \<not> out \<and> \<not> ne_playing e' \<and> queueItems (ne_queue e') = []
    | n # rest \<Rightarrow> ne_playing e' \<and> ne_current e' = n \<and> out = playAt (timeline (patternOf e n)) 0 \<and>
        sort_key (\<lambda>n. - int (urgency n)) (queueItems (ne_queue e')) = rest"
  unfolding cands_def by (rule idle_tick_spec [OF assms(1-3)])

theorem idle_tick_plays_most_urgent_witness:
  "let e = onEngineEvent \<lparr>ee_kind = Started, ee_type = Nuclear\<rparr> NormalMode (of_nat 1000)
             (onEngineEvent \<lparr>ee_kind = Started, ee_type = AirRaid\<rparr> NormalMode (of_nat 1000) initNotify)
   in \<exists>e'. notify_tick (of_nat 1000) e = (True, e') \<and> nt_type (ne_current e') = Nuclear"
proof -
  define e where "e = onEngineEvent \<lparr>ee_kind = Started, ee_type = Nuclear\<rparr> NormalMode (of_nat 1000)
     (onEngineEvent \<lparr>ee_kind = Started, ee_type = AirRaid\<rparr> NormalMode (of_nat 1000) initNotify)"
  obtain out e' where tick: "notify_tick (of_nat 1000) e = (out, e')" by fastforce
  have "queueWf (9 + 0) (ne_queue initNotify)" by (simp add: initNotify_def initQueue_wf)
  then have wf: "queueWf (7 + 0) (ne_queue e)"
    using ring.wf_push by (simp add: e_def onEngineEvent_def pushNotification_def initNotify_def Let_def
        defaultProfile_def baseProfile_def numeral_eq_Suc)
  have "\<not> ne_playing e" by (simp add: e_def onEngineEvent_def pushNotification_def initNotify_def Let_def
        defaultProfile_def baseProfile_def)
  note idle_tick_plays_most_urgent [OF wf this tick]
  moreover have "map (\<lambda>n. (nt_type n, playAt (timeline (patternOf e n)) 0)) (dropWhile (\<lambda>n. \<not> audible e (of_nat 1000) n)
      (sort_key (\<lambda>n. - int (urgency n)) (pendingAt (of_nat 1000) e))) = [(Nuclear, True), (AirRaid, True)]"
    unfolding e_def by code_simp
  ultimately show ?thesis
    using tick unfolding e_def [symmetric] by (auto split: list.splits)
qed

subsection \<open>Runs: engine events between the ticks\<close>

text \<open>Times are in ms after the moment \<open>t0\<close>, read on the 32-bit clock.\<close>

datatype NotifyAct = EventAt EngineEvent StartupMode nat | TickAt nat

fun notifyRun :: "nat \<Rightarrow> NotifyAct list \<Rightarrow> NotificationEngine \<Rightarrow> bool list \<times> NotificationEngine" where
  "notifyRun t0 [] e = ([], e)"
| "notifyRun t0 (EventAt ev mode d # acts) e = notifyRun t0 acts (onEngineEvent ev mode (of_nat (t0 + d)) e)"
| "notifyRun t0 (TickAt d # acts) e =
     (let (out, e1) = notify_tick (of_nat (t0 + d)) e; (outs, e2) = notifyRun t0 acts e1
      in (out # outs, e2))"

fun tickTimes :: "NotifyAct list \<Rightarrow> nat list" where
  "tickTimes [] = []"
| "tickTimes (EventAt ev mode d # acts) = tickTimes acts"
| "tickTimes (TickAt d # acts) = d # tickTimes acts"

lemma pushNotification_simps [simp]:
  "sameSetup e (pushNotification s t p e)" "ne_sched (pushNotification s t p e) = ne_sched e"
  "ne_mute (pushNotification s t p e) = ne_mute e" "ne_current (pushNotification s t p e) = ne_current e"
  "ne_playing (pushNotification s t p e) = ne_playing e"
  "ne_activeMask (pushNotification s t p e) = ne_activeMask e"
  "ne_profiles (pushNotification s t p e) = ne_profiles e"
  "ne_lastReminderAt (pushNotification s t p e) = ne_lastReminderAt e"
  by (simp_all add: pushNotification_def sameSetup_def)

lemma onEngineEvent_playing:
  assumes "nt_signal (ne_current e) \<noteq> Reminder"
  shows "ne_playing (onEngineEvent ev mode t e) = ne_playing e \<and>
    ne_sched (onEngineEvent ev mode t e) = ne_sched e \<and> ne_current (onEngineEvent ev mode t e) = ne_current e"
  using assms by (cases "ee_kind ev") (simp_all add: onEngineEvent_def Let_def canPreempt_def)

lemma onEngineEvent_profiles [simp]: "ne_profiles (onEngineEvent ev mode t e) = ne_profiles e"
  by (cases "ee_kind ev") (simp_all add: onEngineEvent_def Let_def)

lemma onEngineEvent_queue:
  assumes "queueWf (Suc k) (ne_queue e)" shows "queueWf k (ne_queue (onEngineEvent ev mode t e))"
  using assms ring.wf_push [OF assms] ring.wf_mono [OF assms]
  by (cases "ee_kind ev") (simp_all add: onEngineEvent_def Let_def pushNotification_def)

lemma playing_tick:
  assumes "ne_playing e" and "sched_tick (ne_sched e) t = (out, s)" and "sch_running s"
  shows "fst (notify_tick t e) = out \<and> ne_playing (snd (notify_tick t e)) \<and>
    ne_sched (snd (notify_tick t e)) = s \<and> ne_current (snd (notify_tick t e)) = ne_current e"
proof -
  have fr: "ne_playing (fold (remindType t) ts e) = ne_playing e \<and> ne_sched (fold (remindType t) ts e) = ne_sched e \<and>
     ne_current (fold (remindType t) ts e) = ne_current e" for ts
    by (induction ts arbitrary: e) auto
  show ?thesis using assms fr [of allTypes] by (simp add: notify_tick_alt remindAll_def Let_def)
qed

text \<open>
  C13. A signal that is playing, unless it is a reminder, is heard to its end: whatever
  engine events of whatever type arrive between the ticks (a start, an escalation, an end,
  an all-clear), up to the end of its last ON phase every tick answers what the pattern does
  at that moment. In particular an END never cuts off a START.
\<close>

theorem playing_signal_not_interrupted:
  assumes "ne_playing e" and "nt_signal (ne_current e) \<noteq> Reminder"
    and "ne_sched e = sched_start p (of_nat t0) s" and "patternWf p"
    and "tickGaps 0 (tickTimes acts)" and "\<forall>d\<in>set (tickTimes acts). \<exists>x\<ge>d. playAt (timeline p) x"
  shows "fst (notifyRun t0 acts e) = map (playAt (timeline p)) (tickTimes acts)"
proof -
  have "fst (notifyRun t0 acts e) = map (playAt (timeline p)) (tickTimes acts)"
    if "ne_playing e" "nt_signal (ne_current e) \<noteq> Reminder" "tracks (ne_sched e) t0 (timeline p) c" "c \<le> d"
      "sch_running (ne_sched e) \<longrightarrow> d - c \<le> 60000" "tickGaps d (tickTimes acts)" "patternWf (sch_pattern (ne_sched e))"
      "\<forall>d\<in>set (tickTimes acts). \<exists>x\<ge>d. playAt (timeline p) x" for c d
    using that
  proof (induction t0 acts e arbitrary: c d rule: notifyRun.induct)
    case (2 t0 ev mode t acts e)
    show ?case
      using "2.IH" [of c d] "2.prems" onEngineEvent_playing [OF "2.prems"(2)] by simp
  next
    case (3 t0 f acts e)
    obtain out s' where tick: "sched_tick (ne_sched e) (of_nat (t0 + f)) = (out, s')" by fastforce
    have gap: "c \<le> f" "sch_running (ne_sched e) \<longrightarrow> f - c < 2 ^ 32" using "3.prems" by auto
    have out: "out = playAt (timeline p) f" using sched_tick_tracks(1) [OF "3.prems"(3) gap tick] .
    have pat: "sch_pattern s' = sch_pattern (ne_sched e)"
      using sched_tick_pattern [of "ne_sched e"] tick by (metis snd_conv)
    obtain c' where c': "c' \<le> f" "tracks s' t0 (timeline p) c'"
        "sch_running s' \<longrightarrow> f - c' < unat (stepMs (sch_pattern s') (unat (sch_idx s')))"
      using sched_tick_tracks(3) [OF "3.prems"(3) gap tick] by blast
    obtain x where x: "x \<ge> f" "playAt (timeline p) x" using "3.prems"(8) by auto
    then have run: "sch_running s'" using c' by (auto simp: tracks_def)
    have "unat (stepMs (sch_pattern s') (unat (sch_idx s'))) \<le> 60000"
      using c'(2) "3.prems"(7) pat run stepMs_bound by (simp add: tracks_def schedOk_def word_less_nat_alt)
    then have gap': "sch_running s' \<longrightarrow> f - c' \<le> 60000" using c'(3) by fastforce
    define e1 where "e1 = snd (notify_tick (of_nat (t0 + f)) e)"
    have step: "notify_tick (of_nat (t0 + f)) e = (out, e1)" "ne_playing e1" "ne_sched e1 = s'" "ne_current e1 = ne_current e"
      using playing_tick [OF "3.prems"(1) tick run] by (auto simp: e1_def prod_eq_iff)
    have rest: "fst (notifyRun t0 acts e1) = map (playAt (timeline p)) (tickTimes acts)"
      by (rule "3.IH" [OF step(1) [symmetric] refl, of c' f])
        (use "3.prems" step c' gap' pat in auto)
    then show ?case using step(1) out by (simp add: split_beta)
  qed simp
  from this [of 0 0] show ?thesis using assms sched_start_tracks by auto
qed

theorem playing_signal_not_interrupted_witness:
  "let e = snd (notify_tick (of_nat 1000)
        (onEngineEvent \<lparr>ee_kind = Started, ee_type = AirRaid\<rparr> NormalMode (of_nat 1000) initNotify));
       e0 = e\<lparr>ne_sched := sched_start (pulses 3000 1000 3 True) (of_nat 1000) initScheduler\<rparr>
   in fst (notifyRun 1000 [TickAt 0, EventAt \<lparr>ee_kind = Ended, ee_type = AirRaid\<rparr> NormalMode 500,
        TickAt 2999, TickAt 3500, TickAt 10999] e0) = [True, True, False, True]"
proof -
  define e where "e = snd (notify_tick (of_nat 1000)
        (onEngineEvent \<lparr>ee_kind = Started, ee_type = AirRaid\<rparr> NormalMode (of_nat 1000) initNotify))"
  let ?acts = "[TickAt 0, EventAt \<lparr>ee_kind = Ended, ee_type = AirRaid\<rparr> NormalMode 500,
        TickAt 2999, TickAt 3500, TickAt 10999]"
  let ?p = "pulses 3000 1000 3 True"
  let ?e = "e\<lparr>ne_sched := sched_start ?p (of_nat 1000) initScheduler\<rparr>"
  have play: "ne_playing ?e" "nt_signal (ne_current ?e) \<noteq> Reminder"
    unfolding e_def by code_simp+
  have "playAt (timeline ?p) 10999" "map (playAt (timeline ?p)) [0, 2999, 3500, 10999] = [True, True, False, True]"
    by code_simp+
  then have "fst (notifyRun 1000 ?acts ?e) = map (playAt (timeline ?p)) (tickTimes ?acts)"
    by (intro playing_signal_not_interrupted [OF play, where s = initScheduler]) (auto simp: pulses_wf intro: exI [of _ 10999])
  also have "\<dots> = [True, True, False, True]" using \<open>map _ _ = _\<close> by simp
  finally show ?thesis by (simp add: e_def Let_def)
qed

text \<open>The events that leave a mute alone: of the types muted, and alert \<open>u\<close> goes on.\<close>

fun quietAct :: "u8 \<Rightarrow> AlertType \<Rightarrow> NotifyAct \<Rightarrow> bool" where
  "quietAct m u (TickAt d) = True"
| "quietAct m u (EventAt ev mode d) = (typeInMask m (ee_type ev) \<and> \<not> (ee_kind ev = Ended \<and> ee_type ev = u))"

definition quietInv :: "MuteState \<Rightarrow> AlertType \<Rightarrow> NotificationEngine \<Rightarrow> bool" where
  "quietInv m u e \<longleftrightarrow> \<not> ne_playing e \<and> ne_mute e = m \<and> typeInMask (ne_activeMask e) u \<and>
     (\<forall>v. typeInMask (ne_activeMask e) v \<longrightarrow> typeInMask (mu_mutedTypesMask m) v) \<and>
     (\<forall>n\<in>set (queueItems (ne_queue e)). nt_signal n \<noteq> ManualTest \<and> typeInMask (mu_mutedTypesMask m) (nt_type n))"

lemma pushNotification_items:
  "queueWf (Suc k) (ne_queue e) \<Longrightarrow>
   set (queueItems (ne_queue (pushNotification s t p e))) \<subseteq>
     insert \<lparr>nt_signal = s, nt_type = t, nt_priority = p\<rparr> (set (queueItems (ne_queue e)))"
  using ring.push_items [of k "ne_queue e"] set_pushNew(2) by (auto simp: pushNotification_def)

lemma onEngineEvent_items:
  "queueWf (Suc k) (ne_queue e) \<Longrightarrow> n \<in> set (queueItems (ne_queue (onEngineEvent ev mode t e))) \<Longrightarrow>
   n \<in> set (queueItems (ne_queue e)) \<or> (nt_type n = ee_type ev \<and> nt_signal n \<in> {StartSig, Escalation, EndSig})"
  by (cases "ee_kind ev") (auto simp: onEngineEvent_def Let_def dest!: subsetD [OF pushNotification_items, rotated]
      split: if_splits)

lemma maskClear_zero: "maskClear m (typeIdx t) = 0 \<Longrightarrow> typeInMask m u \<Longrightarrow> t = u"
  using typeInMask_clear [of m t u] by auto

lemma onEngineEvent_mask:
  "typeInMask (ne_activeMask (onEngineEvent ev mode t e)) u \<longleftrightarrow>
   (if ee_type ev = u \<and> ee_kind ev = Started then True
    else if ee_type ev = u \<and> ee_kind ev = Ended then False
    else typeInMask (ne_activeMask e) u)"
  by (cases "ee_kind ev") (auto simp: onEngineEvent_def Let_def dest: maskClear_zero)

lemma onEngineEvent_mute:
  "ne_mute (onEngineEvent ev mode t e) =
   (if ee_kind ev = Ended \<and> ne_activeMask (onEngineEvent ev mode t e) = 0 then mute_onAllClear (ne_mute e) else ne_mute e)"
  by (cases "ee_kind ev") (simp_all add: onEngineEvent_def Let_def)

lemma onEngineEvent_not_playing: "\<not> ne_playing e \<Longrightarrow> \<not> ne_playing (onEngineEvent ev mode t e)"
  by (cases "ee_kind ev") (simp_all add: onEngineEvent_def Let_def)

lemma quietInv_event:
  assumes "quietInv m u e" "queueWf (Suc k) (ne_queue e)"
    and "typeInMask (mu_mutedTypesMask m) (ee_type ev)" "\<not> (ee_kind ev = Ended \<and> ee_type ev = u)"
  shows "quietInv m u (onEngineEvent ev mode t e)"
proof -
  define e' where "e' = onEngineEvent ev mode t e"
  have u: "typeInMask (ne_activeMask e') u"
    using assms by (auto simp: quietInv_def e'_def onEngineEvent_mask)
  then have "ne_activeMask e' \<noteq> 0" by auto
  then have "ne_mute e' = m" using assms(1) by (simp add: e'_def onEngineEvent_mute quietInv_def)
  moreover have "\<forall>n\<in>set (queueItems (ne_queue e')). nt_signal n \<noteq> ManualTest \<and> typeInMask (mu_mutedTypesMask m) (nt_type n)"
  proof
    fix n assume "n \<in> set (queueItems (ne_queue e'))"
    from onEngineEvent_items [OF assms(2) this [unfolded e'_def]]
    show "nt_signal n \<noteq> ManualTest \<and> typeInMask (mu_mutedTypesMask m) (nt_type n)"
      using assms(1, 3) by (auto simp: quietInv_def)
  qed
  moreover have "typeInMask (mu_mutedTypesMask m) v" if "typeInMask (ne_activeMask e') v" for v
    using that assms(1, 3) by (auto simp: e'_def onEngineEvent_mask quietInv_def split: if_splits)
  moreover have "\<not> ne_playing e'" using assms(1) by (simp add: e'_def onEngineEvent_not_playing quietInv_def)
  ultimately show ?thesis using u unfolding e'_def quietInv_def by blast
qed

lemma set_fold_pushNew: "set (fold pushNew ns xs) \<subseteq> set ns \<union> set xs"
proof (induction ns arbitrary: xs)
  case (Cons n ns)
  then show ?case using set_pushNew(2) [of n xs] by fastforce
qed simp

lemma dropWhile_all: "\<forall>x\<in>set xs. P x \<Longrightarrow> dropWhile P xs = []"
  by (induction xs) auto

lemma quietInv_tick:
  assumes inv: "quietInv m u e" and wf: "queueWf (7 + k) (ne_queue e)" and scope: "mu_scope m \<noteq> ScopeNone"
    and "\<not> (mu_scope m = Snooze \<and> intervalPassed t (mu_since m) (mc_snoozeMs (mu_cfg m)))"
  shows "\<not> fst (notify_tick t e) \<and> quietInv m u (snd (notify_tick t e)) \<and> queueWf k (ne_queue (snd (notify_tick t e)))"
proof -
  define e1 where "e1 = remindAll t e"
  note r = remindAll_spec [OF wf, of t, folded e1_def]
  have items: "nt_signal n \<noteq> ManualTest \<and> typeInMask (mu_mutedTypesMask m) (nt_type n)"
    if "n \<in> set (queueItems (ne_queue e1))" for n
  proof -
    have "n \<in> reminderOf e ` {v. reminderDue e t v} \<union> set (queueItems (ne_queue e))"
      using that r set_fold_pushNew by fastforce
    moreover have "typeInMask (ne_activeMask e) v" if "reminderDue e t v" for v
      using that by (simp add: reminderDue_def Let_def typeInMask_def maskTest_def)
    ultimately show ?thesis using inv by (auto simp: quietInv_def reminderOf_def)
  qed
  have "silenced (ne_mute e1) t n" if "n \<in> set (queueItems (ne_queue e1))" for n
    using items [OF that] inv r scope assms(4)
    by (auto simp: silenced_def quietInv_def shouldSilence_def shouldSilence_mask)
  then have nil: "dropWhile (\<lambda>n. \<not> audible e1 t n) (ring.byUrgency (queueItems (ne_queue e1))) = []"
    by (intro dropWhile_all) (simp add: audible_def ring.byUrgency_def)
  have "notify_tick t e = popLoop t e1"
    using inv r by (simp add: notify_tick_alt e1_def [symmetric] Let_def quietInv_def)
  moreover have "ne_mute (snd (popLoop t e1)) = m"
    using popLoop_mute [of t e1] inv r assms(4) by (auto simp: quietInv_def)
  moreover have "queueWf k (ne_queue e1)" using r by simp
  note popLoop_spec [OF this, of t, unfolded nil]
  ultimately show ?thesis
    using inv r by (cases "popLoop t e1") (auto simp: quietInv_def sameSetup_def)
qed

text \<open>
  C5. A mute silences at once and stays: from the moment it is pressed, whatever was playing
  or queued, every tick is OFF whatever engine events of the muted types arrive in
  between (new starts of them, escalations, ends, reminders), as long as one of the alerts
  goes on and, for a snooze, its time has not run out.
\<close>

theorem mute_keeps_siren_silent:
  assumes "queueWf (8 * length acts) (ne_queue e)" and "scope = UntilClear \<or> scope = Snooze"
    and "typeInMask (ne_activeMask e) u" and "list_all (quietAct (ne_activeMask e) u) acts"
    and "scope = Snooze \<longrightarrow> (\<forall>d\<in>set (tickTimes acts). d < unat (mc_snoozeMs (mu_cfg (ne_mute e))))"
  shows "\<forall>out\<in>set (fst (notifyRun t0 acts (doMute scope (of_nat t0) e))). \<not> out"
proof -
  define m where "m = mute scope (of_nat t0) (ne_activeMask e) (ne_mute e)"
  have m: "mu_scope m = scope" "mu_since m = of_nat t0" "mu_mutedTypesMask m = ne_activeMask e"
      "mu_cfg m = mu_cfg (ne_mute e)" by (simp_all add: m_def mute_def)
  have "\<forall>out\<in>set (fst (notifyRun t0 acts e')). \<not> out"
    if "quietInv m u e'" "queueWf (8 * length acts) (ne_queue e')"
      "list_all (quietAct (ne_activeMask e) u) acts"
      "scope = Snooze \<longrightarrow> (\<forall>d\<in>set (tickTimes acts). d < unat (mc_snoozeMs (mu_cfg (ne_mute e))))" for e'
    using that m(2)
  proof (induction t0 acts e' rule: notifyRun.induct)
    case (2 t0 ev mode d acts e')
    have "queueWf (Suc (8 * length acts + 7)) (ne_queue e')" using "2.prems"(2) by (simp add: ac_simps)
    note q = onEngineEvent_queue [OF this] and inv = quietInv_event [OF "2.prems"(1) this]
    have "queueWf (8 * length acts) (ne_queue (onEngineEvent ev mode (of_nat (t0 + d)) e'))"
      using q by (rule ring.wf_weaken)
    then show ?case using "2.IH" inv "2.prems" m(3) by simp
  next
    case (3 t0 d acts e')
    let ?r = "notify_tick (of_nat (t0 + d)) e'"
    have "scope = Snooze \<Longrightarrow> \<not> intervalPassed (of_nat (t0 + d)) (of_nat t0) (mc_snoozeMs (mu_cfg (ne_mute e)))"
      using "3.prems"(4) unsigned_less [of "mc_snoozeMs (mu_cfg (ne_mute e))", where ?'a = nat]
        intervalPassed_clock [of t0 "t0 + d" "mc_snoozeMs (mu_cfg (ne_mute e))"] by auto
    then have quiet: "\<not> (mu_scope m = Snooze \<and> intervalPassed (of_nat (t0 + d)) (mu_since m) (mc_snoozeMs (mu_cfg m)))"
      using m "3.prems"(5) by (auto simp del: of_nat_add)
    have wf: "queueWf (7 + (8 * length acts + 1)) (ne_queue e')" using "3.prems"(2) by (simp add: ac_simps)
    have "mu_scope m \<noteq> ScopeNone" using m assms(2) by auto
    from quietInv_tick [OF "3.prems"(1) wf this quiet]
    have step: "\<not> fst ?r" "quietInv m u (snd ?r)" "queueWf (8 * length acts + 1) (ne_queue (snd ?r))"
      by blast+
    then have "queueWf (8 * length acts) (ne_queue (snd ?r))" by (blast intro: ring.wf_weaken)
    then show ?case
      using "3.IH" [OF refl prod.collapse] "3.prems" step by (simp add: split_beta)
  qed simp
  moreover have "quietInv m u (doMute scope (of_nat t0) e)"
    using assms(3) m by (simp add: quietInv_def doMute_def m_def ring.clear_items)
  moreover have "queueWf (8 * length acts) (ne_queue (doMute scope (of_nat t0) e))"
    using assms(1) by (simp add: doMute_def ring.wf_clear)
  ultimately show ?thesis using assms(4, 5) by blast
qed

theorem mute_keeps_siren_silent_witness:
  "let e = onEngineEvent \<lparr>ee_kind = Started, ee_type = AirRaid\<rparr> NormalMode (of_nat 1000) initNotify
   in \<forall>out\<in>set (fst (notifyRun 2000 [TickAt 0, EventAt \<lparr>ee_kind = Escalated, ee_type = AirRaid\<rparr> NormalMode 500,
        TickAt 899999] (doMute Snooze (of_nat 2000) e))). \<not> out"
proof -
  let ?e = "onEngineEvent \<lparr>ee_kind = Started, ee_type = AirRaid\<rparr> NormalMode (of_nat 1000) initNotify"
  have "queueWf (Suc 24) (ne_queue initNotify)" by (simp add: initNotify_def initQueue_wf)
  from onEngineEvent_queue [OF this, of "\<lparr>ee_kind = Started, ee_type = AirRaid\<rparr>" NormalMode "of_nat 1000"]
  have q: "queueWf 24 (ne_queue ?e)" .
  have m: "typeInMask (ne_activeMask ?e) AirRaid" by (simp add: onEngineEvent_mask)
  have c: "mu_cfg (ne_mute ?e) = defaultMuteConfig"
    by (simp add: onEngineEvent_mute initNotify_def initMute_def)
  show ?thesis
    unfolding Let_def
    by (rule mute_keeps_siren_silent [where u = AirRaid])
      (use q m c in \<open>simp_all add: defaultMuteConfig_def\<close>)
qed

subsection \<open>What is certain to be heard\<close>

lemma dropWhile_sorted:
  assumes "n \<in> set xs" "P n"
  shows "\<exists>h rest. dropWhile (\<lambda>x. \<not> P x) (sort_key (\<lambda>n. - int (urgency n)) xs) = h # rest \<and> P h \<and> urgency n \<le> urgency h"
proof -
  let ?s = "sort_key (\<lambda>n. - int (urgency n)) xs"
  have sorted: "sorted_wrt (\<lambda>a b. urgency b \<le> urgency a) ?s"
    using sorted_sort_key [of "\<lambda>n. - int (urgency n)" xs] by (simp add: sorted_wrt_map)
  have "n \<in> set ?s" using assms(1) by simp
  with sorted show ?thesis
  proof (induction ?s arbitrary: xs rule: list.induct)
    case Nil
    then show ?case by simp
  next
    case (Cons y ys)
    have *: "\<exists>h rest. dropWhile (\<lambda>x. \<not> P x) zs = h # rest \<and> P h \<and> urgency n \<le> urgency h"
      if "sorted_wrt (\<lambda>a b. urgency b \<le> urgency a) zs" "n \<in> set zs" for zs
      using that assms(2) by (induction zs) auto
    show ?case by (rule *) (use Cons.prems in simp_all)
  qed
qed

lemma set_fold_pushNew_mono: "set xs \<subseteq> set (fold pushNew ns xs)"
proof (induction ns arbitrary: xs)
  case (Cons n ns)
  then show ?case using set_pushNew(1) [of xs n] by fastforce
qed simp

lemma idle_tick_heard:
  assumes "queueWf (7 + k) (ne_queue e)" "\<not> ne_playing e"
    and "n \<in> set (queueItems (ne_queue e))" "audible e (of_nat t) n"
  shows "let (out, e') = notify_tick (of_nat t) e in
    ne_playing e' \<and> urgency n \<le> urgency (ne_current e') \<and> out = playAt (timeline (patternOf e (ne_current e'))) 0"
proof -
  obtain out e' where tick: "notify_tick (of_nat t) e = (out, e')" by fastforce
  have "n \<in> set (pendingAt (of_nat t) e)"
    using assms(3) set_fold_pushNew_mono by (fastforce simp: pendingAt_def)
  from dropWhile_sorted [OF this, of "audible e (of_nat t)", OF assms(4)] idle_tick_spec [OF assms(1, 2) tick]
  show ?thesis using tick by auto
qed

lemma pushed_pending:
  assumes "queueWf (Suc k) (ne_queue e)" "length (queueItems (ne_queue e)) < kDepth"
  shows "\<exists>n\<in>set (queueItems (ne_queue (pushNotification s t p e))). nt_signal n = s \<and> nt_type n = t"
  using assms ring.push_items [OF assms(1)]
  by (auto simp: pushNotification_def pushNew.simps list_ex_iff sameSignal_def)





text \<open>
  Only the start of an alert cuts a reminder short. The comment of the queue's header grants
  the same to an escalation, but the engine only queues that one.
\<close>

lemma escalation_waits_for_reminder:
  "ee_kind ev = Escalated \<Longrightarrow> ne_playing (onEngineEvent ev mode t e) = ne_playing e \<and>
     ne_sched (onEngineEvent ev mode t e) = ne_sched e"
  by (simp add: onEngineEvent_def Let_def)

end
