(* ===== verification/RelayGuard.thy ===== *)
theory RelayGuard
  imports TimeUtils
begin

text \<open>
  \<open>lib/core/src/airalert/RelayGuard.h\<close>: the guard between the pattern layer and the relay.
  It bounds the time the relay stays ON without a break, whatever is requested.
\<close>

record RelayGuard =
  rg_maxOnMs :: u32
  rg_onSince :: u32
  rg_on :: bool
  rg_tripped :: bool

definition initGuard :: "u32 \<Rightarrow> RelayGuard" where
  "initGuard maxContinuousOnMs =
     \<lparr>rg_maxOnMs = maxContinuousOnMs, rg_onSince = 0, rg_on = False, rg_tripped = False\<rparr>"

definition guard_setLimit :: "u32 \<Rightarrow> RelayGuard \<Rightarrow> RelayGuard" where
  "guard_setLimit ms g = g\<lparr>rg_maxOnMs := ms\<rparr>"

definition guard_trip :: "RelayGuard \<Rightarrow> RelayGuard" where
  "guard_trip g = g\<lparr>rg_on := False, rg_tripped := True\<rparr>"

definition guard_tick :: "bool \<Rightarrow> u32 \<Rightarrow> RelayGuard \<Rightarrow> bool \<times> RelayGuard" where
  "guard_tick requested nowMs g =
     (if \<not> requested then (False, g\<lparr>rg_on := False, rg_tripped := False\<rparr>)
      else if rg_tripped g then (False, g)
      else let g = (if \<not> rg_on g then g\<lparr>rg_on := True, rg_onSince := nowMs\<rparr> else g)
        in if elapsedMs nowMs (rg_onSince g) \<ge> rg_maxOnMs g
           then (False, g\<lparr>rg_on := False, rg_tripped := True\<rparr>)
           else (True, g))"

text \<open>The outputs of a run: one request and one time (in ms since boot) per tick.\<close>

fun guardRun :: "RelayGuard \<Rightarrow> (bool \<times> nat) list \<Rightarrow> bool list" where
  "guardRun g [] = []"
| "guardRun g ((req, t) # ticks) =
     (let (out, g') = guard_tick req (of_nat t) g in out # guardRun g' ticks)"

text \<open>While the guard holds the relay ON, it knows since when, within the limit.\<close>

definition guardInv :: "RelayGuard \<Rightarrow> nat \<Rightarrow> bool" where
  "guardInv g now \<longleftrightarrow> (rg_on g \<longrightarrow> \<not> rg_tripped g \<and>
     (\<exists>a \<le> now. rg_onSince g = of_nat a \<and> now - a < unat (rg_maxOnMs g)))"

lemma guard_tick_limit [simp]: "rg_maxOnMs (snd (guard_tick req t g)) = rg_maxOnMs g"
  by (simp add: guard_tick_def Let_def)

lemma guard_tick_on: "fst (guard_tick req t g) \<longleftrightarrow> rg_on (snd (guard_tick req t g)) \<and> req \<and> \<not> rg_tripped g"
  by (auto simp: guard_tick_def Let_def)

text \<open>A tick that keeps the relay ON: the ON phase started at \<open>a\<close>, still within the limit.\<close>

lemma guard_tick_held:
  assumes "rg_on g" and "rg_onSince g = of_nat a" and "a \<le> t" and "t - a < 2 ^ 32"
    and "guard_tick req (of_nat t) g = (True, g')"
  shows "t - a < unat (rg_maxOnMs g)" and "rg_on g'" and "rg_onSince g' = of_nat a"
  using assms unat_elapsedMs [of a t]
  by (auto simp: guard_tick_def Let_def not_le word_less_nat_alt split: if_splits)

lemma guard_tick_inv:
  assumes "guardInv g now" and "now \<le> t" and "t - now \<le> 2 ^ 31" and "unat (rg_maxOnMs g) \<le> 2 ^ 31"
  shows "guardInv (snd (guard_tick req (of_nat t) g)) t"
proof -
  obtain out g' where tick: "guard_tick req (of_nat t) g = (out, g')" by fastforce
  have "guardInv g' t"
  proof (cases "rg_on g")
    case True
    then obtain a where a: "a \<le> now" "rg_onSince g = of_nat a" "now - a < unat (rg_maxOnMs g)"
      using assms(1) by (auto simp: guardInv_def)
    then have le: "a \<le> t" and less: "t - a < 2 ^ 32" using assms by auto
    show ?thesis
    proof (cases out)
      case True
      then have "guard_tick req (of_nat t) g = (True, g')" using tick by simp
      from guard_tick_held [OF \<open>rg_on g\<close> a(2) le less this] tick
      show ?thesis
        using le \<open>out\<close> by (auto simp: guardInv_def guard_tick_def Let_def split: if_splits)
    next
      case False
      then show ?thesis
        using tick \<open>rg_on g\<close> assms(1)
        by (auto simp: guardInv_def guard_tick_def Let_def split: if_splits)
    qed
  next
    case False
    then show ?thesis
      using tick by (auto simp: guardInv_def guard_tick_def Let_def not_le unat_gt_0
          split: if_splits intro!: exI [of _ t])
  qed
  then show ?thesis by (simp add: tick)
qed

lemma guardRun_held:
  assumes "rg_on g" and "rg_onSince g = of_nat a" and "a \<le> now" and "now - a < unat (rg_maxOnMs g)"
    and "tickGaps now (map snd ticks)" and "unat (rg_maxOnMs g) \<le> 2 ^ 31"
    and "j < length ticks" and "\<forall>k \<le> j. guardRun g ticks ! k"
  shows "snd (ticks ! j) - a < unat (rg_maxOnMs g)"
  using assms
proof (induction ticks arbitrary: g now j)
  case Nil
  then show ?case by simp
next
  case (Cons tick rest)
  obtain req t where rt: "tick = (req, t)" by fastforce
  obtain out g' where step: "guard_tick req (of_nat t) g = (out, g')" by fastforce
  have out: "out" using Cons.prems(8) by (auto simp: rt step dest: spec [of _ 0])
  have t: "a \<le> t" "t - a < 2 ^ 32" using Cons.prems by (auto simp: rt)
  have held: "t - a < unat (rg_maxOnMs g)" "rg_on g'" "rg_onSince g' = of_nat a"
    using guard_tick_held [OF Cons.prems(1,2) t] step out by auto
  have max: "rg_maxOnMs g' = rg_maxOnMs g" using guard_tick_limit [of req "of_nat t" g] step by simp
  show ?case
  proof (cases j)
    case 0
    then show ?thesis using held by (simp add: rt)
  next
    case (Suc j')
    have "\<forall>k \<le> j'. guardRun g' rest ! k"
      using Cons.prems(8) Suc by (auto simp: rt step dest: spec [of _ "Suc _"])
    then show ?thesis
      using Cons.IH [of g' t j'] Cons.prems held max t Suc by (simp add: rt)
  qed
qed

lemma guardRun_bounded:
  assumes "guardInv g now" and "tickGaps now (map snd ticks)" and "unat (rg_maxOnMs g) \<le> 2 ^ 31"
    and "i \<le> j" and "j < length ticks" and "\<forall>k. i \<le> k \<and> k \<le> j \<longrightarrow> guardRun g ticks ! k"
  shows "snd (ticks ! j) - snd (ticks ! i) < unat (rg_maxOnMs g)"
  using assms
proof (induction ticks arbitrary: g now i j)
  case Nil
  then show ?case by simp
next
  case (Cons tick rest)
  obtain req t where rt: "tick = (req, t)" by fastforce
  obtain out g' where step: "guard_tick req (of_nat t) g = (out, g')" by fastforce
  have max: "rg_maxOnMs g' = rg_maxOnMs g" using guard_tick_limit [of req "of_nat t" g] step by simp
  have gaps: "now \<le> t" "t - now \<le> 2 ^ 31" "tickGaps t (map snd rest)" using Cons.prems by (auto simp: rt)
  have inv: "guardInv g' t"
    using guard_tick_inv [OF Cons.prems(1) gaps(1,2) Cons.prems(3), of req] step by simp
  show ?case
  proof (cases i)
    case (Suc i')
    then obtain j' where "j = Suc j'" using Cons.prems(4) by (cases j) auto
    moreover have "\<forall>k. i' \<le> k \<and> k \<le> j' \<longrightarrow> guardRun g' rest ! k"
      using Cons.prems(6) Suc \<open>j = Suc j'\<close> by (auto simp: rt step dest: spec [of _ "Suc _"])
    ultimately show ?thesis
      using Cons.IH [OF inv gaps(3), of i' j'] Cons.prems Suc max by simp
  next
    case 0
    have "out" using Cons.prems(6) 0 by (auto simp: rt step dest: spec [of _ 0])
    then have "rg_on g'" using guard_tick_on [of req "of_nat t" g] step by simp
    then obtain a where a: "a \<le> t" "rg_onSince g' = of_nat a" "t - a < unat (rg_maxOnMs g')"
      using inv by (auto simp: guardInv_def)
    show ?thesis
    proof (cases j)
      case 0
      then show ?thesis using \<open>i = 0\<close> a max by simp
    next
      case (Suc j')
      have "\<forall>k \<le> j'. guardRun g' rest ! k"
        using Cons.prems(6) Suc \<open>i = 0\<close> by (auto simp: rt step dest: spec [of _ "Suc _"])
      then have "snd (rest ! j') - a < unat (rg_maxOnMs g')"
        using guardRun_held [OF \<open>rg_on g'\<close> a(2,1,3) gaps(3)] Cons.prems(3,5) Suc max by simp
      then show ?thesis using Suc \<open>i = 0\<close> a max by (simp add: rt)
    qed
  qed
qed

text \<open>
  Invariant 2: whatever the pattern layer requests and whenever the ticks come, any
  two ticks between which the guard never released the relay are less than the limit
  apart, for every limit up to 24 days (the configuration allows at most 60 s).
\<close>

theorem guard_bounds_continuous_on:
  assumes "tickGaps 0 (map snd ticks)" and "unat limit \<le> 2 ^ 31"
    and "i \<le> j" and "j < length ticks"
    and "\<forall>k. i \<le> k \<and> k \<le> j \<longrightarrow> guardRun (initGuard limit) ticks ! k"
  shows "snd (ticks ! j) - snd (ticks ! i) < unat limit"
  using guardRun_bounded [of "initGuard limit" 0 ticks i j] assms
  by (simp add: guardInv_def initGuard_def)

theorem guard_bounds_continuous_on_witness:
  "guardRun (initGuard 1000) [(True, 10), (True, 700), (True, 1010), (True, 1500), (False, 1600), (True, 1700)]
     = [True, True, False, False, False, True] \<and>
   (700::nat) - 10 < 1000"
proof -
  let ?ticks = "[(True, 10), (True, 700), (True, 1010), (True, 1500), (False, 1600), (True, 1700::nat)]"
  have run: "guardRun (initGuard 1000) ?ticks = [True, True, False, False, False, True]"
    by (simp add: guard_tick_def initGuard_def Let_def elapsedMs_def)
  have on: "\<forall>k. 0 \<le> k \<and> k \<le> 1 \<longrightarrow> guardRun (initGuard 1000) ?ticks ! k"
    unfolding run by (auto simp: le_Suc_eq)
  have "snd (?ticks ! 1) - snd (?ticks ! 0) < unat (1000 :: u32)"
    by (rule guard_bounds_continuous_on [OF _ _ _ _ on]) simp_all
  then show ?thesis using run by simp
qed

text \<open>
  Once tripped, the guard stays off for as long as the request is held: only a tick
  without a request (or a new configuration) arms it again.
\<close>

theorem guard_tripped_until_released:
  assumes "rg_tripped g" and "\<forall>(req, t) \<in> set ticks. req"
  shows "guardRun g ticks = replicate (length ticks) False"
  using assms
proof (induction ticks arbitrary: g)
  case (Cons tick rest)
  then show ?case by (cases tick) (simp add: guard_tick_def)
qed simp

theorem guard_tripped_until_released_witness:
  "guardRun (guard_trip (initGuard 30000)) [(True, 5), (True, 90000)] = [False, False]"
  using guard_tripped_until_released [of "guard_trip (initGuard 30000)" "[(True, 5), (True, 90000)]"]
  by (simp add: guard_trip_def)

end
