(* ===== verification/PressLog.thy ===== *)
theory PressLog
  imports AirPrelude
begin

text \<open>
  The press queue of \<open>src/hardware/RelayController.h\<close>: a ring of \<open>kPressQueue\<close> slots, one
  of them always free, that hands the physical relay presses from timer callbacks to the
  main loop, and the loop of \<open>src/main.cpp\<close> that writes them to the event log.
\<close>

abbreviation kPressQueue :: nat where "kPressQueue \<equiv> 16"

record Press =
  pr_start :: bool
  pr_why :: string

record PressRing =
  pq_presses :: "Press list"
  pq_head :: u8
  pq_tail :: u8
  pq_dropped :: u8

definition initRing :: PressRing where
  "initRing = \<lparr>pq_presses = replicate kPressQueue \<lparr>pr_start = False, pr_why = []\<rparr>,
     pq_head = 0, pq_tail = 0, pq_dropped = 0\<rparr>"

definition nextSlot :: "u8 \<Rightarrow> u8" where
  "nextSlot i = of_nat ((unat i + 1) mod kPressQueue)"

definition queuePress :: "Press \<Rightarrow> PressRing \<Rightarrow> PressRing" where
  "queuePress p q =
     (let nxt = nextSlot (pq_head q) in
      if nxt = pq_tail q
      then (if pq_dropped q < 255 then q\<lparr>pq_dropped := pq_dropped q + 1\<rparr> else q)
      else q\<lparr>pq_presses := (pq_presses q)[unat (pq_head q) := p], pq_head := nxt\<rparr>)"

definition popPress :: "PressRing \<Rightarrow> Press option \<times> u8 \<times> PressRing" where
  "popPress q =
     (let dropped = pq_dropped q; q = q\<lparr>pq_dropped := 0\<rparr> in
      if pq_tail q = pq_head q then (None, dropped, q)
      else (Some (pq_presses q ! unat (pq_tail q)), dropped, q\<lparr>pq_tail := nextSlot (pq_tail q)\<rparr>))"

subsection \<open>The ring is a bounded first-in first-out list\<close>

definition ringCount :: "PressRing \<Rightarrow> nat" where
  "ringCount q = (unat (pq_head q) + kPressQueue - unat (pq_tail q)) mod kPressQueue"

definition pressItems :: "PressRing \<Rightarrow> Press list" where
  "pressItems q = map (\<lambda>i. pq_presses q ! ((unat (pq_tail q) + i) mod kPressQueue)) [0..<ringCount q]"

definition ringWf :: "PressRing \<Rightarrow> bool" where
  "ringWf q \<longleftrightarrow> length (pq_presses q) = kPressQueue \<and> unat (pq_head q) < kPressQueue \<and> unat (pq_tail q) < kPressQueue"

lemma unat_nextSlot [simp]: "unat (nextSlot i) = (unat i + 1) mod kPressQueue"
proof -
  have "(unat i + 1) mod kPressQueue < 2 ^ 8" by (rule less_trans [of _ kPressQueue]) simp_all
  then show ?thesis unfolding nextSlot_def by (simp only: unat_of_nat) simp
qed

lemma ringCount_less: "ringCount q < kPressQueue"
  by (simp add: ringCount_def)

text \<open>Sums of two slot numbers are below 32, so that \<open>mod\<close> is at most one subtraction.\<close>

lemma mod_slot: "x < 32 \<Longrightarrow> x mod kPressQueue = (if x < 16 then x else x - 16)"
  by (auto simp: mod_if [of x])

lemma ringCount_if:
  "ringWf q \<Longrightarrow> ringCount q = (if unat (pq_tail q) \<le> unat (pq_head q) then unat (pq_head q) - unat (pq_tail q)
     else unat (pq_head q) + 16 - unat (pq_tail q))"
  unfolding ringWf_def ringCount_def by (subst mod_slot) auto

lemma ringCount_head:
  "ringWf q \<Longrightarrow> (unat (pq_tail q) + ringCount q) mod kPressQueue = unat (pq_head q)"
  by (subst mod_slot) (auto simp: ringCount_if ringWf_def split: if_splits)

lemma nextSlot_full:
  assumes "ringWf q" shows "nextSlot (pq_head q) = pq_tail q \<longleftrightarrow> ringCount q = 15"
proof -
  have "unat (nextSlot (pq_head q)) = (if unat (pq_head q) < 15 then unat (pq_head q) + 1 else 0)"
    using assms by (simp add: mod_slot ringWf_def)
  then show ?thesis
    using assms by (auto simp: ringCount_if word_unat_eq_iff ringWf_def split: if_splits)
qed

lemma queuePress_items:
  assumes "ringWf q"
  shows "ringWf (queuePress p q) \<and>
    pressItems (queuePress p q) = (if length (pressItems q) < 15 then pressItems q @ [p] else pressItems q) \<and>
    unat (pq_dropped (queuePress p q)) =
      (if length (pressItems q) < 15 then unat (pq_dropped q) else min 255 (unat (pq_dropped q) + 1))"
proof (cases "ringCount q = 15")
  case True
  have "unat (pq_dropped q + 1) = unat (pq_dropped q) + 1" if "pq_dropped q < 255"
    using word_Suc_less [OF that] by simp
  moreover have "unat (pq_dropped q) = 255" if "\<not> pq_dropped q < 255"
    using that unsigned_less [of "pq_dropped q", where ?'a = nat] by (simp add: word_less_nat_alt)
  moreover have "unat (pq_dropped q) < 255" if "pq_dropped q < 255"
    using that by (simp add: word_less_nat_alt)
  ultimately show ?thesis
    using True assms nextSlot_full [OF assms]
    by (auto simp: queuePress_def Let_def ringWf_def pressItems_def ringCount_def)
next
  case False
  define q' where "q' = queuePress p q"
  have q': "q' = q\<lparr>pq_presses := (pq_presses q)[unat (pq_head q) := p], pq_head := nextSlot (pq_head q)\<rparr>"
    using False nextSlot_full [OF assms] by (simp add: q'_def queuePress_def Let_def)
  have less: "ringCount q < 15" using False ringCount_less [of q] by simp
  have count: "ringCount q' = Suc (ringCount q)"
  proof -
    have "ringWf q'" using assms by (simp add: q' ringWf_def)
    moreover have "unat (pq_head q') = (if unat (pq_head q) < 15 then unat (pq_head q) + 1 else 0)"
      using assms by (simp add: q' mod_slot ringWf_def)
    moreover have "pq_tail q' = pq_tail q" by (simp add: q')
    ultimately show ?thesis using less assms by (auto simp: ringCount_if ringWf_def split: if_splits)
  qed
  have slot: "(unat (pq_tail q) + i) mod 16 \<noteq> unat (pq_head q)" if "i < ringCount q" for i
    using that less assms by (subst mod_slot) (auto simp: ringCount_if ringWf_def split: if_splits)
  have "pressItems q' = pressItems q @ [p]"
    using assms ringCount_head [OF assms] not_sym [OF slot]
    by (simp add: pressItems_def count) (simp add: q' ringWf_def nth_list_update_neq)
  then show ?thesis
    using assms less unfolding q'_def [symmetric]
    by (simp add: ringWf_def pressItems_def) (simp add: q')
qed

lemma popPress_items:
  assumes "ringWf q" and "popPress q = (r, dropped, q')"
  shows "ringWf q' \<and> dropped = pq_dropped q \<and> pq_dropped q' = 0 \<and>
    (case pressItems q of [] \<Rightarrow> r = None \<and> pressItems q' = []
     | p # ps \<Rightarrow> r = Some p \<and> pressItems q' = ps)"
proof (cases "pq_tail q = pq_head q")
  case True
  then show ?thesis
    using assms by (auto simp: popPress_def Let_def ringWf_def pressItems_def ringCount_def)
next
  case False
  define n where "n = ringCount q"
  have ne: "unat (pq_tail q) \<noteq> unat (pq_head q)" using False by (simp add: word_unat_eq_iff)
  have "n \<noteq> 0" using ne assms(1) by (auto simp: n_def ringCount_if ringWf_def split: if_splits)
  then obtain m where m: "n = Suc m" by (cases n) auto
  have q': "q' = q\<lparr>pq_dropped := 0, pq_tail := nextSlot (pq_tail q)\<rparr>"
      "r = Some (pq_presses q ! unat (pq_tail q))" "dropped = pq_dropped q"
    using assms(2) False by (auto simp: popPress_def Let_def)
  have count: "ringCount q' = m"
  proof -
    have "ringWf q'" using assms(1) by (simp add: q' ringWf_def)
    moreover have "unat (pq_tail q') = (if unat (pq_tail q) < 15 then unat (pq_tail q) + 1 else 0)"
      using assms(1) by (simp add: q' mod_slot ringWf_def)
    moreover have "pq_head q' = pq_head q" by (simp add: q')
    ultimately show ?thesis using m ne assms(1) by (auto simp: n_def ringCount_if ringWf_def split: if_splits)
  qed
  have "pressItems q = (pq_presses q ! unat (pq_tail q)) #
      map (\<lambda>i. pq_presses q ! ((unat (pq_tail q) + Suc i) mod 16)) [0..<m]"
    using assms(1) by (simp add: pressItems_def n_def [symmetric] m map_Suc_upt [symmetric] upt_conv_Cons ringWf_def
        del: upt_Suc)
  moreover have "pressItems q' = map (\<lambda>i. pq_presses q ! ((unat (pq_tail q) + Suc i) mod 16)) [0..<m]"
    by (simp add: pressItems_def count) (simp add: q' mod_Suc_eq mod_simps)
  ultimately show ?thesis using q' assms(1) by (simp add: ringWf_def)
qed

subsection \<open>Writing the presses to the event log\<close>

text \<open>
  \<open>logRelayPresses\<close> of \<open>src/main.cpp\<close>: the details it logs. The loop pops until the queue is
  empty; \<open>dropped\<close> is the variable that every pop overwrites. The fuel counts the pops.
\<close>

definition pressDetail :: "bool \<Rightarrow> Press \<Rightarrow> string" where
  "pressDetail levelMode p = take 47 (''relay='' @
     (if levelMode then (if pr_start p then ''on'' else ''off'') else (if pr_start p then ''start'' else ''stop'')) @
     '' reason='' @ pr_why p)"

fun popAll :: "nat \<Rightarrow> PressRing \<Rightarrow> (Press list \<times> u8 \<times> PressRing) option" where
  "popAll 0 q = None"
| "popAll (Suc n) q =
     (case popPress q of
        (None, dropped, q') \<Rightarrow> Some ([], dropped, q')
      | (Some p, dropped, q') \<Rightarrow> map_option (\<lambda>(ps, r). (p # ps, r)) (popAll n q'))"

definition decimal :: "nat \<Rightarrow> string" where
  "decimal n = (let digit = (\<lambda>d. char_of (48 + d mod 10 :: nat)) in
     (if n \<ge> 100 then [digit (n div 100)] else []) @ (if n \<ge> 10 then [digit (n div 10)] else []) @ [digit n])"

definition logRelayPresses :: "bool \<Rightarrow> PressRing \<Rightarrow> (string list \<times> PressRing) option" where
  "logRelayPresses levelMode q = map_option (\<lambda>(ps, dropped, q').
     (map (pressDetail levelMode) ps @ (if dropped \<noteq> 0 then [''dropped='' @ decimal (unat dropped)] else []), q'))
     (popAll (kPressQueue + 1) q)"

lemma popAll_spec:
  "ringWf q \<Longrightarrow> length (pressItems q) < n \<Longrightarrow>
   \<exists>q'. popAll n q = Some (pressItems q, if pressItems q = [] then pq_dropped q else 0, q') \<and>
     ringWf q' \<and> pressItems q' = [] \<and> pq_dropped q' = 0"
proof (induction n arbitrary: q)
  case (Suc n)
  obtain r dropped q1 where pop: "popPress q = (r, dropped, q1)" by (rule prod_cases3)
  note spec = popPress_items [OF Suc.prems(1) pop]
  show ?case
  proof (cases "pressItems q")
    case Nil
    then show ?thesis using spec pop by simp
  next
    case (Cons p ps)
    then have "ringWf q1" "length (pressItems q1) < n" using spec Suc.prems(2) by auto
    from Suc.IH [OF this] show ?thesis using spec pop Cons by (auto split: if_splits)
  qed
qed simp

lemma pressItems_length: "length (pressItems q) < kPressQueue"
  using ringCount_less by (simp add: pressItems_def)

definition pushAll :: "Press list \<Rightarrow> PressRing \<Rightarrow> PressRing" where
  "pushAll ps q = fold queuePress ps q"

lemma pushAll_items:
  "ringWf q \<Longrightarrow> ringWf (pushAll ps q) \<and> pressItems (pushAll ps q) = take 15 (pressItems q @ ps) \<and>
   unat (pq_dropped (pushAll ps q)) = min 255 (unat (pq_dropped q) + (length (pressItems q @ ps) - 15))"
proof (induction ps arbitrary: q)
  case Nil
  have "unat (pq_dropped q) \<le> 255" using unsigned_less [of "pq_dropped q", where ?'a = nat] by simp
  then show ?case using Nil pressItems_length [of q] by (simp add: pushAll_def)
next
  case (Cons p ps)
  have q: "ringWf (queuePress p q)" using queuePress_items [OF Cons.prems] by blast
  have len: "length (pressItems q) \<le> 15" using pressItems_length [of q] by simp
  show ?case
    using Cons.IH [OF q] queuePress_items [OF Cons.prems, of p] len by (auto simp: pushAll_def take_Cons')
qed

text \<open>
  Every press is logged once, in the order in which it happened: whatever was queued, with
  pushes beyond the 15 free slots dropped and counted, one call of \<open>logRelayPresses\<close>
  writes the first 15 of the presses since the last call, and leaves the queue empty.
\<close>

theorem presses_logged_in_order:
  assumes "ringWf q" and "pressItems q = []"
  shows "\<exists>q'. popAll (kPressQueue + 1) (pushAll ps q) =
      Some (take 15 ps, if ps = [] then pq_dropped q else 0, q') \<and> pressItems q' = [] \<and> ringWf q' \<and> pq_dropped q' = 0"
proof -
  note items = pushAll_items [OF assms(1), of ps]
  have "ringWf (pushAll ps q)" "length (pressItems (pushAll ps q)) < kPressQueue + 1"
    using items assms(2) by simp_all
  from popAll_spec [OF this] show ?thesis
    using items assms(2) by (cases ps) (auto simp: pushAll_def)
qed

theorem presses_logged_in_order_witness:
  "fst (the (popAll (kPressQueue + 1) (pushAll [\<lparr>pr_start = True, pr_why = ''pattern''\<rparr>,
     \<lparr>pr_start = False, pr_why = ''mute''\<rparr>] initRing))) =
   [\<lparr>pr_start = True, pr_why = ''pattern''\<rparr>, \<lparr>pr_start = False, pr_why = ''mute''\<rparr>]"
proof -
  have "ringWf initRing" "pressItems initRing = []" by code_simp+
  from presses_logged_in_order [OF this, of "[\<lparr>pr_start = True, pr_why = ''pattern''\<rparr>, \<lparr>pr_start = False, pr_why = ''mute''\<rparr>]"]
  obtain q' where "popAll (kPressQueue + 1) (pushAll [\<lparr>pr_start = True, pr_why = ''pattern''\<rparr>,
      \<lparr>pr_start = False, pr_why = ''mute''\<rparr>] initRing) =
      Some ([\<lparr>pr_start = True, pr_why = ''pattern''\<rparr>, \<lparr>pr_start = False, pr_why = ''mute''\<rparr>], 0, q')"
    by auto
  then show ?thesis by (simp only: option.sel fst_conv)
qed

text \<open>
  The count of the dropped presses never reaches the log: it is read by every pop, and the
  last pop, which ends the loop, reads the zero that the first one left. Sixteen presses
  between two turns of the loop lose one of them without a trace.
\<close>

lemma dropped_presses_not_logged:
  "let q = pushAll (replicate 16 \<lparr>pr_start = True, pr_why = ''test''\<rparr>) initRing in
   pq_dropped q = 1 \<and> length (fst (the (logRelayPresses False q))) = 15 \<and>
   pq_dropped (snd (the (logRelayPresses False q))) = 0"
  by code_simp

end
