(* ===== verification/RelayController.thy ===== *)
theory RelayController
  imports RelayGuard PressLog
begin

text \<open>
  \<open>src/hardware/RelayController.h\<close>: the sole owner of the siren pins. The record holds the
  members of the class and, below them, what they act on: the level of every pin, which pins
  are driven, the real time in ms, and the siren as its wiring makes it react (latched by
  button presses on two relays, or switched directly by one). An armed \<open>Ticker\<close> is the time
  at which its callback is due; the callbacks and the passing of time are steps of their own,
  so the theorems hold whatever the main loop does, even if it never runs again.
\<close>

abbreviation kPulseMs :: nat where "kPulseMs \<equiv> 300"

record RelayController =
  rc_ring :: PressRing
  rc_guard :: RelayGuard
  rc_safetyTimer :: "nat option"
  rc_pulseTimer :: "nat option"
  rc_startPin :: u8
  rc_stopPin :: u8
  rc_pulsePin :: u8
  rc_maxOnMs :: u32
  rc_activeHigh :: bool
  rc_level :: bool
  rc_on :: bool
  rc_asyncTrip :: bool
  rc_asyncOffNeedsLog :: bool
  rc_tripEvent :: bool
  rw_clock :: nat
  rw_pins :: "u8 \<Rightarrow> bool"
  rw_outputs :: "u8 \<Rightarrow> bool"
  rw_siren :: "nat option"

definition initRelay :: RelayController where
  "initRelay = \<lparr>rc_ring = initRing, rc_guard = initGuard 30000, rc_safetyTimer = None, rc_pulseTimer = None,
     rc_startPin = 255, rc_stopPin = 255, rc_pulsePin = 255, rc_maxOnMs = 30000, rc_activeHigh = True,
     rc_level = False, rc_on = False, rc_asyncTrip = False, rc_asyncOffNeedsLog = False, rc_tripEvent = False,
     rw_clock = 0, rw_pins = (\<lambda>_. False), rw_outputs = (\<lambda>_. False), rw_siren = None\<rparr>"

text \<open>
  The siren: with two relays a contact on START latches it ON and one on STOP latches it OFF;
  with one relay it follows the START pin. \<open>rw_siren\<close> holds the time of the last START.
\<close>

definition sirenReacts :: "RelayController \<Rightarrow> u8 \<Rightarrow> bool \<Rightarrow> nat option" where
  "sirenReacts r pin lv =
     (if pin = rc_startPin r
      then (if lv = rc_activeHigh r then Some (rw_clock r) else if rc_level r then None else rw_siren r)
      else if pin = rc_stopPin r \<and> \<not> rc_level r \<and> lv = rc_activeHigh r then None else rw_siren r)"

definition digitalWrite :: "u8 \<Rightarrow> bool \<Rightarrow> RelayController \<Rightarrow> RelayController" where
  "digitalWrite pin lv r = r\<lparr>rw_pins := (rw_pins r)(pin := lv), rw_siren := sirenReacts r pin lv\<rparr>"

definition pinMode :: "u8 \<Rightarrow> bool \<Rightarrow> RelayController \<Rightarrow> RelayController" where
  "pinMode pin out r = r\<lparr>rw_outputs := (rw_outputs r)(pin := out)\<rparr>"

definition relay_queue :: "bool \<Rightarrow> string \<Rightarrow> RelayController \<Rightarrow> RelayController" where
  "relay_queue start why r = r\<lparr>rc_ring := queuePress \<lparr>pr_start = start, pr_why = why\<rparr> (rc_ring r)\<rparr>"

definition release :: "u8 \<Rightarrow> RelayController \<Rightarrow> RelayController" where
  "release pin r = digitalWrite pin (\<not> rc_activeHigh r) r"

definition endPulse :: "RelayController \<Rightarrow> RelayController" where
  "endPulse r = (let r = (if rc_pulsePin r \<noteq> 255 then release (rc_pulsePin r) r else r) in r\<lparr>rc_pulsePin := 255\<rparr>)"

definition pulse :: "u8 \<Rightarrow> string \<Rightarrow> RelayController \<Rightarrow> RelayController" where
  "pulse pin why r =
     (let r = relay_queue (pin = rc_startPin r) why r;
          r = r\<lparr>rc_pulseTimer := None\<rparr>;
          r = (if rc_pulsePin r \<noteq> 255 then release (rc_pulsePin r) r else r);
          r = r\<lparr>rc_pulsePin := pin\<rparr>;
          r = digitalWrite pin (rc_activeHigh r) r
      in r\<lparr>rc_pulseTimer := Some (rw_clock r + kPulseMs)\<rparr>)"

definition press :: "bool \<Rightarrow> string \<Rightarrow> RelayController \<Rightarrow> RelayController" where
  "press start why r =
     (if \<not> rc_level r then pulse (if start then rc_startPin r else rc_stopPin r) why r
      else digitalWrite (rc_startPin r) (start = rc_activeHigh r) (relay_queue start why r))"

definition emergencyOff :: "RelayController \<Rightarrow> RelayController" where
  "emergencyOff r =
     (let r = r\<lparr>rc_on := False\<rparr>;
          r = (if rc_level r \<or> rc_pulsePin r \<noteq> rc_stopPin r then press False ''safety'' r else r)
      in r\<lparr>rc_asyncTrip := True, rc_asyncOffNeedsLog := True, rc_tripEvent := True\<rparr>)"

definition relay_arm :: "RelayController \<Rightarrow> RelayController" where
  "relay_arm r = r\<lparr>rc_safetyTimer := Some (rw_clock r + unat (rc_maxOnMs r))\<rparr>"

definition relay_apply :: "bool \<Rightarrow> RelayController \<Rightarrow> RelayController" where
  "relay_apply on r =
     (if on = rc_on r then r
      else if rc_pulsePin r \<noteq> 255 then r
      else let r = press on ''pattern'' (r\<lparr>rc_on := on\<rparr>)
           in if on then relay_arm r else r\<lparr>rc_safetyTimer := None\<rparr>)"

text \<open>\<open>begin\<close>, in its three stages: release with the old setup, take the new one, drive it.\<close>

definition releaseOld :: "RelayController \<Rightarrow> RelayController" where
  "releaseOld r =
     (if rc_startPin r \<noteq> 255
      then let r = release (rc_startPin r) r
           in if \<not> rc_level r then release (rc_stopPin r) r else r
      else r)"

definition adoptSetup :: "u8 \<Rightarrow> u8 \<Rightarrow> bool \<Rightarrow> u32 \<Rightarrow> bool \<Rightarrow> RelayController \<Rightarrow> RelayController" where
  "adoptSetup startPin stopPin activeHigh maxOnMs level r =
     r\<lparr>rc_pulsePin := 255, rc_startPin := startPin, rc_stopPin := stopPin,
       rc_activeHigh := activeHigh, rc_level := level, rc_maxOnMs := maxOnMs,
       rc_asyncTrip := False, rc_asyncOffNeedsLog := False, rc_tripEvent := False,
       rc_guard := guard_setLimit maxOnMs (snd (guard_tick False 0 (rc_guard r)))\<rparr>"

definition driveReleased :: "RelayController \<Rightarrow> RelayController" where
  "driveReleased r =
     (let r = release (rc_startPin r) (pinMode (rc_startPin r) True (release (rc_startPin r) r))
      in if \<not> rc_level r then release (rc_stopPin r) (pinMode (rc_stopPin r) True (release (rc_stopPin r) r))
         else pinMode (rc_stopPin r) False r)"

definition relay_begin :: "u8 \<Rightarrow> u8 \<Rightarrow> bool \<Rightarrow> u32 \<Rightarrow> bool \<Rightarrow> RelayController \<Rightarrow> RelayController" where
  "relay_begin startPin stopPin activeHigh maxOnMs level r =
     (let r = r\<lparr>rc_safetyTimer := None, rc_pulseTimer := None\<rparr>;
          wasOn = rc_on r;
          r = driveReleased (adoptSetup startPin stopPin activeHigh maxOnMs level (releaseOld r));
          r = r\<lparr>rc_on := False\<rparr>
      in if wasOn then press False ''reconfig'' r else r)"

definition relay_tick :: "bool \<Rightarrow> u32 \<Rightarrow> RelayController \<Rightarrow> RelayController" where
  "relay_tick requested nowMs r =
     (let trippedBefore = rg_tripped (rc_guard r);
          g = (if rc_asyncTrip r then guard_trip (rc_guard r) else rc_guard r);
          (out, g) = guard_tick requested nowMs g;
          r = relay_apply out (r\<lparr>rc_guard := g\<rparr>);
          r = (if \<not> trippedBefore \<and> rg_tripped g then r\<lparr>rc_tripEvent := True\<rparr> else r);
          r = (if \<not> requested then r\<lparr>rc_asyncTrip := False\<rparr> else r)
      in r\<lparr>rc_asyncOffNeedsLog := False\<rparr>)"

definition forceOff :: "string \<Rightarrow> RelayController \<Rightarrow> RelayController" where
  "forceOff why r =
     (let r = r\<lparr>rc_safetyTimer := None, rc_asyncTrip := False, rc_asyncOffNeedsLog := False,
                rc_tripEvent := False, rc_guard := snd (guard_tick False 0 (rc_guard r)), rc_on := False\<rparr>
      in if rc_level r \<or> rc_pulsePin r \<noteq> rc_stopPin r then press False why r else r)"

definition testPulse :: "bool \<Rightarrow> RelayController \<Rightarrow> RelayController" where
  "testPulse start r =
     (let r = press start ''test'' r
      in if start then relay_arm r else if \<not> rc_on r then r\<lparr>rc_safetyTimer := None\<rparr> else r)"

definition safetyTripped :: "RelayController \<Rightarrow> bool" where
  "safetyTripped r \<longleftrightarrow> rc_asyncTrip r \<or> rg_tripped (rc_guard r)"

definition consumeSafetyTrip :: "RelayController \<Rightarrow> bool \<times> RelayController" where
  "consumeSafetyTrip r = (rc_tripEvent r, r\<lparr>rc_tripEvent := False\<rparr>)"

definition relay_popPress :: "RelayController \<Rightarrow> Press option \<times> u8 \<times> RelayController" where
  "relay_popPress r = (case popPress (rc_ring r) of (p, dropped, q) \<Rightarrow> (p, dropped, r\<lparr>rc_ring := q\<rparr>))"

subsection \<open>Steps\<close>

text \<open>
  The calls of the firmware, the two timer callbacks and the passing of time. A callback runs
  when it is due; time cannot pass a due callback, because these run from the system
  context. The pins are the ones of \<open>src/main.cpp\<close>.
\<close>

datatype RelayAct =
  Begin bool u32 bool | RTick bool u32 | ForceOff string | TestPulse bool | ConsumeTrip | PopPress
| SafetyTimeout | PulseDone | Wait nat

definition timersAllow :: "nat \<Rightarrow> RelayController \<Rightarrow> bool" where
  "timersAllow t r \<longleftrightarrow> (case rc_safetyTimer r of None \<Rightarrow> True | Some d \<Rightarrow> t \<le> d) \<and>
     (case rc_pulseTimer r of None \<Rightarrow> True | Some d \<Rightarrow> t \<le> d)"

fun relayAct :: "RelayAct \<Rightarrow> RelayController \<Rightarrow> RelayController option" where
  "relayAct (Begin activeHigh maxOnMs level) r = Some (relay_begin 14 12 activeHigh maxOnMs level r)"
| "relayAct (RTick requested nowMs) r = Some (relay_tick requested nowMs r)"
| "relayAct (ForceOff why) r = Some (forceOff why r)"
| "relayAct (TestPulse start) r = Some (testPulse start r)"
| "relayAct ConsumeTrip r = Some (snd (consumeSafetyTrip r))"
| "relayAct PopPress r = Some (snd (snd (relay_popPress r)))"
| "relayAct SafetyTimeout r = (case rc_safetyTimer r of
     Some d \<Rightarrow> if d \<le> rw_clock r then Some (emergencyOff (r\<lparr>rc_safetyTimer := None\<rparr>)) else None | None \<Rightarrow> None)"
| "relayAct PulseDone r = (case rc_pulseTimer r of
     Some d \<Rightarrow> if d \<le> rw_clock r then Some (endPulse (r\<lparr>rc_pulseTimer := None\<rparr>)) else None | None \<Rightarrow> None)"
| "relayAct (Wait d) r = (if timersAllow (rw_clock r + d) r then Some (r\<lparr>rw_clock := rw_clock r + d\<rparr>) else None)"

fun relayActs :: "RelayAct list \<Rightarrow> RelayController \<Rightarrow> RelayController option" where
  "relayActs [] r = Some r"
| "relayActs (a # as) r = Option.bind (relayAct a r) (relayActs as)"

text \<open>
  Applying a configuration while the siren was started by hand from the service page: the one
  situation in which \<open>begin\<close> is not safe, see below.
\<close>

fun safeAct :: "RelayController \<Rightarrow> RelayAct \<Rightarrow> bool" where
  "safeAct r (Begin _ _ _) = (rw_siren r = None \<or> rc_on r)"
| "safeAct r _ = True"

inductive relayReach :: "RelayController \<Rightarrow> bool" where
  boot: "relayReach (relay_begin 14 12 activeHigh maxOnMs level initRelay)"
| act: "relayReach r \<Longrightarrow> safeAct r a \<Longrightarrow> relayAct a r = Some r' \<Longrightarrow> relayReach r'"

definition pressed :: "RelayController \<Rightarrow> u8 \<Rightarrow> bool" where
  "pressed r pin \<longleftrightarrow> rw_pins r pin = rc_activeHigh r"

definition relayInv :: "RelayController \<Rightarrow> bool" where
  "relayInv r \<longleftrightarrow> rc_startPin r = 14 \<and> rc_stopPin r = 12 \<and> rc_pulsePin r \<in> {255, 14, 12} \<and>
     (rc_pulsePin r \<noteq> 255 \<longleftrightarrow> rc_pulseTimer r \<noteq> None) \<and>
     (if rc_level r then rc_pulsePin r = 255 \<and> (pressed r 14 \<longleftrightarrow> rw_siren r \<noteq> None)
      else (pressed r 14 \<longleftrightarrow> rc_pulsePin r = 14) \<and> (pressed r 12 \<longleftrightarrow> rc_pulsePin r = 12) \<and>
        (rc_pulsePin r = 12 \<longrightarrow> rw_siren r = None)) \<and>
     (\<forall>d. rc_pulseTimer r = Some d \<longrightarrow> rw_clock r \<le> d \<and> d \<le> rw_clock r + kPulseMs) \<and>
     (\<forall>d. rc_safetyTimer r = Some d \<longrightarrow> rw_clock r \<le> d) \<and>
     (\<forall>s. rw_siren r = Some s \<longrightarrow> s \<le> rw_clock r \<and>
        (\<exists>d. rc_safetyTimer r = Some d \<and> d \<le> s + unat (rc_maxOnMs r))) \<and>
     rw_outputs r 14 \<and> (rw_outputs r 12 \<longleftrightarrow> \<not> rc_level r)"

lemmas relay_defs = digitalWrite_def pinMode_def relay_queue_def release_def pulse_def press_def
  sirenReacts_def pressed_def relay_arm_def

text \<open>
  The invariant without the part on the safety timer: the operations that press a button keep
  it, and then set the timer.
\<close>

definition pressInv :: "RelayController \<Rightarrow> bool" where
  "pressInv r \<longleftrightarrow> rc_startPin r = 14 \<and> rc_stopPin r = 12 \<and> rc_pulsePin r \<in> {255, 14, 12} \<and>
     (rc_pulsePin r \<noteq> 255 \<longleftrightarrow> rc_pulseTimer r \<noteq> None) \<and>
     (if rc_level r then rc_pulsePin r = 255 \<and> (pressed r 14 \<longleftrightarrow> rw_siren r \<noteq> None)
      else (pressed r 14 \<longleftrightarrow> rc_pulsePin r = 14) \<and> (pressed r 12 \<longleftrightarrow> rc_pulsePin r = 12) \<and>
        (rc_pulsePin r = 12 \<longrightarrow> rw_siren r = None)) \<and>
     (\<forall>d. rc_pulseTimer r = Some d \<longrightarrow> rw_clock r \<le> d \<and> d \<le> rw_clock r + kPulseMs) \<and>
     rw_outputs r 14 \<and> (rw_outputs r 12 \<longleftrightarrow> \<not> rc_level r)"

definition deadlineInv :: "RelayController \<Rightarrow> bool" where
  "deadlineInv r \<longleftrightarrow> (\<forall>d. rc_safetyTimer r = Some d \<longrightarrow> rw_clock r \<le> d) \<and>
     (\<forall>s. rw_siren r = Some s \<longrightarrow> s \<le> rw_clock r \<and>
        (\<exists>d. rc_safetyTimer r = Some d \<and> d \<le> s + unat (rc_maxOnMs r)))"

lemma relayInv_split: "relayInv r \<longleftrightarrow> pressInv r \<and> deadlineInv r"
  by (auto simp: relayInv_def pressInv_def deadlineInv_def)

lemma press_frame [simp]:
  "rw_clock (press start why r) = rw_clock r" "rc_level (press start why r) = rc_level r"
  "rc_maxOnMs (press start why r) = rc_maxOnMs r" "rc_on (press start why r) = rc_on r"
  "rc_safetyTimer (press start why r) = rc_safetyTimer r" "rc_startPin (press start why r) = rc_startPin r"
  "rc_stopPin (press start why r) = rc_stopPin r" "rc_guard (press start why r) = rc_guard r"
  "rc_activeHigh (press start why r) = rc_activeHigh r"
  by (simp_all add: relay_defs Let_def)

lemma press_inv:
  assumes "pressInv r"
  shows "pressInv (press start why r)"
    and "rw_siren (press start why r) = (if start then Some (rw_clock r) else None)"
proof -
  have pins: "rc_startPin r = 14" "rc_stopPin r = 12" "rc_pulsePin r \<in> {255, 14, 12}"
    using assms by (auto simp: pressInv_def)
  show "pressInv (press start why r)"
    using assms pins by (cases start; cases "rc_level r") (auto simp: pressInv_def relay_defs Let_def)
  show "rw_siren (press start why r) = (if start then Some (rw_clock r) else None)"
    using assms pins by (cases start; cases "rc_level r") (auto simp: pressInv_def relay_defs Let_def)
qed

lemma pressInv_cong:
  assumes "pressInv r" "rc_startPin r' = rc_startPin r" "rc_stopPin r' = rc_stopPin r" "rc_pulsePin r' = rc_pulsePin r"
    "rc_pulseTimer r' = rc_pulseTimer r" "rc_level r' = rc_level r" "rc_activeHigh r' = rc_activeHigh r"
    "rw_pins r' = rw_pins r" "rw_siren r' = rw_siren r" "rw_clock r' = rw_clock r" "rw_outputs r' = rw_outputs r"
  shows "pressInv r'"
  using assms(1) unfolding pressInv_def pressed_def assms(2-) .

lemma off_inv: "pressInv r \<Longrightarrow> rw_siren r = None \<Longrightarrow> (\<And>d. rc_safetyTimer r = Some d \<Longrightarrow> rw_clock r \<le> d) \<Longrightarrow> relayInv r"
  by (simp add: relayInv_split deadlineInv_def)

text \<open>Silencing, by command or by the deadline, always ends with the siren off.\<close>

lemma stop_inv:
  fixes why :: string
  assumes "pressInv r" and "\<not> (rc_level r \<or> rc_pulsePin r \<noteq> rc_stopPin r) \<Longrightarrow> rw_siren r = None"
  defines "r' \<equiv> (if rc_level r \<or> rc_pulsePin r \<noteq> rc_stopPin r then press False why r else r)"
  shows "pressInv r' \<and> rw_siren r' = None \<and> rc_safetyTimer r' = rc_safetyTimer r \<and> rw_clock r' = rw_clock r \<and> rc_on r' = rc_on r"
  using press_inv [OF assms(1), of False why] assms(1, 2) by (auto simp: r'_def)

lemma pressInv_stop_held: "pressInv r \<Longrightarrow> \<not> (rc_level r \<or> rc_pulsePin r \<noteq> rc_stopPin r) \<Longrightarrow> rw_siren r = None"
  by (auto simp: pressInv_def split: if_splits)

lemma forceOff_inv:
  assumes "relayInv r"
  shows "relayInv (forceOff why r) \<and> rw_siren (forceOff why r) = None \<and> \<not> rc_on (forceOff why r) \<and>
    rc_safetyTimer (forceOff why r) = None"
proof -
  define r1 where "r1 = r\<lparr>rc_safetyTimer := None, rc_asyncTrip := False, rc_asyncOffNeedsLog := False,
                rc_tripEvent := False, rc_guard := snd (guard_tick False 0 (rc_guard r)), rc_on := False\<rparr>"
  have "pressInv r1" using assms by (auto simp: relayInv_split r1_def intro: pressInv_cong)
  note stop = stop_inv [OF this pressInv_stop_held [OF this], of why]
  have "forceOff why r = (if rc_level r1 \<or> rc_pulsePin r1 \<noteq> rc_stopPin r1 then press False why r1 else r1)"
    unfolding forceOff_def Let_def r1_def [symmetric] ..
  with stop show ?thesis using off_inv [of "forceOff why r"] by (simp split del: if_split) (simp add: r1_def)
qed

lemma emergencyOff_inv:
  assumes "pressInv r" "\<And>d. rc_safetyTimer r = Some d \<Longrightarrow> rw_clock r \<le> d"
  shows "relayInv (emergencyOff r) \<and> rw_siren (emergencyOff r) = None \<and> \<not> rc_on (emergencyOff r)"
proof -
  define r1 where "r1 = r\<lparr>rc_on := False\<rparr>"
  define r2 where "r2 = (if rc_level r1 \<or> rc_pulsePin r1 \<noteq> rc_stopPin r1 then press False ''safety'' r1 else r1)"
  have "pressInv r1" using assms by (auto simp: r1_def intro: pressInv_cong)
  from stop_inv [OF this pressInv_stop_held [OF this], of "''safety''", folded r2_def]
  have r2: "pressInv r2" "rw_siren r2 = None" "rc_safetyTimer r2 = rc_safetyTimer r" "rw_clock r2 = rw_clock r" "\<not> rc_on r2"
    by (simp_all add: r1_def)
  have e: "emergencyOff r = r2\<lparr>rc_asyncTrip := True, rc_asyncOffNeedsLog := True, rc_tripEvent := True\<rparr>"
    by (simp add: emergencyOff_def Let_def r2_def r1_def)
  then have "pressInv (emergencyOff r)" using r2(1) by (auto intro: pressInv_cong)
  then show ?thesis using off_inv [of "emergencyOff r"] r2 assms(2) by (simp add: e)
qed

lemma arm_inv:
  assumes "pressInv r" "rw_siren r = Some (rw_clock r)"
  shows "relayInv (relay_arm r)"
proof -
  have "pressInv (relay_arm r)" using assms(1) by (auto simp: relay_arm_def intro: pressInv_cong)
  then show ?thesis using assms(2) by (simp add: relayInv_split deadlineInv_def relay_arm_def)
qed

lemma testPulse_inv:
  assumes "relayInv r" shows "relayInv (testPulse start r)"
proof -
  define r1 where "r1 = press start ''test'' r"
  have r1: "pressInv r1" "rw_siren r1 = (if start then Some (rw_clock r) else None)"
    using press_inv assms by (auto simp: relayInv_split r1_def)
  show ?thesis
  proof (cases start)
    case True
    then show ?thesis using arm_inv [of r1] r1 by (simp add: testPulse_def Let_def r1_def)
  next
    case False
    have "pressInv (testPulse start r)" using r1(1) False
      by (auto simp: testPulse_def Let_def r1_def intro: pressInv_cong)
    then show ?thesis
      by (rule off_inv) (use r1 False assms in \<open>auto simp: testPulse_def Let_def r1_def relayInv_split deadlineInv_def split: if_splits\<close>)
  qed
qed

lemma relay_apply_inv:
  assumes "relayInv r" shows "relayInv (relay_apply on r)"
proof (cases "on = rc_on r \<or> rc_pulsePin r \<noteq> 255")
  case True
  then show ?thesis using assms by (auto simp: relay_apply_def)
next
  case False
  define r1 where "r1 = press on ''pattern'' (r\<lparr>rc_on := on\<rparr>)"
  have "pressInv (r\<lparr>rc_on := on\<rparr>)" using assms by (auto simp: relayInv_split intro: pressInv_cong)
  note r1 = press_inv [OF this, of on "''pattern''", folded r1_def]
  show ?thesis
  proof (cases on)
    case True
    then show ?thesis using arm_inv [of r1] r1 False by (simp add: relay_apply_def Let_def r1_def)
  next
    case off: False
    have "pressInv (r1\<lparr>rc_safetyTimer := None\<rparr>)" using r1(1) by (auto intro: pressInv_cong)
    then have "relayInv (r1\<lparr>rc_safetyTimer := None\<rparr>)" by (rule off_inv) (use r1(2) off in simp_all)
    then show ?thesis using False off by (simp add: relay_apply_def Let_def r1_def)
  qed
qed

lemma relayInv_cong:
  assumes "relayInv r" "rc_startPin r' = rc_startPin r" "rc_stopPin r' = rc_stopPin r" "rc_pulsePin r' = rc_pulsePin r"
    "rc_pulseTimer r' = rc_pulseTimer r" "rc_level r' = rc_level r" "rc_activeHigh r' = rc_activeHigh r"
    "rw_pins r' = rw_pins r" "rw_siren r' = rw_siren r" "rw_clock r' = rw_clock r" "rw_outputs r' = rw_outputs r"
    "rc_safetyTimer r' = rc_safetyTimer r" "rc_maxOnMs r' = rc_maxOnMs r"
  shows "relayInv r'"
proof -
  have "pressInv r'" using assms by (auto simp: relayInv_split intro: pressInv_cong)
  then show ?thesis using assms by (simp add: relayInv_split deadlineInv_def)
qed

lemma relay_tick_inv:
  assumes "relayInv r" shows "relayInv (relay_tick requested nowMs r)"
proof -
  define g where "g = guard_tick requested nowMs (if rc_asyncTrip r then guard_trip (rc_guard r) else rc_guard r)"
  define r1 where "r1 = relay_apply (fst g) (r\<lparr>rc_guard := snd g\<rparr>)"
  have "relayInv (r\<lparr>rc_guard := snd g\<rparr>)" using assms by (auto intro: relayInv_cong)
  then have "relayInv r1" unfolding r1_def by (rule relay_apply_inv)
  moreover have "relay_tick requested nowMs r =
     (let r' = (if \<not> rg_tripped (rc_guard r) \<and> rg_tripped (snd g) then r1\<lparr>rc_tripEvent := True\<rparr> else r1)
      in (if \<not> requested then r'\<lparr>rc_asyncTrip := False\<rparr> else r')\<lparr>rc_asyncOffNeedsLog := False\<rparr>)"
    unfolding relay_tick_def g_def r1_def Let_def by (simp only: split_beta prod.collapse fst_conv snd_conv)
  ultimately show ?thesis by (auto simp: Let_def intro: relayInv_cong [of r1])
qed

lemma releaseOld_frame:
  "rw_siren (releaseOld r) = None \<or> rw_siren (releaseOld r) = rw_siren r"
  "rc_pulseTimer (releaseOld r) = rc_pulseTimer r" "rc_safetyTimer (releaseOld r) = rc_safetyTimer r"
  "rw_clock (releaseOld r) = rw_clock r" "rc_on (releaseOld r) = rc_on r"
  "\<not> rc_level r \<Longrightarrow> rw_siren (releaseOld r) = None \<Longrightarrow> rw_siren r = None \<or> rc_startPin r = rc_stopPin r"
  by (auto simp: releaseOld_def Let_def release_def digitalWrite_def sirenReacts_def split: if_splits)

lemma driveReleased_inv:
  assumes "rc_pulsePin r = 255" "rc_startPin r = 14" "rc_stopPin r = 12" "rc_pulseTimer r = None"
  shows "pressInv ((driveReleased r)\<lparr>rc_on := on\<rparr>)"
    and "rw_siren (driveReleased r) = (if rc_level r then None else rw_siren r)"
    and "rc_safetyTimer (driveReleased r) = rc_safetyTimer r" "rc_pulseTimer (driveReleased r) = None"
    and "rw_clock (driveReleased r) = rw_clock r"
  using assms by (auto simp: driveReleased_def Let_def pressInv_def release_def digitalWrite_def sirenReacts_def
      pinMode_def pressed_def)

lemma adoptSetup_simps [simp]:
  "rc_pulsePin (adoptSetup a b c d e r) = 255" "rc_startPin (adoptSetup a b c d e r) = a"
  "rc_stopPin (adoptSetup a b c d e r) = b" "rc_level (adoptSetup a b c d e r) = e"
  "rc_pulseTimer (adoptSetup a b c d e r) = rc_pulseTimer r" "rw_clock (adoptSetup a b c d e r) = rw_clock r"
  "rc_safetyTimer (adoptSetup a b c d e r) = rc_safetyTimer r" "rw_siren (adoptSetup a b c d e r) = rw_siren r"
  by (simp_all add: adoptSetup_def)

lemma relay_begin_inv:
  assumes "rw_siren r = None \<or> rc_on r"
  shows "relayInv (relay_begin 14 12 activeHigh maxOnMs level r)"
proof -
  define r1 where "r1 = adoptSetup 14 12 activeHigh maxOnMs level
     (releaseOld (r\<lparr>rc_safetyTimer := None, rc_pulseTimer := None\<rparr>))"
  define r2 where "r2 = (driveReleased r1)\<lparr>rc_on := False\<rparr>"
  have b: "relay_begin 14 12 activeHigh maxOnMs level r = (if rc_on r then press False ''reconfig'' r2 else r2)"
    by (simp add: relay_begin_def Let_def r1_def r2_def)
  have "rc_pulsePin r1 = 255" "rc_startPin r1 = 14" "rc_stopPin r1 = 12" "rc_pulseTimer r1 = None"
    by (simp_all add: r1_def releaseOld_frame)
  note drive = driveReleased_inv [OF this]
  have r2: "pressInv r2" "rc_safetyTimer r2 = None" "rw_siren r = None \<Longrightarrow> rw_siren r2 = None"
    using drive releaseOld_frame(1) [of "r\<lparr>rc_safetyTimer := None, rc_pulseTimer := None\<rparr>"]
    by (auto simp: r2_def r1_def releaseOld_frame)
  show ?thesis
  proof (cases "rc_on r")
    case True
    then show ?thesis
      using off_inv [of "press False ''reconfig'' r2"] press_inv [OF r2(1), of False "''reconfig''"] r2(2) by (simp add: b)
  next
    case False
    then show ?thesis using off_inv [of r2] r2 assms by (simp add: b)
  qed
qed

lemma relayAct_inv:
  assumes "relayInv r" "safeAct r a" "relayAct a r = Some r'"
  shows "relayInv r'"
proof (cases a)
  case (Begin activeHigh maxOnMs level)
  then show ?thesis using assms relay_begin_inv [of r] by auto
next
  case SafetyTimeout
  then obtain d where d: "rc_safetyTimer r = Some d" "r' = emergencyOff (r\<lparr>rc_safetyTimer := None\<rparr>)"
    using assms(3) by (auto split: option.splits if_splits)
  have "pressInv (r\<lparr>rc_safetyTimer := None\<rparr>)" using assms(1) by (auto simp: relayInv_split intro: pressInv_cong)
  then show ?thesis using emergencyOff_inv [of "r\<lparr>rc_safetyTimer := None\<rparr>"] d by simp
next
  case PulseDone
  then obtain d where d: "rc_pulseTimer r = Some d" "r' = endPulse (r\<lparr>rc_pulseTimer := None\<rparr>)"
    using assms(3) by (auto split: option.splits if_splits)
  then show ?thesis
    using assms(1) by (auto simp: relayInv_def endPulse_def Let_def release_def digitalWrite_def sirenReacts_def pressed_def
        split: if_splits)
next
  case (Wait d)
  then have "r' = r\<lparr>rw_clock := rw_clock r + d\<rparr>" "timersAllow (rw_clock r + d) r"
    using assms(3) by (auto split: if_splits)
  then show ?thesis
    using assms(1) unfolding relayInv_def timersAllow_def pressed_def
    by (auto split: option.splits intro: le_trans)
qed (use assms relay_tick_inv forceOff_inv testPulse_inv in
    \<open>auto simp: consumeSafetyTrip_def relay_popPress_def split_beta intro: relayInv_cong\<close>)

lemma relayReach_inv: "relayReach r \<Longrightarrow> relayInv r"
proof (induction rule: relayReach.induct)
  case (boot activeHigh maxOnMs level)
  then show ?case by (rule relay_begin_inv) (simp_all add: initRelay_def)
next
  case (act r a r')
  then show ?case by (blast intro: relayAct_inv)
qed

subsection \<open>Properties\<close>

text \<open>A concrete run: boot, then START from the service page.\<close>

definition bootRelay :: RelayController where
  "bootRelay = relay_begin 14 12 True 30000 False initRelay"

lemma bootRelay_eq:
  "bootRelay = initRelay\<lparr>rc_startPin := 14, rc_stopPin := 12,
     rw_outputs := (\<lambda>_. False)(14 := True, 12 := True), rw_pins := (\<lambda>_. False)(14 := False, 12 := False)\<rparr>"
  by (simp add: bootRelay_def relay_begin_def releaseOld_def adoptSetup_def driveReleased_def relay_defs initRelay_def Let_def guard_tick_def
      guard_setLimit_def initGuard_def fun_eq_iff)

definition startedRelay :: RelayController where
  "startedRelay = bootRelay\<lparr>rc_ring := queuePress \<lparr>pr_start = True, pr_why = ''test''\<rparr> initRing,
     rc_pulseTimer := Some 300, rc_pulsePin := 14, rw_pins := (\<lambda>_. False)(14 := True, 12 := False),
     rw_siren := Some 0, rc_safetyTimer := Some 30000\<rparr>"

lemma testPulse_bootRelay: "testPulse True bootRelay = startedRelay"
  by (simp add: startedRelay_def bootRelay_eq testPulse_def relay_defs initRelay_def Let_def fun_eq_iff)

lemma startedRelay_reach: "relayReach startedRelay" "relayReach (startedRelay\<lparr>rw_clock := 300\<rparr>)"
proof -
  have "relayReach bootRelay" unfolding bootRelay_def by (rule relayReach.boot)
  then show 1: "relayReach startedRelay"
    by (rule relayReach.act [where a = "TestPulse True"]) (simp_all add: testPulse_bootRelay)
  show "relayReach (startedRelay\<lparr>rw_clock := 300\<rparr>)"
    by (rule relayReach.act [OF 1, where a = "Wait 300"])
      (simp_all add: timersAllow_def startedRelay_def bootRelay_eq initRelay_def)
qed







lemma relay_begin_when_off:
  assumes "rc_startPin r = 14" "rc_stopPin r = 12" "\<not> rc_level r" "\<not> rc_on r" "rw_siren r = Some s"
  shows "rw_siren (relay_begin 14 12 ah m False r) = Some s"
    and "rc_safetyTimer (relay_begin 14 12 ah m False r) = None"
    and "rc_pulseTimer (relay_begin 14 12 ah m False r) = None"
    and "rw_clock (relay_begin 14 12 ah m False r) = rw_clock r"
proof -
  define r1 where "r1 = adoptSetup 14 12 ah m False (releaseOld (r\<lparr>rc_safetyTimer := None, rc_pulseTimer := None\<rparr>))"
  have b: "relay_begin 14 12 ah m False r = (driveReleased r1)\<lparr>rc_on := False\<rparr>"
    using assms by (simp add: relay_begin_def Let_def r1_def)
  have "rc_pulsePin r1 = 255" "rc_startPin r1 = 14" "rc_stopPin r1 = 12" "rc_pulseTimer r1 = None"
    by (simp_all add: r1_def releaseOld_frame)
  note drive = driveReleased_inv [OF this]
  have "rw_siren (releaseOld (r\<lparr>rc_safetyTimer := None, rc_pulseTimer := None\<rparr>)) = Some s"
    using assms releaseOld_frame(1) [of "r\<lparr>rc_safetyTimer := None, rc_pulseTimer := None\<rparr>"]
      releaseOld_frame(6) [of "r\<lparr>rc_safetyTimer := None, rc_pulseTimer := None\<rparr>"] by auto
  then show "rw_siren (relay_begin 14 12 ah m False r) = Some s"
    and "rc_safetyTimer (relay_begin 14 12 ah m False r) = None"
    and "rc_pulseTimer (relay_begin 14 12 ah m False r) = None"
    and "rw_clock (relay_begin 14 12 ah m False r) = rw_clock r"
    using drive by (simp_all add: b) (simp_all add: r1_def releaseOld_frame)
qed

text \<open>
  The exception in \<open>safeAct\<close> is real. START on the service page latches the siren without
  the class taking it for ON; saving a configuration then detaches the deadline, and \<open>begin\<close>
  presses STOP only for a siren it takes for ON. Ten hours later the siren still sounds.
\<close>

lemma config_save_strands_test_start:
  "map_option (\<lambda>r. (rw_siren r, rc_safetyTimer r, rw_clock r))
     (relayActs [TestPulse True, Wait 300, PulseDone, Begin True 30000 False, Wait 36000000] bootRelay) =
   Some (Some 0, None, 36000300)"
proof -
  define r where "r = startedRelay\<lparr>rw_clock := 300, rc_pulseTimer := None, rc_pulsePin := 255,
    rw_pins := (\<lambda>_. False)(14 := False, 12 := False)\<rparr>"
  have wait: "timersAllow 300 startedRelay" "rw_clock startedRelay = 0"
    by (simp_all add: timersAllow_def startedRelay_def bootRelay_eq initRelay_def)
  have fin: "relayAct PulseDone (startedRelay\<lparr>rw_clock := 300\<rparr>) = Some r"
    by (simp add: r_def endPulse_def Let_def startedRelay_def bootRelay_eq initRelay_def relay_defs fun_eq_iff)
  have "rc_startPin r = 14" "rc_stopPin r = 12" "\<not> rc_level r" "\<not> rc_on r" "rw_siren r = Some 0"
    by (simp_all add: r_def startedRelay_def bootRelay_eq initRelay_def)
  note beg = relay_begin_when_off [OF this]
  have "rw_clock r = 300" by (simp add: r_def)
  then show ?thesis
    using wait fin by (simp add: testPulse_bootRelay timersAllow_def beg)
qed

end
