(* ===== verification/Iso8601.thy ===== *)
theory Iso8601
  imports AirPrelude
begin

text \<open>
  Timestamps of the alert API (\<open>Iso8601.h\<close>): \<open>sscanf\<close> of the C library as a function from the
  format and the text to the numbers read, and the days since 1970 by the algorithm of the code,
  compared with counting days year by year and month by month.
\<close>

subsection \<open>\<open>sscanf\<close> with decimal conversions\<close>

datatype ScanItem = ScanInt nat | ScanChar char

definition isBlank :: "char \<Rightarrow> bool" where
  "isBlank c = (c \<in> set [CHR '' '', CHR 0x09, CHR 0x0A, CHR 0x0B, CHR 0x0C, CHR 0x0D])"

definition isDigit :: "char \<Rightarrow> bool" where
  "isDigit c = (c \<in> set ''0123456789'')"

definition digitVal :: "char \<Rightarrow> int" where
  "digitVal c = of_char c - 48"

text \<open>A field of at most \<open>w\<close> characters; the sign counts as one. There must be a digit.\<close>

definition scanDigits :: "nat \<Rightarrow> string \<Rightarrow> (int \<times> string) option" where
  "scanDigits w s =
     (let ds = takeWhile isDigit (take w s) in
      if ds = [] then None else Some (fold (\<lambda>c n. n * 10 + digitVal c) ds 0, drop (length ds) s))"

definition scanInt :: "nat \<Rightarrow> string \<Rightarrow> (int \<times> string) option" where
  "scanInt w s =
     (case dropWhile isBlank s of
        [] \<Rightarrow> None
      | c # cs \<Rightarrow>
          if c = CHR ''-'' then map_option (\<lambda>(n, r). (- n, r)) (scanDigits (w - 1) cs)
          else if c = CHR ''+'' then scanDigits (w - 1) cs
          else scanDigits w (c # cs))"

text \<open>The numbers read until the first item that does not match.\<close>

fun scanf :: "ScanItem list \<Rightarrow> string \<Rightarrow> int list" where
  "scanf [] s = []"
| "scanf (ScanInt w # fs) s = (case scanInt w s of None \<Rightarrow> [] | Some (n, r) \<Rightarrow> n # scanf fs r)"
| "scanf (ScanChar c # fs) s = (case s of [] \<Rightarrow> [] | d # r \<Rightarrow> if c = d then scanf fs r else [])"

subsection \<open>The parser\<close>

definition isoFormat :: "ScanItem list" where
  "isoFormat = [ScanInt 4, ScanChar CHR ''-'', ScanInt 2, ScanChar CHR ''-'', ScanInt 2, ScanChar CHR ''T'',
     ScanInt 2, ScanChar CHR '':'', ScanInt 2, ScanChar CHR '':'', ScanInt 2]"

definition daysFromCivil :: "int \<Rightarrow> int \<Rightarrow> int \<Rightarrow> int" where
  "daysFromCivil y mo d =
     (let y = (if mo \<le> 2 then y - 1 else y);
          era = y div 400;
          yoe = y - era * 400;
          doy = (153 * (mo + (if mo > 2 then - 3 else 9)) + 2) div 5 + d - 1;
          doe = yoe * 365 + yoe div 4 - yoe div 100 + doy
      in era * 146097 + doe - 719468)"

definition parseIso8601Utc :: "string option \<Rightarrow> int" where
  "parseIso8601Utc s =
     (case s of None \<Rightarrow> 0
      | Some s \<Rightarrow>
          (case scanf isoFormat s of
             [y, mo, d, h, mi, se] \<Rightarrow>
               if y < 1970 \<or> mo < 1 \<or> mo > 12 \<or> d < 1 \<or> d > 31 \<or> h > 23 \<or> mi > 59 \<or> se > 60 then 0
               else daysFromCivil y mo d * 86400 + h * 3600 + mi * 60 + se
           | _ \<Rightarrow> 0))"

subsection \<open>The calendar\<close>

definition leapYear :: "nat \<Rightarrow> bool" where
  "leapYear y \<longleftrightarrow> 4 dvd y \<and> (\<not> 100 dvd y \<or> 400 dvd y)"

definition yearDays :: "nat \<Rightarrow> nat" where
  "yearDays y = (if leapYear y then 366 else 365)"

definition monthDays :: "nat \<Rightarrow> nat \<Rightarrow> nat" where
  "monthDays y m = (if m = 2 then (if leapYear y then 29 else 28) else if m \<in> {4, 6, 9, 11} then 30 else 31)"

definition daysSinceEpoch :: "nat \<Rightarrow> nat \<Rightarrow> nat \<Rightarrow> nat" where
  "daysSinceEpoch y m d = (\<Sum>k = 1970..<y. yearDays k) + (\<Sum>k = 1..<m. monthDays y k) + (d - 1)"

definition secondsSinceEpoch :: "nat \<Rightarrow> nat \<Rightarrow> nat \<Rightarrow> nat \<Rightarrow> nat \<Rightarrow> nat \<Rightarrow> nat" where
  "secondsSinceEpoch y m d h mi s = daysSinceEpoch y m d * 86400 + h * 3600 + mi * 60 + s"

text \<open>The written form: four digits of the year, two of everything else.\<close>

definition digitChar :: "nat \<Rightarrow> char" where
  "digitChar n = ''0123456789'' ! (n mod 10)"

definition twoDigits :: "nat \<Rightarrow> string" where
  "twoDigits n = [digitChar (n div 10), digitChar n]"

definition fourDigits :: "nat \<Rightarrow> string" where
  "fourDigits n = [digitChar (n div 1000), digitChar (n div 100), digitChar (n div 10), digitChar n]"

definition isoText :: "nat \<Rightarrow> nat \<Rightarrow> nat \<Rightarrow> nat \<Rightarrow> nat \<Rightarrow> nat \<Rightarrow> string" where
  "isoText y m d h mi s = fourDigits y @ ''-'' @ twoDigits m @ ''-'' @ twoDigits d @ ''T'' @
     twoDigits h @ '':'' @ twoDigits mi @ '':'' @ twoDigits s"

subsection \<open>Days\<close>

lemma div_split:
  fixes y :: int
  shows "(y - e * 400) div 4 = y div 4 - e * 100" "(y - e * 400) div 100 = y div 100 - e * 4"
  using div_mult_self1 [of 4 y "- (e * 100)"] div_mult_self1 [of 100 y "- (e * 4)"] by simp_all

lemma daysFromCivil_flat:
  "daysFromCivil y mo d = (let y = (if mo \<le> 2 then y - 1 else y) in
     365 * y + y div 4 - y div 100 + y div 400 + (153 * (mo + (if mo > 2 then - 3 else 9)) + 2) div 5 + d - 719469)"
  by (simp add: daysFromCivil_def Let_def div_split)

text \<open>Leap years before a year.\<close>

definition leapsBefore :: "nat \<Rightarrow> int" where
  "leapsBefore y = (let n = y - 1 in int (n div 4) - int (n div 100) + int (n div 400))"

lemma leap_step: "1 \<le> y \<Longrightarrow> leapsBefore (Suc y) = leapsBefore y + (if leapYear y then 1 else 0)"
proof (cases y)
  case (Suc n)
  have "400 dvd Suc n \<longrightarrow> 100 dvd Suc n" "100 dvd Suc n \<longrightarrow> 4 dvd Suc n"
    using dvd_trans [of 100 400 "Suc n"] dvd_trans [of 4 100 "Suc n"] by simp_all
  moreover have "Suc n div k = n div k + (if k dvd Suc n then 1 else 0)" for k
    by (simp add: div_Suc dvd_eq_mod_eq_0)
  ultimately show ?thesis
    by (cases "400 dvd Suc n"; cases "100 dvd Suc n"; cases "4 dvd Suc n") (simp_all add: Suc leapsBefore_def leapYear_def Let_def del: div_Suc)
qed simp

lemma years_sum:
  assumes "1970 \<le> y" shows "int (\<Sum>k = 1970..<y. yearDays k) = 365 * (int y - 1970) + leapsBefore y - leapsBefore 1970"
  using assms
proof (induction y rule: nat_induct_at_least)
  case (Suc y)
  then have "int (\<Sum>k = 1970..<Suc y. yearDays k) = int (\<Sum>k = 1970..<y. yearDays k) + int (yearDays y)" by simp
  then show ?case using Suc leap_step [of y] by (simp add: yearDays_def)
qed simp

lemma leaps_1970: "leapsBefore 1970 = 477"
  by (simp add: leapsBefore_def)

lemma months_sum:
  assumes "1 \<le> m" "m \<le> 12"
  shows "int (\<Sum>k = 1..<m. monthDays y k) =
    (153 * (int m + (if m > 2 then - 3 else 9)) + 2) div 5 - (if m > 2 then - 59 - (if leapYear y then 1 else 0) else 306)"
proof -
  have "m = 1 \<or> m = 2 \<or> m = 3 \<or> m = 4 \<or> m = 5 \<or> m = 6 \<or> m = 7 \<or> m = 8 \<or> m = 9 \<or> m = 10 \<or> m = 11 \<or> m = 12"
    using assms by presburger
  then show ?thesis by (elim disjE) (simp_all add: numeral_eq_Suc monthDays_def)
qed

text \<open>The algorithm counts the days of the calendar.\<close>

lemma daysFromCivil_calendar:
  assumes "1970 \<le> y" "1 \<le> m" "m \<le> 12" "1 \<le> d"
  shows "daysFromCivil (int y) (int m) (int d) = int (daysSinceEpoch y m d)"
proof -
  have ls: "leapsBefore y = (int y - 1) div 4 - (int y - 1) div 100 + (int y - 1) div 400"
    using assms(1) by (simp add: leapsBefore_def Let_def zdiv_int of_nat_diff)
  have ls': "leapsBefore (Suc y) = int y div 4 - int y div 100 + int y div 400"
    by (simp add: leapsBefore_def Let_def zdiv_int)
  have sum: "int (daysSinceEpoch y m d) = 365 * (int y - 1970) + leapsBefore y - 477 +
    ((153 * (int m + (if m > 2 then - 3 else 9)) + 2) div 5 - (if m > 2 then - 59 - (if leapYear y then 1 else 0) else 306)) + (int d - 1)"
    using years_sum [OF assms(1)] months_sum [OF assms(2,3), of y] assms(4)
    by (simp add: daysSinceEpoch_def leaps_1970 of_nat_diff)
  show ?thesis
  proof (cases "m > 2")
    case True
    then show ?thesis using sum ls' leap_step [of y] assms(1) by (simp add: daysFromCivil_flat Let_def)
  next
    case False
    then show ?thesis using sum ls by (simp add: daysFromCivil_flat Let_def)
  qed
qed

subsection \<open>Scanning\<close>

lemma digitChar_facts:
  "isDigit (digitChar n)" "digitVal (digitChar n) = int (n mod 10)" "\<not> isBlank (digitChar n)"
  "digitChar n \<noteq> CHR ''-''" "digitChar n \<noteq> CHR ''+''"
proof -
  have all: "isDigit c \<and> \<not> isBlank c \<and> c \<noteq> CHR ''-'' \<and> c \<noteq> CHR ''+'' \<and> digitVal c = int k"
    if "k < 10" "c = ''0123456789'' ! k" for c k
  proof -
    have "k = 0 \<or> k = 1 \<or> k = 2 \<or> k = 3 \<or> k = 4 \<or> k = 5 \<or> k = 6 \<or> k = 7 \<or> k = 8 \<or> k = 9"
      using that(1) by presburger
    then show ?thesis using that(2) by (elim disjE) (simp add: isDigit_def isBlank_def digitVal_def)+
  qed
  have "n mod 10 < 10" by simp
  from all [OF this, of "digitChar n"] show "isDigit (digitChar n)" "digitVal (digitChar n) = int (n mod 10)" "\<not> isBlank (digitChar n)"
    "digitChar n \<noteq> CHR ''-''" "digitChar n \<noteq> CHR ''+''" by (simp_all add: digitChar_def [symmetric])
qed

lemma digits_value:
  fixes n :: nat
  shows "n < 100 \<Longrightarrow> n div 10 mod 10 * 10 + n mod 10 = n"
  "n < 10000 \<Longrightarrow> ((n div 1000 mod 10 * 10 + n div 100 mod 10) * 10 + n div 10 mod 10) * 10 + n mod 10 = n"
proof -
  have step: "n div k = n div (k * 10) * 10 + n div k mod 10" for k
    using div_mult_mod_eq [of "n div k" 10] by (simp add: div_mult2_eq)
  have "n = n div 10 * 10 + n mod 10" by simp
  note s = this step [of 10] step [of 100]
  show "n < 100 \<Longrightarrow> n div 10 mod 10 * 10 + n mod 10 = n" by simp
  assume "n < 10000"
  then have "n div 1000 < 10" by (simp add: less_mult_imp_div_less)
  then have "n div 1000 mod 10 = n div 1000" by simp
  then show "((n div 1000 mod 10 * 10 + n div 100 mod 10) * 10 + n div 10 mod 10) * 10 + n mod 10 = n"
    using s by (simp only: semiring_norm mult_numeral_left)
qed

lemma scanDigits_append:
  assumes "\<forall>c\<in>set ds. isDigit c" "length ds = w" "ds \<noteq> []"
  shows "scanDigits w (ds @ r) = Some (fold (\<lambda>c n. n * 10 + digitVal c) ds 0, r)"
proof -
  have "takeWhile isDigit (take w (ds @ r)) = ds" using assms by (simp add: takeWhile_eq_all_conv)
  then show ?thesis using assms(2,3) by (simp only: scanDigits_def Let_def) simp
qed

lemma scanInt_digits:
  assumes "ds = map digitChar ns" "length ns = w" "ns \<noteq> []"
  shows "scanInt w (ds @ r) = Some (fold (\<lambda>n v. v * 10 + int (n mod 10)) ns 0, r)"
proof -
  have "scanDigits w (ds @ r) = Some (fold (\<lambda>c n. n * 10 + digitVal c) ds 0, r)"
    by (rule scanDigits_append) (use assms in \<open>auto simp: digitChar_facts\<close>)
  moreover have "fold (\<lambda>c n. n * 10 + digitVal c) ds 0 = fold (\<lambda>n v. v * 10 + int (n mod 10)) ns 0"
    by (simp add: assms(1) fold_map o_def digitChar_facts)
  moreover obtain k ks where "ns = k # ks" using assms(3) by (cases ns) auto
  ultimately show ?thesis using assms(1) by (simp add: scanInt_def digitChar_facts)
qed

lemma scan_twoDigits: "n < 100 \<Longrightarrow> scanInt 2 (twoDigits n @ r) = Some (int n, r)"
proof -
  assume n: "n < 100"
  have "fold (\<lambda>n v. v * 10 + int (n mod 10)) [n div 10, n] 0 = int (n div 10 mod 10 * 10 + n mod 10)" by simp
  also have "\<dots> = int n" by (simp only: digits_value(1) [OF n])
  finally have "fold (\<lambda>n v. v * 10 + int (n mod 10)) [n div 10, n] 0 = int n" .
  moreover have "scanInt 2 (twoDigits n @ r) = Some (fold (\<lambda>n v. v * 10 + int (n mod 10)) [n div 10, n] 0, r)"
    by (rule scanInt_digits) (simp_all add: twoDigits_def)
  ultimately show ?thesis by (simp only:)
qed

lemma scan_fourDigits: "n < 10000 \<Longrightarrow> scanInt 4 (fourDigits n @ r) = Some (int n, r)"
proof -
  assume n: "n < 10000"
  let ?ns = "[n div 1000, n div 100, n div 10, n]"
  have "fold (\<lambda>n v. v * 10 + int (n mod 10)) ?ns 0 =
      int (((n div 1000 mod 10 * 10 + n div 100 mod 10) * 10 + n div 10 mod 10) * 10 + n mod 10)"
    by simp
  also have "\<dots> = int n" by (simp only: digits_value(2) [OF n])
  finally have "fold (\<lambda>n v. v * 10 + int (n mod 10)) ?ns 0 = int n" .
  moreover have "scanInt 4 (fourDigits n @ r) = Some (fold (\<lambda>n v. v * 10 + int (n mod 10)) ?ns 0, r)"
    by (rule scanInt_digits) (simp_all add: fourDigits_def)
  ultimately show ?thesis by (simp only:)
qed

lemma scan_isoText:
  assumes "y < 10000" "m < 100" "d < 100" "h < 100" "mi < 100" "s < 100"
  shows "scanf isoFormat (isoText y m d h mi s @ r) = [int y, int m, int d, int h, int mi, int s]"
proof -
  have two: "scanInt 2 (twoDigits n @ c # q) = Some (int n, c # q)" "scanInt 2 (twoDigits n @ q) = Some (int n, q)"
    if "n < 100" for n c q using scan_twoDigits [OF that] by simp_all
  show ?thesis using assms
    by (simp add: isoFormat_def isoText_def two scan_fourDigits)
qed

subsection \<open>Properties\<close>

text \<open>
  C32. A timestamp of the API, the digits of a calendar date and a time in UTC, parses to the
  seconds since 1970 counted year by year and month by month, whatever follows it (fractions,
  the zone letter): the days-from-civil algorithm agrees with the calendar, leap years included,
  up to the year 9999. The leap second 60 counts into the next minute.
\<close>

theorem timestamp_counts_calendar:
  assumes "1970 \<le> y" "y < 10000" "1 \<le> m" "m \<le> 12" "1 \<le> d" "d \<le> monthDays y m" "h \<le> 23" "mi \<le> 59" "s \<le> 60"
  shows "parseIso8601Utc (Some (isoText y m d h mi s @ rest)) = int (secondsSinceEpoch y m d h mi s)"
proof -
  have "d \<le> 31" using assms(6) by (auto simp: monthDays_def split: if_splits)
  then have "scanf isoFormat (isoText y m d h mi s @ rest) = [int y, int m, int d, int h, int mi, int s]"
    using assms by (intro scan_isoText) auto
  then show ?thesis
    using assms \<open>d \<le> 31\<close> daysFromCivil_calendar [of y m d]
    by (simp add: parseIso8601Utc_def secondsSinceEpoch_def)
qed

theorem timestamp_counts_calendar_witness:
  "parseIso8601Utc (Some ''2022-04-04T16:45:39.000Z'') = int (secondsSinceEpoch 2022 4 4 16 45 39)"
proof -
  have written: "''2022-04-04T16:45:39.000Z'' = isoText 2022 4 4 16 45 39 @ ''.000Z''" by code_simp
  show ?thesis unfolding written by (rule timestamp_counts_calendar) (simp_all add: monthDays_def)
qed

text \<open>A finding: the time of day is bounded above only, so a negative field is accepted.\<close>

lemma negative_time_accepted: "parseIso8601Utc (Some ''2022-04-04T-1:-9:00'') = parseIso8601Utc (Some ''2022-04-03T22:51:00'')"
  by code_simp

lemma impossible_date_accepted: "parseIso8601Utc (Some ''2022-02-31T00:00:00'') = parseIso8601Utc (Some ''2022-03-03T00:00:00'')"
  by code_simp

end
