(* ===== verification/AlertsParser.thy ===== *)
theory AlertsParser
  imports SnapshotBuilder JsonOps Iso8601
begin

text \<open>
  From the response of the alert API to the snapshot builder (\<open>AlertsParser.h\<close>): each region
  entry lists its active alerts, an alert may be graded with levels, and red dominates yellow.
\<close>

datatype ParseError = NoAlertsArray | JsonInvalid

record ParseStats =
  ps_total :: u16
  ps_skipped :: u16

definition initStats :: ParseStats where
  "initStats = \<lparr>ps_total = 0, ps_skipped = 0\<rparr>"

text \<open>The members the filters keep of a region entry.\<close>

definition regionFilter :: "'j JsonOps \<Rightarrow> 'j" where
  "regionFilter J = js_mkObj J [(''activeAlerts'', js_mkArr J [js_mkObj J
     [(''regionId'', js_mkBool J True), (''type'', js_mkBool J True), (''lastUpdate'', js_mkBool J True),
      (''activeAlertLevels'', js_mkArr J [js_mkObj J [(''alertLevel'', js_mkBool J True), (''createdAt'', js_mkBool J True)]])]])]"

definition buildAlertsFilter :: "'j JsonOps \<Rightarrow> 'j" where
  "buildAlertsFilter J = js_mkArr J [regionFilter J]"

definition buildAlertElementFilter :: "'j JsonOps \<Rightarrow> 'j" where
  "buildAlertElementFilter J = regionFilter J"

text \<open>Elements of a member that need not be an array.\<close>

definition arrayOf :: "'j JsonOps \<Rightarrow> 'j \<Rightarrow> 'j list" where
  "arrayOf J v = (if js_isArray J v then js_elems J v else [])"

fun readDecimal :: "string \<Rightarrow> u32 \<Rightarrow> u32" where
  "readDecimal [] r = r"
| "readDecimal (c # cs) r =
     (if isDigit c then readDecimal cs (r * 10 + word_of_int (digitVal c)) else r)"

definition uidFromJson :: "'j JsonOps \<Rightarrow> 'j \<Rightarrow> u16" where
  "uidFromJson J v =
     (case js_uint J v of
        Some n \<Rightarrow> of_nat n
      | None \<Rightarrow> (case js_str J v of None \<Rightarrow> 0 | Some s \<Rightarrow> ucast (readDecimal s 0)))"

subsection \<open>Graded alerts\<close>

record Levels =
  lv_red :: int
  lv_yellow :: int
  lv_hasRed :: bool
  lv_hasYellow :: bool

text \<open>The earliest known start, the first one when none is known yet.\<close>

definition earlier :: "int \<Rightarrow> int \<Rightarrow> int" where
  "earlier ts startedAt = (if startedAt = 0 \<or> (ts > 0 \<and> ts < startedAt) then ts else startedAt)"

definition levelStep :: "'j JsonOps \<Rightarrow> string option \<Rightarrow> 'j \<Rightarrow> Levels \<Rightarrow> Levels" where
  "levelStep J ty l lv =
     (let ts = parseIso8601Utc (js_str J (js_member J l ''createdAt'')) in
      if alertTypeFromApi ty (js_str J (js_member J l ''alertLevel'')) = AirRaidYellow
      then lv\<lparr>lv_hasYellow := True, lv_yellow := earlier ts (lv_yellow lv)\<rparr>
      else lv\<lparr>lv_hasRed := True, lv_red := earlier ts (lv_red lv)\<rparr>)"

definition addAlert :: "'j JsonOps \<Rightarrow> 'j \<Rightarrow> SnapshotBuilder \<times> ParseStats \<Rightarrow> SnapshotBuilder \<times> ParseStats" where
  "addAlert J o' bs = (case bs of (b, st) \<Rightarrow>
     let st = st\<lparr>ps_total := ps_total st + 1\<rparr>;
         ty = js_str J (js_member J o' ''type'');
         uid = uidFromJson J (js_member J o' ''regionId'')
     in if uid = 0 \<or> ty = Some ''INFO'' then (b, st\<lparr>ps_skipped := ps_skipped st + 1\<rparr>)
        else
          let levels = arrayOf J (js_member J o' ''activeAlertLevels'') in
          if levels = [] then
            (builder_add \<lparr>al_type = alertTypeFromApi ty None, al_locationUid = uid,
               al_startedAt = parseIso8601Utc (js_str J (js_member J o' ''lastUpdate''))\<rparr> b, st)
          else
            let lv = fold (levelStep J ty) levels \<lparr>lv_red = 0, lv_yellow = 0, lv_hasRed = False, lv_hasYellow = False\<rparr> in
            if lv_hasRed lv then
              (builder_add \<lparr>al_type = alertTypeFromApi ty None, al_locationUid = uid, al_startedAt = lv_red lv\<rparr> b, st)
            else if lv_hasYellow lv then
              (builder_add \<lparr>al_type = AirRaidYellow, al_locationUid = uid, al_startedAt = lv_yellow lv\<rparr> b, st)
            else (b, st))"

definition regionToAlerts :: "'j JsonOps \<Rightarrow> 'j \<Rightarrow> SnapshotBuilder \<times> ParseStats \<Rightarrow> SnapshotBuilder \<times> ParseStats" where
  "regionToAlerts J region bs = fold (addAlert J) (arrayOf J (js_member J region ''activeAlerts'')) bs"

definition extractAlerts :: "'j JsonOps \<Rightarrow> 'j \<Rightarrow> SnapshotBuilder \<times> ParseStats \<Rightarrow> ParseError option \<times> SnapshotBuilder \<times> ParseStats" where
  "extractAlerts J root bs =
     (if \<not> js_isArray J root then (Some NoAlertsArray, bs)
      else (None, fold (regionToAlerts J) (js_elems J root) (builder_reset (fst bs), snd bs)))"

definition parseAlertsJson :: "'j JsonOps \<Rightarrow> 'j option \<Rightarrow> SnapshotBuilder \<times> ParseStats \<Rightarrow> ParseError option \<times> SnapshotBuilder \<times> ParseStats" where
  "parseAlertsJson J doc bs = (case doc of None \<Rightarrow> (Some JsonInvalid, bs) | Some d \<Rightarrow> extractAlerts J d bs)"

subsection \<open>What an alert means\<close>

text \<open>
  The alerts a response stands for. A graded alert counts as one alert: red when any of its
  levels is red, yellow when all are yellow, since the earliest level of its colour.
\<close>

definition isYellow :: "'j JsonOps \<Rightarrow> string option \<Rightarrow> 'j \<Rightarrow> bool" where
  "isYellow J ty l \<longleftrightarrow> ty = Some ''AIR'' \<and> js_str J (js_member J l ''alertLevel'') = Some ''Yellow''"

definition firstStart :: "int list \<Rightarrow> int" where
  "firstStart ts = (if \<exists>t\<in>set ts. t > 0 then Min {t \<in> set ts. t > 0} else 0)"

definition createdAt :: "'j JsonOps \<Rightarrow> 'j \<Rightarrow> int" where
  "createdAt J l = parseIso8601Utc (js_str J (js_member J l ''createdAt''))"

definition alertOf :: "'j JsonOps \<Rightarrow> 'j \<Rightarrow> Alert option" where
  "alertOf J o' =
     (let ty = js_str J (js_member J o' ''type''); uid = uidFromJson J (js_member J o' ''regionId'');
          levels = arrayOf J (js_member J o' ''activeAlertLevels'');
          reds = filter (\<lambda>l. \<not> isYellow J ty l) levels
      in if uid = 0 \<or> ty = Some ''INFO'' then None
         else Some \<lparr>al_type = (if levels \<noteq> [] \<and> reds = [] then AirRaidYellow else alertTypeFromApi ty None),
           al_locationUid = uid,
           al_startedAt = (if levels = [] then parseIso8601Utc (js_str J (js_member J o' ''lastUpdate''))
             else firstStart (map (createdAt J) (if reds = [] then levels else reds)))\<rparr>)"

definition entries :: "'j JsonOps \<Rightarrow> 'j \<Rightarrow> 'j list" where
  "entries J region = arrayOf J (js_member J region ''activeAlerts'')"

definition alertsIn :: "'j JsonOps \<Rightarrow> 'j list \<Rightarrow> Alert list" where
  "alertsIn J regions = List.map_filter (alertOf J) (concat (map (entries J) regions))"

text \<open>All times of day in the document are within a day: no field is negative.\<close>

definition timesOk :: "'j JsonOps \<Rightarrow> 'j list \<Rightarrow> bool" where
  "timesOk J regions \<longleftrightarrow> (\<forall>r\<in>set regions. \<forall>a\<in>set (entries J r).
     \<forall>l\<in>set (arrayOf J (js_member J a ''activeAlertLevels'')). 0 \<le> createdAt J l)"

lemma yellow_iff: "alertTypeFromApi ty (js_str J (js_member J l ''alertLevel'')) = AirRaidYellow \<longleftrightarrow> isYellow J ty l"
  by (auto simp: alertTypeFromApi_def isYellow_def split: option.splits)

lemma firstStart_if: "firstStart ts = (if {t \<in> set ts. t > 0} = {} then 0 else Min {t \<in> set ts. t > 0})"
  by (auto simp: firstStart_def)

lemma firstStart_cong: "set xs = set ys \<Longrightarrow> firstStart xs = firstStart ys"
  by (simp add: firstStart_def)

lemma earlier_fold:
  assumes "\<forall>t\<in>set ts. 0 \<le> t"
  shows "fold earlier ts 0 = firstStart ts"
proof -
  have "fold earlier (rev ts) 0 = firstStart (rev ts)" if "\<forall>t\<in>set ts. 0 \<le> t" for ts
    using that
  proof (induction ts)
    case (Cons t ts)
    define P where "P = {t \<in> set ts. t > 0}"
    have P: "finite P" "\<And>p. p \<in> P \<Longrightarrow> 0 < p" by (auto simp: P_def)
    have ts: "firstStart ts = (if P = {} then 0 else Min P)" unfolding P_def by (rule firstStart_if)
    have "firstStart (t # ts) = (if (if t > 0 then insert t P else P) = {} then 0 else Min (if t > 0 then insert t P else P))"
    proof -
      have "{x \<in> set (t # ts). x > 0} = (if t > 0 then insert t P else P)" by (auto simp: P_def)
      then show ?thesis using firstStart_if [of "t # ts"] by simp
    qed
    moreover define m where "m = Min P"
    moreover have "P \<noteq> {} \<Longrightarrow> 0 < m" using P Min_in [of P] by (auto simp: m_def)
    moreover have "P \<noteq> {} \<Longrightarrow> Min (insert t P) = min t m" using P(1) by (simp add: m_def)
    moreover have "0 \<le> t" using Cons.prems by simp
    ultimately have "earlier t (firstStart ts) = firstStart (t # ts)"
      using ts by (cases "P = {}"; cases "t > 0") (simp_all add: earlier_def min_def)
    then show ?case using Cons firstStart_cong [of "rev ts" ts] firstStart_cong [of "rev ts @ [t]" "t # ts"] by simp
  qed (simp add: firstStart_def)
  from this [of "rev ts"] show ?thesis using assms by simp
qed

lemma levels_fold:
  "fold (levelStep J ty) ls lv =
     \<lparr>lv_red = fold earlier (map (createdAt J) (filter (\<lambda>l. \<not> isYellow J ty l) ls)) (lv_red lv),
      lv_yellow = fold earlier (map (createdAt J) (filter (isYellow J ty) ls)) (lv_yellow lv),
      lv_hasRed = (lv_hasRed lv \<or> filter (\<lambda>l. \<not> isYellow J ty l) ls \<noteq> []),
      lv_hasYellow = (lv_hasYellow lv \<or> filter (isYellow J ty) ls \<noteq> [])\<rparr>"
  by (induction ls arbitrary: lv) (simp_all add: levelStep_def Let_def yellow_iff createdAt_def)

lemma alertTypeFromApi_ungraded: "alertTypeFromApi ty None \<noteq> AirRaidYellow"
  by (auto simp: alertTypeFromApi_def split: option.splits)

lemma addAlert_builder:
  assumes "\<forall>l\<in>set (arrayOf J (js_member J a ''activeAlertLevels'')). 0 \<le> createdAt J l"
  shows "fst (addAlert J a (b, st)) = (case alertOf J a of None \<Rightarrow> b | Some al \<Rightarrow> builder_add al b)"
proof -
  define ty where "ty = js_str J (js_member J a ''type'')"
  define uid where "uid = uidFromJson J (js_member J a ''regionId'')"
  define levels where "levels = arrayOf J (js_member J a ''activeAlertLevels'')"
  define reds where "reds = filter (\<lambda>l. \<not> isYellow J ty l) levels"
  note defs = ty_def [symmetric] uid_def [symmetric] levels_def [symmetric] reds_def [symmetric]
  have yellows: "filter (isYellow J ty) levels = levels" if "reds = []"
    using that by (simp add: reds_def filter_empty_conv)
  have start: "fold earlier (map (createdAt J) ls) 0 = firstStart (map (createdAt J) ls)" if "set ls \<subseteq> set levels" for ls
    by (rule earlier_fold) (use assms that in \<open>auto simp: levels_def\<close>)
  have "set reds \<subseteq> set levels" by (auto simp: reds_def)
  then show ?thesis
    using start [of levels] start [of reds] yellows
    by (cases "uid = 0 \<or> ty = Some ''INFO''"; cases "levels = []"; cases "reds = []")
      (simp_all add: addAlert_def alertOf_def Let_def defs levels_fold)
qed

lemma addAlert_stats:
  "snd (addAlert J a (b, st)) = st\<lparr>ps_total := ps_total st + 1,
     ps_skipped := ps_skipped st + (if alertOf J a = None then 1 else 0)\<rparr>"
  by (simp add: addAlert_def alertOf_def Let_def)

lemma entries_builder:
  assumes "\<forall>a\<in>set as. \<forall>l\<in>set (arrayOf J (js_member J a ''activeAlertLevels'')). 0 \<le> createdAt J l"
  shows "fst (fold (addAlert J) as bs) = builder_addAll (List.map_filter (alertOf J) as) (fst bs)"
  using assms
proof (induction as arbitrary: bs)
  case (Cons a as)
  have "fst (addAlert J a bs) = (case alertOf J a of None \<Rightarrow> fst bs | Some al \<Rightarrow> builder_add al (fst bs))"
    using addAlert_builder [of J a "fst bs" "snd bs"] Cons.prems by simp
  then show ?case using Cons.IH [of "addAlert J a bs"] Cons.prems
    by (cases "alertOf J a") (simp_all add: builder_addAll_def List.map_filter_simps)
qed (simp add: builder_addAll_def List.map_filter_simps)

lemma builder_addAll_append: "builder_addAll (as @ cs) b = builder_addAll cs (builder_addAll as b)"
  by (simp add: builder_addAll_def)

lemma map_filter_append: "List.map_filter f (as @ cs) = List.map_filter f as @ List.map_filter f cs"
  by (simp add: List.map_filter_def)

lemma regions_builder:
  "timesOk J regions \<Longrightarrow> fst (fold (regionToAlerts J) regions bs) = builder_addAll (alertsIn J regions) (fst bs)"
proof (induction regions arbitrary: bs)
  case (Cons r regions)
  have "fst (regionToAlerts J r bs) = builder_addAll (List.map_filter (alertOf J) (entries J r)) (fst bs)"
    unfolding regionToAlerts_def entries_def [symmetric] by (rule entries_builder) (use Cons.prems in \<open>auto simp: timesOk_def\<close>)
  moreover have "timesOk J regions" using Cons.prems by (simp add: timesOk_def)
  ultimately show ?case using Cons.IH [of "regionToAlerts J r bs"]
    by (simp add: alertsIn_def map_filter_append builder_addAll_append)
qed (simp add: alertsIn_def builder_addAll_def List.map_filter_simps)

lemma regions_frame [simp]:
  "sb_selected (fst (regionToAlerts J r bs)) = sb_selected (fst bs)" "sb_catalog (fst (regionToAlerts J r bs)) = sb_catalog (fst bs)"
proof -
  have one: "sb_selected (fst (addAlert J a bs)) = sb_selected (fst bs) \<and> sb_catalog (fst (addAlert J a bs)) = sb_catalog (fst bs)" for a bs
    by (cases bs) (simp add: addAlert_def Let_def)
  have "sb_selected (fst (fold (addAlert J) as bs)) = sb_selected (fst bs) \<and>
      sb_catalog (fst (fold (addAlert J) as bs)) = sb_catalog (fst bs)" for as
    by (induction as arbitrary: bs) (simp_all add: one)
  then show "sb_selected (fst (regionToAlerts J r bs)) = sb_selected (fst bs)"
    "sb_catalog (fst (regionToAlerts J r bs)) = sb_catalog (fst bs)"
    by (simp_all add: regionToAlerts_def)
qed

lemma regions_fold_frame [simp]:
  "sb_selected (fst (fold (regionToAlerts J) rs bs)) = sb_selected (fst bs)"
  "sb_catalog (fst (fold (regionToAlerts J) rs bs)) = sb_catalog (fst bs)"
  by (induction rs arbitrary: bs) simp_all

lemma builder_add_other: "al_type a \<noteq> ty \<Longrightarrow> sb_snap (builder_add a b) ty = sb_snap b ty"
proof -
  assume other: "al_type a \<noteq> ty"
  have "sb_snap (fold (addToLocation a) is b) ty = sb_snap b ty" for "is"
    by (induction "is" arbitrary: b) (use other in \<open>simp_all add: addToLocation_def Let_def\<close>)
  then show ?thesis using other by (simp add: builder_add_def Let_def)
qed

subsection \<open>Properties\<close>

text \<open>
  C20. Reading a response fills the snapshot with exactly the aggregate of the alerts the
  document stands for, whatever is wrong with single entries: an entry without a usable region
  is skipped, an unknown type counts as the unknown type, and neither the order of the regions
  nor the repetition of a parent's alert in every child changes the result. A document that is
  not an array is reported and leaves the builder as it was.
\<close>

theorem response_is_aggregate:
  assumes "length (sb_selected b) \<le> kMaxSelected" and "timesOk J (js_elems J root)"
  shows "extractAlerts J root (b, st) =
    (if js_isArray J root then (None, snd (extractAlerts J root (b, st))) else (Some NoAlertsArray, b, st)) \<and>
   (js_isArray J root \<longrightarrow> sb_snap (fst (snd (extractAlerts J root (b, st)))) =
      aggregate (sb_catalog b) (sb_selected b) (set (alertsIn J (js_elems J root))))"
proof -
  have "sb_snap (builder_addAll (alertsIn J (js_elems J root)) (builder_reset b)) =
      aggregate (sb_catalog b) (sb_selected b) (set (alertsIn J (js_elems J root)))"
    using builderInv_aggregate [OF builder_addAll_inv [OF builder_reset_inv [OF assms(1)]]]
    by (simp add: builder_reset_def)
  then show ?thesis using regions_builder [OF assms(2), of "(builder_reset b, st)"]
    by (simp add: extractAlerts_def)
qed

definition exampleResponse :: json where
  "exampleResponse = JArr [JObj [(''activeAlerts'', JArr [
     JObj [(''regionId'', JStr ''31''), (''type'', JStr ''AIR''), (''lastUpdate'', JStr ''2022-04-04T16:45:39Z'')],
     JObj [(''regionId'', JStr ''31''), (''type'', JStr ''INFO'')]])]]"

theorem response_is_aggregate_witness:
  "sb_snap (fst (snd (extractAlerts jsonOps exampleResponse (exampleBuilder, initStats)))) =
     aggregate (sb_catalog exampleBuilder) (sb_selected exampleBuilder)
       {\<lparr>al_type = AirRaid, al_locationUid = 31, al_startedAt = 1649090739\<rparr>}"
proof -
  have 1: "length (sb_selected exampleBuilder) \<le> kMaxSelected" by code_simp
  have 2: "timesOk jsonOps (js_elems jsonOps exampleResponse)"
    by (simp add: timesOk_def entries_def arrayOf_def jsonOps_def exampleResponse_def)
  have 3: "js_isArray jsonOps exampleResponse" by (simp add: jsonOps_def exampleResponse_def)
  have "parseIso8601Utc (Some ''2022-04-04T16:45:39Z'') = 1649090739" by code_simp
  moreover have "uidFromJson jsonOps (JStr ''31'') = 31" by code_simp
  ultimately have "alertsIn jsonOps (js_elems jsonOps exampleResponse) =
      [\<lparr>al_type = AirRaid, al_locationUid = 31, al_startedAt = 1649090739\<rparr>]"
    by (simp add: alertsIn_def entries_def arrayOf_def alertOf_def Let_def List.map_filter_simps
        exampleResponse_def jsonOps_def alertTypeFromApi_def)
  then show ?thesis using response_is_aggregate [OF 1 2, of initStats] 3 by simp
qed

text \<open>
  C21. Red dominates: a graded air-raid alert counts for one colour only. When any of its
  levels is not yellow (or it has none) the yellow state is untouched, and when all are yellow
  the red state is.
\<close>

theorem red_dominates:
  assumes "js_str J (js_member J a ''type'') = Some ''AIR''"
  shows "let levels = arrayOf J (js_member J a ''activeAlertLevels'');
             yellow = (levels \<noteq> [] \<and> (\<forall>l\<in>set levels. js_str J (js_member J l ''alertLevel'') = Some ''Yellow''));
             other = (if yellow then AirRaid else AirRaidYellow)
         in sb_snap (fst (addAlert J a (b, st))) other = sb_snap b other"
proof -
  define levels where "levels = arrayOf J (js_member J a ''activeAlertLevels'')"
  have iy: "isYellow J (Some ''AIR'') l \<longleftrightarrow> js_str J (js_member J l ''alertLevel'') = Some ''Yellow''" for l
    by (simp add: isYellow_def)
  show ?thesis
    using assms
    by (auto simp: addAlert_def Let_def levels_fold iy filter_empty_conv alertTypeFromApi_def
        levels_def [symmetric] builder_add_other)
qed

definition gradedAlert :: json where
  "gradedAlert = JObj [(''regionId'', JStr ''31''), (''type'', JStr ''AIR''), (''activeAlertLevels'',
     JArr [JObj [(''alertLevel'', JStr ''Yellow'')], JObj [(''alertLevel'', JStr ''Red'')]])]"

theorem red_dominates_witness:
  "ti_coverage (sb_snap (fst (addAlert jsonOps gradedAlert (builder_reset exampleBuilder, initStats))) AirRaidYellow) = NoCoverage"
  using red_dominates [of jsonOps gradedAlert "builder_reset exampleBuilder" initStats]
  by (simp add: gradedAlert_def jsonOps_def Let_def arrayOf_def builder_reset_def emptySnapshot_def emptyInput_def)

text \<open>A finding: a numeric region id beyond 16 bits is taken for the region of its low half.\<close>

lemma wide_region_id_truncated: "uidFromJson jsonOps (JInt (65536 + 31)) = 31"
  by (simp add: uidFromJson_def jsonOps_def)

end
