(* ===== verification/ApiHealth.thy ===== *)
theory ApiHealth
  imports TimeUtils
begin

text \<open>
  \<open>lib/core/src/airalert/ApiHealth.h\<close> and \<open>ApiSnapshotCache.h\<close>: how fresh the data is, kept
  apart from the alert state, and whether a 304 answer may stand for the last snapshot.
\<close>

record ApiHealth =
  ah_staleAfterMs :: u32
  ah_lastContact :: u32
  ah_online :: bool
  ah_hadContact :: bool

definition initHealth :: "u32 \<Rightarrow> ApiHealth" where
  "initHealth staleAfterMs =
     \<lparr>ah_staleAfterMs = staleAfterMs, ah_lastContact = 0, ah_online = False, ah_hadContact = False\<rparr>"

definition health_setConfig :: "u32 \<Rightarrow> ApiHealth \<Rightarrow> ApiHealth" where
  "health_setConfig staleAfterMs h = h\<lparr>ah_staleAfterMs := staleAfterMs\<rparr>"

definition health_onContact :: "u32 \<Rightarrow> ApiHealth \<Rightarrow> ApiHealth" where
  "health_onContact nowMs h = h\<lparr>ah_online := True, ah_hadContact := True, ah_lastContact := nowMs\<rparr>"

definition health_onFailure :: "ApiHealth \<Rightarrow> ApiHealth" where
  "health_onFailure h = h\<lparr>ah_online := False\<rparr>"

definition health_stale :: "u32 \<Rightarrow> ApiHealth \<Rightarrow> bool" where
  "health_stale nowMs h \<longleftrightarrow>
     \<not> ah_hadContact h \<or> elapsedMs nowMs (ah_lastContact h) \<ge> ah_staleAfterMs h"

definition health_sinceContactMs :: "u32 \<Rightarrow> ApiHealth \<Rightarrow> u32" where
  "health_sinceContactMs nowMs h =
     (if ah_hadContact h then elapsedMs nowMs (ah_lastContact h) else - 1)"

datatype ApiSnapshotCache = SnapshotCache (cache_valid: bool)

definition initCache :: ApiSnapshotCache where
  "initCache = SnapshotCache False"

definition cache_invalidate :: "ApiSnapshotCache \<Rightarrow> ApiSnapshotCache" where
  "cache_invalidate c = SnapshotCache False"

definition cache_commitValidSnapshot :: "ApiSnapshotCache \<Rightarrow> ApiSnapshotCache" where
  "cache_commitValidSnapshot c = SnapshotCache True"

definition canAcceptNotModified :: "ApiSnapshotCache \<Rightarrow> bool" where
  "canAcceptNotModified c = cache_valid c"

text \<open>A history of polls: contacts (at a time in ms since boot) and failures.\<close>

datatype HealthEvent = Contact nat | Failure

fun healthRun :: "ApiHealth \<Rightarrow> HealthEvent list \<Rightarrow> ApiHealth" where
  "healthRun h [] = h"
| "healthRun h (Contact t # evs) = healthRun (health_onContact (of_nat t) h) evs"
| "healthRun h (Failure # evs) = healthRun (health_onFailure h) evs"

fun latestContact :: "nat option \<Rightarrow> HealthEvent list \<Rightarrow> nat option" where
  "latestContact c [] = c"
| "latestContact c (Contact t # evs) = latestContact (Some t) evs"
| "latestContact c (Failure # evs) = latestContact c evs"

definition tracksContact :: "ApiHealth \<Rightarrow> nat option \<Rightarrow> bool" where
  "tracksContact h c \<longleftrightarrow> (case c of None \<Rightarrow> \<not> ah_hadContact h
     | Some t \<Rightarrow> ah_hadContact h \<and> ah_lastContact h = of_nat t)"

lemma healthRun_tracks:
  "tracksContact h c \<Longrightarrow>
   tracksContact (healthRun h evs) (latestContact c evs) \<and>
   ah_staleAfterMs (healthRun h evs) = ah_staleAfterMs h"
proof (induction h evs arbitrary: c rule: healthRun.induct)
  case (2 h t evs)
  show ?case using "2.IH" [of "Some t"] by (simp add: tracksContact_def health_onContact_def)
next
  case (3 h evs)
  have "tracksContact (health_onFailure h) c"
    using "3.prems" by (simp add: tracksContact_def health_onFailure_def split: option.splits)
  then show ?case using "3.IH" by (simp add: health_onFailure_def)
qed simp

text \<open>
  Staleness is about the last contact only: after any history of polls the data is
  stale exactly when there never was a contact or the last one is at least the limit ago
  (for contacts less than \<open>2 ^ 32\<close> ms ago). Failures never make data stale or fresh, so an
  outage is never mistaken for an all-clear.
\<close>

theorem stale_iff_last_contact:
  assumes "\<forall>t. latestContact None evs = Some t \<longrightarrow> t \<le> now \<and> now - t < 2 ^ 32"
  shows "health_stale (of_nat now) (healthRun (initHealth limit) evs) \<longleftrightarrow>
    (case latestContact None evs of None \<Rightarrow> True | Some t \<Rightarrow> unat limit \<le> now - t)"
proof -
  have init: "tracksContact (initHealth limit) None" by (simp add: tracksContact_def initHealth_def)
  have limit: "ah_staleAfterMs (initHealth limit) = limit" by (simp add: initHealth_def)
  show ?thesis
    using healthRun_tracks [OF init, of evs] assms unat_elapsedMs
    by (auto simp: tracksContact_def health_stale_def limit word_le_nat_alt split: option.splits)
qed

theorem stale_iff_last_contact_witness:
  "health_stale (of_nat 95000) (healthRun (initHealth 90000) [Contact 2000, Failure, Failure]) \<and>
   \<not> health_stale (of_nat 91000) (healthRun (initHealth 90000) [Contact 2000, Failure, Failure])"
  using stale_iff_last_contact [of "[Contact 2000, Failure, Failure]" 95000 90000]
    stale_iff_last_contact [of "[Contact 2000, Failure, Failure]" 91000 90000]
  by simp

text \<open>
  The bound of \<open>2 ^ 32\<close> ms matters. Nothing refreshes \<open>lastContact_\<close> during an outage, so
  after 49.7 days without contact the elapsed time wraps to 0: data of that age counts as
  fresh again for the length of the stale limit.
\<close>

lemma stale_forgets_after_wrap:
  "health_stale (of_nat (t + 2 ^ 32)) h = health_stale (of_nat t) h"
  unfolding clock_wraps ..

lemma outage_of_50_days_not_stale:
  "\<not> health_stale (of_nat (2000 + 2 ^ 32)) (healthRun (initHealth 90000) [Contact 2000, Failure, Failure])"
  by (simp add: health_stale_def elapsedMs_def initHealth_def health_onContact_def health_onFailure_def)

end
