(* ===== verification/AlertsClient.thy ===== *)
theory AlertsClient
  imports AlertsParser ApiHealth
begin

text \<open>
  The transport (\<open>AlertsClient.h\<close>, \<open>AlertsClient.cpp\<close>): one poll of the alert API. The HTTP
  and TLS libraries and the clock are the environment. A poll is given what they deliver: the
  status code and headers, and the body as the list of observations of the reading loop, one
  per turn (the clock, the next byte if there is one, and what the JSON library makes of the
  entry that starts there). A list that ends before the loop has decided is a poll that has not
  returned yet, so the functions give an option.
\<close>

definition kAlertsUrl :: string where
  "kAlertsUrl = ''https://api.ukrainealarm.com/api/v3/alerts''"

definition kTlsMinFreeHeap :: u32 where "kTlsMinFreeHeap = 15000"
definition kTlsMinBlock :: u32 where "kTlsMinBlock = 6144"
definition kLowHeapCode :: int where "kLowHeapCode = - 100"

subsection \<open>The client\<close>

record AlertsClient =
  cl_token :: string
  cl_lastModified :: string
  cl_mockUrl :: string
  cl_regions :: string
  cl_cache :: ApiSnapshotCache
  cl_mfln :: int

definition initClient :: AlertsClient where
  "initClient = \<lparr>cl_token = [], cl_lastModified = [], cl_mockUrl = [], cl_regions = [], cl_cache = initCache, cl_mfln = - 1\<rparr>"

definition invalidateCache :: "AlertsClient \<Rightarrow> AlertsClient" where
  "invalidateCache c = c\<lparr>cl_lastModified := [], cl_cache := cache_invalidate (cl_cache c)\<rparr>"

definition client_begin :: "string \<Rightarrow> AlertsClient \<Rightarrow> AlertsClient" where
  "client_begin token c = (let c = (if token \<noteq> cl_token c then invalidateCache c else c) in c\<lparr>cl_token := token\<rparr>)"

definition hasToken :: "AlertsClient \<Rightarrow> bool" where
  "hasToken c = (length (cl_token c) > 0)"

definition hasCachedSnapshot :: "AlertsClient \<Rightarrow> bool" where
  "hasCachedSnapshot c = canAcceptNotModified (cl_cache c)"

definition setMockUrl :: "string \<Rightarrow> AlertsClient \<Rightarrow> AlertsClient" where
  "setMockUrl url c = (let c = (if url \<noteq> cl_mockUrl c then invalidateCache c else c) in c\<lparr>cl_mockUrl := url\<rparr>)"

definition mocked :: "AlertsClient \<Rightarrow> bool" where
  "mocked c = (length (cl_mockUrl c) > 0)"

definition setRegions :: "string \<Rightarrow> AlertsClient \<Rightarrow> AlertsClient" where
  "setRegions ids c = (let c = (if ids \<noteq> cl_regions c then invalidateCache c else c) in c\<lparr>cl_regions := ids\<rparr>)"

subsection \<open>Reading the body\<close>

record 'j BodyTurn =
  bt_now :: u32
  bt_byte :: "char option"
  bt_byteAt :: u32
  bt_entry :: "string + 'j"

definition timedOut :: "u32 \<Rightarrow> u32 \<Rightarrow> u32 \<Rightarrow> bool" where
  "timedOut start lastByteAt now \<longleftrightarrow> now - start \<ge> 20000 \<or> now - lastByteAt \<ge> 5000"

definition isSpace :: "char \<Rightarrow> bool" where
  "isSpace c = (c = CHR '' '' \<or> c = CHR 0x0D \<or> c = CHR 0x0A \<or> c = CHR 0x09)"

text \<open>The first loop: is the body an array, when did its last byte arrive, and the turns left.\<close>

fun scanArray :: "u32 \<Rightarrow> u32 \<Rightarrow> 'j BodyTurn list \<Rightarrow> (bool \<times> u32 \<times> 'j BodyTurn list) option" where
  "scanArray start lastByteAt [] = None"
| "scanArray start lastByteAt (x # xs) =
     (if timedOut start lastByteAt (bt_now x) then Some (False, lastByteAt, xs)
      else case bt_byte x of
        None \<Rightarrow> scanArray start lastByteAt xs
      | Some c \<Rightarrow>
          if c = CHR ''['' then Some (True, bt_byteAt x, xs)
          else if \<not> isSpace c then Some (False, bt_byteAt x, xs)
          else scanArray start (bt_byteAt x) xs)"

datatype BodyError = NotArrayBody | EntryError string | BodyTimeout

fun bodyDetail :: "BodyError \<Rightarrow> string" where
  "bodyDetail NotArrayBody = ''NoAlertsArray''"
| "bodyDetail (EntryError err) = err"
| "bodyDetail BodyTimeout = ''timeout''"

text \<open>The second loop: no error stands for a complete array.\<close>

fun readEntries :: "'j JsonOps \<Rightarrow> u32 \<Rightarrow> u32 \<Rightarrow> 'j BodyTurn list \<Rightarrow> SnapshotBuilder \<times> ParseStats \<Rightarrow>
    (BodyError option \<times> SnapshotBuilder \<times> ParseStats) option" where
  "readEntries J start lastByteAt [] bs = None"
| "readEntries J start lastByteAt (x # xs) bs =
     (if timedOut start lastByteAt (bt_now x) then Some (Some BodyTimeout, bs)
      else case bt_byte x of
        None \<Rightarrow> readEntries J start lastByteAt xs bs
      | Some c \<Rightarrow>
          if c = CHR '']'' then Some (None, bs)
          else if c = CHR '','' \<or> isSpace c then readEntries J start (bt_byteAt x) xs bs
          else case bt_entry x of
            Inl err \<Rightarrow> Some (Some (EntryError err), bs)
          | Inr d \<Rightarrow> readEntries J start (bt_byteAt x) xs (regionToAlerts J d bs))"

definition parseBody :: "'j JsonOps \<Rightarrow> u32 \<Rightarrow> 'j BodyTurn list \<Rightarrow> SnapshotBuilder \<times> ParseStats \<Rightarrow>
    (BodyError option \<times> SnapshotBuilder \<times> ParseStats) option" where
  "parseBody J start turns bs =
     (case scanArray start start turns of
        None \<Rightarrow> None
      | Some (inArray, lastByteAt, rest) \<Rightarrow>
          if \<not> inArray then Some (Some NotArrayBody, bs)
          else readEntries J start lastByteAt rest (builder_reset (fst bs), snd bs))"

subsection \<open>One poll\<close>

datatype ResultKind = ResOk | ResNotModified | ResAuthError | ResForbidden | ResRateLimited | ResHttpError | ResNetError | ResParseError

record PollResult =
  pr_kind :: ResultKind
  pr_httpCode :: int
  pr_retryAfterSec :: u32
  pr_stats :: ParseStats
  pr_parseDetail :: "string option"
  pr_heapAtError :: u32

definition initResult :: PollResult where
  "initResult = \<lparr>pr_kind = ResNetError, pr_httpCode = 0, pr_retryAfterSec = 0, pr_stats = initStats,
     pr_parseDetail = None, pr_heapAtError = 0\<rparr>"

record 'j PollEnv =
  pe_freeHeap :: u32
  pe_maxBlock :: u32
  pe_mfln :: bool
  pe_begin :: bool
  pe_code :: int
  pe_lastModified :: string
  pe_retryAfter :: int
  pe_start :: u32
  pe_body :: "'j BodyTurn list"
  pe_heapAtError :: u32

definition pollUrl :: "AlertsClient \<Rightarrow> string" where
  "pollUrl c =
     (if length (cl_mockUrl c) > 0
      then cl_mockUrl c @ (if length (cl_regions c) > 0
        then (if CHR ''?'' \<notin> set (cl_mockUrl c) then ''?regions='' else ''&regions='') @ cl_regions c else [])
      else kAlertsUrl)"

definition pollSecure :: "AlertsClient \<Rightarrow> bool" where
  "pollSecure c \<longleftrightarrow> \<not> (length (cl_mockUrl c) > 0 \<and> \<not> startsWith (cl_mockUrl c) ''https'')"

definition requestHeaders :: "AlertsClient \<Rightarrow> (string \<times> string) list" where
  "requestHeaders c = [(''Authorization'', cl_token c)] @
     (if length (cl_lastModified c) > 0 then [(''If-Modified-Since'', cl_lastModified c)] else [])"

text \<open>The TLS set-up: too little heap ends the poll; the fragment length is probed once.\<close>

definition lowHeap :: "'j PollEnv \<Rightarrow> AlertsClient \<Rightarrow> bool" where
  "lowHeap env c \<longleftrightarrow> pollSecure c \<and> (pe_freeHeap env < kTlsMinFreeHeap \<or> pe_maxBlock env < kTlsMinBlock)"

definition probeMfln :: "'j PollEnv \<Rightarrow> AlertsClient \<Rightarrow> AlertsClient" where
  "probeMfln env c = (if pollSecure c \<and> cl_mfln c < 0 \<and> \<not> length (cl_mockUrl c) > 0
     then c\<lparr>cl_mfln := (if pe_mfln env then 1 else 0)\<rparr> else c)"

definition rxBufferSize :: "AlertsClient \<Rightarrow> nat" where
  "rxBufferSize c = (if cl_mfln c = 1 then 1024 else 4096)"

text \<open>What the answer means: the outcome with the client and the builder after it.\<close>

definition pollOk :: "'j JsonOps \<Rightarrow> 'j PollEnv \<Rightarrow> PollResult \<Rightarrow> AlertsClient \<Rightarrow> SnapshotBuilder \<Rightarrow>
    (PollResult \<times> AlertsClient \<times> SnapshotBuilder) option" where
  "pollOk J env r c b =
     (case parseBody J (pe_start env) (pe_body env) (b, pr_stats r) of
        None \<Rightarrow> None
      | Some (Some err, b, st) \<Rightarrow>
          Some (r\<lparr>pr_kind := ResParseError, pr_stats := st, pr_parseDetail := Some (bodyDetail err),
                  pr_heapAtError := (case err of EntryError _ \<Rightarrow> pe_heapAtError env | _ \<Rightarrow> 0)\<rparr>,
                invalidateCache c, b)
      | Some (None, b, st) \<Rightarrow>
          Some (r\<lparr>pr_kind := ResOk, pr_stats := st\<rparr>,
                c\<lparr>cl_lastModified := pe_lastModified env, cl_cache := cache_commitValidSnapshot (cl_cache c)\<rparr>, b))"

definition pollNotModified :: "PollResult \<Rightarrow> AlertsClient \<Rightarrow> PollResult \<times> AlertsClient" where
  "pollNotModified r c =
     (if canAcceptNotModified (cl_cache c) then (r\<lparr>pr_kind := ResNotModified\<rparr>, c)
      else (r\<lparr>pr_kind := ResParseError\<rparr>, c\<lparr>cl_lastModified := []\<rparr>))"

definition poll :: "'j JsonOps \<Rightarrow> 'j PollEnv \<Rightarrow> AlertsClient \<Rightarrow> SnapshotBuilder \<Rightarrow>
    (PollResult \<times> AlertsClient \<times> SnapshotBuilder) option" where
  "poll J env c b =
     (if lowHeap env c
      then Some (initResult\<lparr>pr_kind := ResNetError, pr_httpCode := kLowHeapCode, pr_heapAtError := pe_freeHeap env\<rparr>, c, b)
      else
        let c = probeMfln env c in
        if \<not> pe_begin env then Some (initResult\<lparr>pr_kind := ResNetError\<rparr>, c, b)
        else
          let r = initResult\<lparr>pr_httpCode := pe_code env\<rparr> in
          if pe_code env = 200 then pollOk J env r c b
          else if pe_code env = 304 then (case pollNotModified r c of (r, c) \<Rightarrow> Some (r, c, b))
          else if pe_code env = 401 then Some (r\<lparr>pr_kind := ResAuthError\<rparr>, c, b)
          else if pe_code env = 403 then Some (r\<lparr>pr_kind := ResForbidden\<rparr>, c, b)
          else if pe_code env = 429
          then Some (r\<lparr>pr_kind := ResRateLimited, pr_retryAfterSec := word_of_int (pe_retryAfter env)\<rparr>, c, b)
          else Some (r\<lparr>pr_kind := (if pe_code env < 0 then ResNetError else ResHttpError)\<rparr>, c, b))"

subsection \<open>Lemmas\<close>

lemma readEntries_frame:
  "readEntries J start l turns bs = Some (e, bs') \<Longrightarrow>
   sb_selected (fst bs') = sb_selected (fst bs) \<and> sb_catalog (fst bs') = sb_catalog (fst bs)"
  by (induction J start l turns bs rule: readEntries.induct) (auto split: if_split_asm option.split_asm sum.split_asm)

lemma parseBody_frame:
  "parseBody J start turns (b, st) = Some (e, b', st') \<Longrightarrow> sb_selected b' = sb_selected b \<and> sb_catalog b' = sb_catalog b"
  using readEntries_frame [of J start _ _ "(builder_reset b, st)" e "(b', st')"]
  by (auto simp: parseBody_def builder_reset_def split: option.splits prod.splits if_split_asm)

lemma pollOk_frame:
  "pollOk J env r c b = Some (r', c', b') \<Longrightarrow> sb_selected b' = sb_selected b \<and> sb_catalog b' = sb_catalog b"
  by (auto simp: pollOk_def split: option.splits prod.splits dest: parseBody_frame)

lemma poll_frame:
  "poll J env c b = Some (r, c', b') \<Longrightarrow> sb_selected b' = sb_selected b \<and> sb_catalog b' = sb_catalog b"
  by (auto simp: poll_def Let_def split: if_split_asm prod.splits dest: pollOk_frame)

text \<open>
  The documents of a body that is read to its end. The body that is complete streams them into
  the freshly reset builder, in order; any other is an error.
\<close>

fun entriesRead :: "u32 \<Rightarrow> u32 \<Rightarrow> 'j BodyTurn list \<Rightarrow> 'j list option" where
  "entriesRead start lastByteAt [] = None"
| "entriesRead start lastByteAt (x # xs) =
     (if timedOut start lastByteAt (bt_now x) then None
      else case bt_byte x of
        None \<Rightarrow> entriesRead start lastByteAt xs
      | Some c \<Rightarrow>
          if c = CHR '']'' then Some []
          else if c = CHR '','' \<or> isSpace c then entriesRead start (bt_byteAt x) xs
          else case bt_entry x of
            Inl err \<Rightarrow> None
          | Inr d \<Rightarrow> map_option (Cons d) (entriesRead start (bt_byteAt x) xs))"

definition responseDocs :: "u32 \<Rightarrow> 'j BodyTurn list \<Rightarrow> 'j list option" where
  "responseDocs start turns = (case scanArray start start turns of
     Some (True, lastByteAt, rest) \<Rightarrow> entriesRead start lastByteAt rest | _ \<Rightarrow> None)"

lemma readEntries_complete:
  "readEntries J start l turns bs = Some (None, bs') \<longleftrightarrow>
   (\<exists>docs. entriesRead start l turns = Some docs \<and> bs' = fold (regionToAlerts J) docs bs)"
  by (induction J start l turns bs rule: readEntries.induct) (auto split: option.splits sum.splits)

lemma parseBody_complete:
  "parseBody J start turns (b, st) = Some (None, bs') \<longleftrightarrow>
   (\<exists>docs. responseDocs start turns = Some docs \<and> bs' = fold (regionToAlerts J) docs (builder_reset b, st))"
  by (auto simp: parseBody_def responseDocs_def readEntries_complete split: option.splits prod.splits bool.splits)

text \<open>The clock bounds both loops: some turn comes when the 20 seconds are over.\<close>

definition late :: "u32 \<Rightarrow> 'j BodyTurn list \<Rightarrow> bool" where
  "late start turns = list_ex (\<lambda>x. bt_now x - start \<ge> 20000) turns"

lemma late_simps [simp]: "\<not> late start []" "late start (x # xs) \<longleftrightarrow> bt_now x - start \<ge> 20000 \<or> late start xs"
  by (simp_all add: late_def)

lemma readEntries_open: "readEntries J start l turns bs = None \<Longrightarrow> \<not> late start turns"
  by (induction J start l turns bs rule: readEntries.induct)
    (auto simp: timedOut_def split: if_split_asm option.split_asm sum.split_asm)

lemma readEntries_returns: "late start turns \<Longrightarrow> readEntries J start l turns bs \<noteq> None"
  using readEntries_open by blast

lemma scanArray_returns: "late start turns \<Longrightarrow> scanArray start l turns \<noteq> None"
  by (induction turns arbitrary: l) (auto simp: timedOut_def simp del: not_None_eq split: option.split)

lemma scanArray_late: "scanArray start l turns = Some (True, l', rest) \<Longrightarrow> late start turns \<Longrightarrow> late start rest"
  by (induction start l turns rule: scanArray.induct) (auto simp: timedOut_def split: if_split_asm option.split_asm)

lemma parseBody_returns:
  assumes "late start turns"
  shows "parseBody J start turns bs \<noteq> None"
proof -
  obtain a l rest where sc: "scanArray start start turns = Some (a, l, rest)"
    using scanArray_returns [OF assms, of start] by auto
  show ?thesis
  proof (cases a)
    case True
    with sc have "late start rest" using scanArray_late [of start start turns l rest] assms by simp
    then have "readEntries J start l rest (builder_reset (fst bs), snd bs) \<noteq> None" by (rule readEntries_returns)
    then show ?thesis using sc True by (simp add: parseBody_def)
  qed (simp add: sc parseBody_def)
qed

text \<open>
  C33. A poll always returns: both loops over the body end at the latest with the first turn 20 s
  after the start, whatever the server sends or keeps back, on a clock that may wrap meanwhile.
\<close>

theorem poll_returns:
  assumes "late (pe_start env) (pe_body env)"
  shows "poll J env c b \<noteq> None"
proof -
  have "pollOk J env r c' b \<noteq> None" for r c'
    using parseBody_returns [OF assms, of J "(b, pr_stats r)"] by (auto simp: pollOk_def split: option.splits)
  then show ?thesis by (simp add: poll_def Let_def split: prod.split)
qed

text \<open>A server that sends blanks, a second apart, for ever: the clock wraps after four of them.\<close>

definition drippingEnv :: "json PollEnv" where
  "drippingEnv = \<lparr>pe_freeHeap = 20000, pe_maxBlock = 8000, pe_mfln = False, pe_begin = True, pe_code = 200,
     pe_lastModified = [], pe_retryAfter = 0, pe_start = - 4000,
     pe_body = map (\<lambda>i. \<lparr>bt_now = of_nat (1000 * i) - 4000, bt_byte = Some CHR '' '',
       bt_byteAt = of_nat (1000 * i) - 4000, bt_entry = Inl []\<rparr>) [0..<21], pe_heapAtError = 0\<rparr>"

theorem poll_returns_witness: "poll jsonOps drippingEnv initClient initBuilder \<noteq> None"
  by (rule poll_returns) (simp add: drippingEnv_def late_def upt_rec)

end
