(* ===== verification/EventLog.thy ===== *)
theory EventLog
  imports AirPrelude
begin

text \<open>
  The event log: its vocabulary and record format (\<open>EventLog.h\<close>) and the two files it
  rotates (\<open>EventLogStore.h\<close>). The file system is a parameter with a contract.
\<close>

datatype LogEvent =
    LogBoot | LogWifiConnected | LogWifiDisconnected
  | LogApiOnline | LogApiOffline | LogApi401 | LogApi403 | LogApi429 | LogApiParseError
  | LogAlertStart | LogAlertPartial | LogAlertFull | LogAlertEnd
  | LogMute | LogUnmute | LogTest | LogConfigChanged
  | LogOtaStarted | LogOtaSuccess | LogOtaFailed | LogFactoryReset | LogRelaySafetyTrip
  | LogRelayPress

fun logEventName :: "LogEvent \<Rightarrow> string" where
  "logEventName LogBoot = ''BOOT''"
| "logEventName LogWifiConnected = ''WIFI_CONNECTED''"
| "logEventName LogWifiDisconnected = ''WIFI_DISCONNECTED''"
| "logEventName LogApiOnline = ''API_ONLINE''"
| "logEventName LogApiOffline = ''API_OFFLINE''"
| "logEventName LogApi401 = ''API_401''"
| "logEventName LogApi403 = ''API_403''"
| "logEventName LogApi429 = ''API_429''"
| "logEventName LogApiParseError = ''API_PARSE_ERROR''"
| "logEventName LogAlertStart = ''ALERT_START''"
| "logEventName LogAlertPartial = ''ALERT_PARTIAL''"
| "logEventName LogAlertFull = ''ALERT_FULL''"
| "logEventName LogAlertEnd = ''ALERT_END''"
| "logEventName LogMute = ''MUTE''"
| "logEventName LogUnmute = ''UNMUTE''"
| "logEventName LogTest = ''TEST''"
| "logEventName LogConfigChanged = ''CONFIG_CHANGED''"
| "logEventName LogOtaStarted = ''OTA_STARTED''"
| "logEventName LogOtaSuccess = ''OTA_SUCCESS''"
| "logEventName LogOtaFailed = ''OTA_FAILED''"
| "logEventName LogFactoryReset = ''FACTORY_RESET''"
| "logEventName LogRelaySafetyTrip = ''RELAY_SAFETY_TRIP''"
| "logEventName LogRelayPress = ''RELAY_PRESS''"

definition quote :: string where "quote = [CHR 0x22]"

text \<open>The record, when it fits the buffer of \<open>cap\<close> bytes with its terminator.\<close>

definition formatLogRecord :: "nat \<Rightarrow> int \<Rightarrow> LogEvent \<Rightarrow> string option \<Rightarrow> string option" where
  "formatLogRecord cap ts e detail =
     (let line = ''{'' @ quote @ ''ts'' @ quote @ '':'' @ showInt ts @ '','' @ quote @ ''event'' @ quote @ '':'' @ quote @
            logEventName e @ quote @
            (case detail of None \<Rightarrow> [] | Some d \<Rightarrow> '','' @ quote @ ''detail'' @ quote @ '':'' @ quote @ d @ quote) @
            ''}'' @ [CHR 0x0A]
      in if length line < cap then Some line else None)"

subsection \<open>The files\<close>

definition kMaxFileBytes :: nat where "kMaxFileBytes = 16 * 1024"

record 'f LogFs =
  lf_size :: "'f \<Rightarrow> string \<Rightarrow> nat option"
  lf_exists :: "'f \<Rightarrow> string \<Rightarrow> bool"
  lf_mkdir :: "'f \<Rightarrow> string \<Rightarrow> bool \<times> 'f"
  lf_remove :: "'f \<Rightarrow> string \<Rightarrow> bool \<times> 'f"
  lf_append :: "'f \<Rightarrow> string \<Rightarrow> string \<Rightarrow> ('f \<times> nat \<times> bool) option"

record EventLogStore =
  el_active :: bool
  el_healthy :: bool

definition initLog :: EventLogStore where
  "initLog = \<lparr>el_active = False, el_healthy = False\<rparr>"

definition logPath :: "bool \<Rightarrow> string" where
  "logPath active = (if active then ''/log/ev.1'' else ''/log/ev.0'')"

definition activePath :: "EventLogStore \<Rightarrow> string" where
  "activePath s = logPath (el_active s)"

definition olderPath :: "EventLogStore \<Rightarrow> string" where
  "olderPath s = logPath (\<not> el_active s)"

definition fileSize :: "'f LogFs \<Rightarrow> 'f \<Rightarrow> string \<Rightarrow> nat" where
  "fileSize F f p = (case lf_size F f p of None \<Rightarrow> 0 | Some n \<Rightarrow> n)"

definition log_begin :: "'f LogFs \<Rightarrow> 'f \<Rightarrow> EventLogStore \<Rightarrow> EventLogStore \<times> 'f" where
  "log_begin F f s =
     (let (healthy, f) = (if lf_exists F f ''/log'' then (True, f) else lf_mkdir F f ''/log'');
          s0 = fileSize F f ''/log/ev.0''; s1 = fileSize F f ''/log/ev.1''
      in (s\<lparr>el_healthy := healthy,
            el_active := (if s1 > 0 \<and> s1 < s0 then True else if s0 \<ge> kMaxFileBytes then True else False)\<rparr>, f))"

definition log_append :: "'f LogFs \<Rightarrow> string \<Rightarrow> EventLogStore \<times> 'f \<Rightarrow> EventLogStore \<times> 'f" where
  "log_append F line sf = (case sf of (s, f) \<Rightarrow>
     (case lf_append F f (activePath s) line of
        None \<Rightarrow> (s\<lparr>el_healthy := False\<rparr>, f)
      | Some (f, written, good) \<Rightarrow> (s\<lparr>el_healthy := (written = length line \<and> good)\<rparr>, f)))"

definition log_event :: "'f LogFs \<Rightarrow> int \<Rightarrow> LogEvent \<Rightarrow> string option \<Rightarrow> EventLogStore \<times> 'f \<Rightarrow> EventLogStore \<times> 'f" where
  "log_event F now e detail sf = (case sf of (s, f) \<Rightarrow>
     (let ts = (if now > 1600000000 then now else 0) in
      case formatLogRecord 160 ts e detail of
        None \<Rightarrow> (s, f)
      | Some line \<Rightarrow>
          if fileSize F f (activePath s) + length line > kMaxFileBytes then
            (let s = s\<lparr>el_active := \<not> el_active s\<rparr> in
             if lf_exists F f (activePath s) then
               (case lf_remove F f (activePath s) of
                  (False, f) \<Rightarrow> (s\<lparr>el_healthy := False\<rparr>, f)
                | (True, f) \<Rightarrow> log_append F line (s, f))
             else log_append F line (s, f))
          else log_append F line (s, f)))"

subsection \<open>What the log relies on\<close>

locale log_files =
  fixes F :: "'f LogFs" and content :: "'f \<Rightarrow> string \<Rightarrow> string option"
  assumes size_content: "lf_size F f p = map_option length (content f p)"
    and exists_content: "p \<in> {''/log/ev.0'', ''/log/ev.1''} \<Longrightarrow> lf_exists F f p \<longleftrightarrow> content f p \<noteq> None"
    and mkdir_content: "lf_mkdir F f p = (b, g) \<Longrightarrow> content g = content f"
    and remove_done: "lf_remove F f p = (True, g) \<Longrightarrow> content g = (content f)(p := None)"
    and remove_fails: "lf_remove F f p = (False, g) \<Longrightarrow> content g = content f"
    and append_content: "lf_append F f p s = Some (g, n, good) \<Longrightarrow>
      n \<le> length s \<and> content g = (content f)(p \<mapsto> (case content f p of None \<Rightarrow> [] | Some c \<Rightarrow> c) @ take n s)"
begin

definition bounded :: "'f \<Rightarrow> bool" where
  "bounded f \<longleftrightarrow> (\<forall>a. fileSize F f (logPath a) \<le> kMaxFileBytes)"

lemma fileSize_content: "fileSize F f p = (case content f p of None \<Rightarrow> 0 | Some c \<Rightarrow> length c)"
  by (simp add: fileSize_def size_content split: option.split)

lemma fileSize_cong: "content g p = content f p \<Longrightarrow> fileSize F g p = fileSize F f p"
  by (simp add: fileSize_content)

lemma formatLogRecord_short: "formatLogRecord cap ts e d = Some line \<Longrightarrow> length line < cap"
  by (auto simp: formatLogRecord_def Let_def split: if_splits)

lemma logPath_inj [simp]: "logPath a = logPath b \<longleftrightarrow> a = b"
  by (simp add: logPath_def)

lemma log_append_bounded:
  assumes "bounded f" "fileSize F f (activePath s) + length line \<le> kMaxFileBytes" "log_append F line (s, f) = (s', f')"
  shows "bounded f'"
proof (cases "lf_append F f (activePath s) line")
  case None
  then show ?thesis using assms by (simp add: log_append_def)
next
  case (Some r)
  obtain g n good where r: "r = (g, n, good)" by (cases r)
  note ap = append_content [OF Some [unfolded r]]
  have "fileSize F g (logPath a) \<le> kMaxFileBytes" for a
  proof (cases "a = el_active s")
    case True
    have "length (take n line) \<le> length line" by simp
    then show ?thesis using ap assms(2) True
      by (auto simp: fileSize_content activePath_def split: option.splits)
  next
    case False
    then have "content g (logPath a) = content f (logPath a)" using ap by (simp add: activePath_def)
    then show ?thesis using assms(1) fileSize_cong [of g "logPath a" f] by (simp add: bounded_def)
  qed
  then show ?thesis using assms(3) Some r by (simp add: log_append_def bounded_def)
qed

lemma removed_bounded:
  "bounded f \<Longrightarrow> content g = (content f)(p := None) \<Longrightarrow> bounded g \<and> fileSize F g p = 0"
  by (auto simp: bounded_def fileSize_content fun_upd_apply)

lemma log_event_bounded:
  assumes "bounded f" "log_event F now e detail (s, f) = (s', f')"
  shows "bounded f'"
proof (cases "formatLogRecord 160 (if now > 1600000000 then now else 0) e detail")
  case None
  then show ?thesis using assms by (simp add: log_event_def Let_def)
next
  case (Some line)
  then have short: "length line \<le> kMaxFileBytes" using formatLogRecord_short by (fastforce simp: kMaxFileBytes_def)
  define s1 where "s1 = s\<lparr>el_active := \<not> el_active s\<rparr>"
  have path: "activePath s1 \<in> {''/log/ev.0'', ''/log/ev.1''}" by (simp add: activePath_def logPath_def)
  consider (stay) "fileSize F f (activePath s) + length line \<le> kMaxFileBytes" "log_append F line (s, f) = (s', f')"
    | (fail) "lf_remove F f (activePath s1) = (False, f')"
    | (swap) f1 where "lf_remove F f (activePath s1) = (True, f1)" "log_append F line (s1, f1) = (s', f')"
    | (fresh) "\<not> lf_exists F f (activePath s1)" "log_append F line (s1, f) = (s', f')"
    using assms(2) Some by (auto simp: log_event_def Let_def s1_def not_less split: if_split_asm prod.splits bool.splits)
  then show ?thesis
  proof cases
    case stay then show ?thesis using log_append_bounded [OF assms(1)] by blast
  next
    case fail then show ?thesis using remove_fails [OF fail] assms(1) by (simp add: bounded_def fileSize_content)
  next
    case swap
    then have "bounded f1" "fileSize F f1 (activePath s1) = 0" using removed_bounded [OF assms(1) remove_done] by auto
    then show ?thesis using log_append_bounded [OF _ _ swap(2)] short by simp
  next
    case fresh
    then have "fileSize F f (activePath s1) = 0" using exists_content [OF path] by (simp add: fileSize_content)
    then show ?thesis using log_append_bounded [OF assms(1) _ fresh(2)] short by simp
  qed
qed

text \<open>A record that was written is the end of the active file; the other file is left alone.\<close>

definition appended :: "'f \<Rightarrow> 'f \<Rightarrow> EventLogStore \<Rightarrow> string \<Rightarrow> bool" where
  "appended f g s line \<longleftrightarrow>
     content g (activePath s) = Some ((case content f (activePath s) of None \<Rightarrow> [] | Some c \<Rightarrow> c) @ line) \<and>
     content g (olderPath s) = content f (olderPath s)"

lemma paths_differ [simp]: "olderPath s \<noteq> activePath s" "activePath s \<noteq> olderPath s"
  by (simp_all add: olderPath_def activePath_def)

lemma log_append_appended:
  assumes "log_append F line (s, f) = (s', f')" "el_healthy s'"
  shows "el_active s' = el_active s \<and> appended f f' s line"
proof -
  obtain g n good where r: "lf_append F f (activePath s) line = Some (g, n, good)"
    using assms by (cases "lf_append F f (activePath s) line") (auto simp: log_append_def)
  then show ?thesis using assms append_content [OF r] by (auto simp: log_append_def appended_def)
qed

lemma log_event_appended:
  assumes "log_event F now e detail (s, f) = (s', f')" "el_healthy s'"
    "formatLogRecord 160 (if now > 1600000000 then now else 0) e detail = Some line"
  shows "\<exists>old. content f' (activePath s') = Some (old @ line) \<and>
      (if el_active s' = el_active s then old = (case content f (activePath s) of None \<Rightarrow> [] | Some c \<Rightarrow> c) else old = []) \<and>
      content f' (olderPath s') = content f (olderPath s')"
proof -
  define s1 where "s1 = s\<lparr>el_active := \<not> el_active s\<rparr>"
  have s1: "el_active s1 = (\<not> el_active s)" by (simp add: s1_def)
  have path: "activePath s1 \<in> {''/log/ev.0'', ''/log/ev.1''}" by (simp add: activePath_def logPath_def)
  have same: "activePath x = activePath y" "olderPath x = olderPath y" if "el_active x = el_active y" for x y
    using that by (simp_all add: activePath_def olderPath_def)
  consider (stay) "log_append F line (s, f) = (s', f')"
    | (fail) "\<not> el_healthy s'"
    | (swap) f1 where "lf_remove F f (activePath s1) = (True, f1)" "log_append F line (s1, f1) = (s', f')"
    | (fresh) "\<not> lf_exists F f (activePath s1)" "log_append F line (s1, f) = (s', f')"
    using assms(1,3) by (auto simp: log_event_def Let_def s1_def split: if_split_asm prod.splits bool.splits)
  then show ?thesis
  proof cases
    case stay
    then have "el_active s' = el_active s" "appended f f' s line" using log_append_appended assms(2) by blast+
    then show ?thesis using same [of s' s] by (simp add: appended_def)
  next
    case fail then show ?thesis using assms(2) by simp
  next
    case swap
    then have "el_active s' = el_active s1" "appended f1 f' s1 line" using log_append_appended assms(2) by blast+
    then show ?thesis using same [of s' s1] remove_done [OF swap(1)] s1 by (simp add: appended_def)
  next
    case fresh
    then have a: "el_active s' = el_active s1" "appended f f' s1 line" using log_append_appended assms(2) by blast+
    moreover have "content f (activePath s1) = None" using exists_content [OF path] fresh(1) by blast
    ultimately show ?thesis using same [of s' s1] s1 by (simp add: appended_def)
  qed
qed

end

text \<open>A flash of files with at most \<open>cap\<close> characters meets the contract.\<close>

definition flashLog :: "nat \<Rightarrow> (string \<Rightarrow> string option) LogFs" where
  "flashLog cap = \<lparr>lf_size = (\<lambda>f p. map_option length (f p)), lf_exists = (\<lambda>f p. f p \<noteq> None),
     lf_mkdir = (\<lambda>f p. (True, f)), lf_remove = (\<lambda>f p. (True, f(p := None))),
     lf_append = (\<lambda>f p s. let old = (case f p of None \<Rightarrow> [] | Some c \<Rightarrow> c); n = min (length s) (cap - length old)
       in Some (f(p \<mapsto> old @ take n s), n, n = length s))\<rparr>"

interpretation flash_log: log_files "flashLog cap" "\<lambda>f. f"
  by unfold_locales (auto simp: flashLog_def Let_def split: option.split)

subsection \<open>Properties\<close>

text \<open>
  C35. The log is circular: logging keeps both files within 16 KiB, whatever fails in the file
  system. A record that was written (the store reports healthy) is whole, at the end of the
  active file; a rotation drops only the older file, so the newest records always stay.
\<close>

theorem log_rotation_bounded:
  assumes "log_files F content" and "\<forall>p\<in>{''/log/ev.0'', ''/log/ev.1''}. fileSize F f p \<le> kMaxFileBytes"
    and "log_event F now e detail (s, f) = (s', f')"
  shows "(\<forall>p\<in>{''/log/ev.0'', ''/log/ev.1''}. fileSize F f' p \<le> kMaxFileBytes) \<and>
    (\<forall>line. el_healthy s' \<longrightarrow> formatLogRecord 160 (if now > 1600000000 then now else 0) e detail = Some line \<longrightarrow>
      (\<exists>old. content f' (activePath s') = Some (old @ line) \<and>
        (if el_active s' = el_active s then old = (case content f (activePath s) of None \<Rightarrow> [] | Some c \<Rightarrow> c) else old = []) \<and>
        content f' (olderPath s') = content f (olderPath s')))"
proof -
  have bounded: "log_files.bounded F g \<longleftrightarrow> (\<forall>p\<in>{''/log/ev.0'', ''/log/ev.1''}. fileSize F g p \<le> kMaxFileBytes)" for g
    unfolding log_files.bounded_def [OF assms(1)] logPath_def by auto
  show ?thesis
    using log_files.log_event_bounded [OF assms(1) _ assms(3)] log_files.log_event_appended [OF assms(1,3)] assms(2)
    unfolding bounded by blast
qed

theorem log_rotation_bounded_witness:
  "let f = [''/log/ev.0'' \<mapsto> replicate 16380 (CHR ''x'')];
       (s', f') = log_event (flashLog 20000) 0 LogMute None (initLog, f)
   in activePath s' = ''/log/ev.1'' \<and> fileSize (flashLog 20000) f' ''/log/ev.1'' \<le> kMaxFileBytes"
proof -
  let ?f = "[''/log/ev.0'' \<mapsto> replicate 16380 (CHR ''x'')]"
  obtain s' f' where r: "log_event (flashLog 20000) 0 LogMute None (initLog, ?f) = (s', f')" by fastforce
  have "\<forall>p\<in>{''/log/ev.0'', ''/log/ev.1''}. fileSize (flashLog 20000) ?f p \<le> kMaxFileBytes"
    by (simp add: fileSize_def flashLog_def kMaxFileBytes_def)
  from log_rotation_bounded [OF flash_log.log_files_axioms this r]
  have "fileSize (flashLog 20000) f' ''/log/ev.1'' \<le> kMaxFileBytes" by simp
  moreover have "activePath s' = ''/log/ev.1''"
    using r by (auto simp: log_event_def formatLogRecord_def Let_def initLog_def fileSize_def flashLog_def
        activePath_def logPath_def log_append_def kMaxFileBytes_def quote_def showInt_def showNat.simps)
  ultimately show ?thesis using r by simp
qed

end
