(* ===== verification/Indication.thy ===== *)
theory Indication
  imports AirPrelude
begin

text \<open>
  The two indicators (\<open>src/hardware/Indication.h\<close>): the system LED and the alert output, which
  may drive a relay with a lamp. Each is written through a cache of the level it was driven to;
  the levels of the pins are part of the state here.
\<close>

datatype SysState = SysOk | SysDegraded | SysSetup
datatype AlertView = NoView | PartialView | FullView

record Indication =
  in_sysPin :: u8
  in_alertPin :: u8
  in_sysInv :: bool
  in_alertAh :: bool
  in_steady :: bool
  in_sysCur :: bool
  in_alertCur :: bool
  in_sys :: SysState
  in_alert :: AlertView
  in_muted :: bool
  in_sirenOn :: bool
  in_pins :: "u8 \<Rightarrow> bool"

definition initIndication :: Indication where
  "initIndication = \<lparr>in_sysPin = 2, in_alertPin = 16, in_sysInv = True, in_alertAh = True, in_steady = False,
     in_sysCur = False, in_alertCur = False, in_sys = SysSetup, in_alert = NoView, in_muted = False,
     in_sirenOn = False, in_pins = (\<lambda>_. False)\<rparr>"

definition drive :: "u8 \<Rightarrow> bool \<Rightarrow> Indication \<Rightarrow> Indication" where
  "drive pin lv i = i\<lparr>in_pins := (in_pins i)(pin := lv)\<rparr>"

definition writeSys :: "bool \<Rightarrow> Indication \<Rightarrow> Indication" where
  "writeSys on i = (if on = in_sysCur i then i
     else drive (in_sysPin i) (on \<noteq> in_sysInv i) (i\<lparr>in_sysCur := on\<rparr>))"

definition writeAlert :: "bool \<Rightarrow> Indication \<Rightarrow> Indication" where
  "writeAlert on i = (if on = in_alertCur i then i
     else drive (in_alertPin i) (on = in_alertAh i) (i\<lparr>in_alertCur := on\<rparr>))"

definition led_begin :: "u8 \<Rightarrow> bool \<Rightarrow> u8 \<Rightarrow> bool \<Rightarrow> bool \<Rightarrow> Indication \<Rightarrow> Indication" where
  "led_begin systemPin systemInverted alertPin alertActiveHigh steady i =
     (let i = i\<lparr>in_sysPin := systemPin, in_sysInv := systemInverted, in_alertPin := alertPin,
                in_alertAh := alertActiveHigh, in_steady := steady\<rparr>;
          i = drive alertPin (\<not> alertActiveHigh) i;
          i = i\<lparr>in_alertCur := False, in_sysCur := True\<rparr>
      in writeSys False i)"

definition setSystem :: "SysState \<Rightarrow> Indication \<Rightarrow> Indication" where
  "setSystem s i = i\<lparr>in_sys := s\<rparr>"

definition setAlert :: "AlertView \<Rightarrow> bool \<Rightarrow> bool \<Rightarrow> Indication \<Rightarrow> Indication" where
  "setAlert v muted sirenOn i = i\<lparr>in_alert := v, in_muted := muted, in_sirenOn := sirenOn\<rparr>"

definition sysLevel :: "u32 \<Rightarrow> SysState \<Rightarrow> bool" where
  "sysLevel now s = (case s of
      SysOk \<Rightarrow> True
    | SysDegraded \<Rightarrow> (now div 1000) mod 2 = 0
    | SysSetup \<Rightarrow> (now div 200) mod 2 = 0)"

definition alertLevel :: "u32 \<Rightarrow> Indication \<Rightarrow> bool" where
  "alertLevel now i =
     (if in_alert i = NoView then False
      else if in_steady i then True
      else if in_sirenOn i then (now div 125) mod 2 = 0
      else if in_muted i then now mod 3000 < 150
      else if in_alert i = PartialView then (now div 1000) mod 2 = 0
      else True)"

definition led_tick :: "u32 \<Rightarrow> Indication \<Rightarrow> Indication" where
  "led_tick now i = (let i = writeSys (sysLevel now (in_sys i)) i in writeAlert (alertLevel now i) i)"

subsection \<open>The caches tell the levels of the pins\<close>

definition ledInv :: "Indication \<Rightarrow> bool" where
  "ledInv i \<longleftrightarrow> in_sysPin i \<noteq> in_alertPin i \<and>
     in_pins i (in_sysPin i) = (in_sysCur i \<noteq> in_sysInv i) \<and>
     in_pins i (in_alertPin i) = (in_alertCur i = in_alertAh i)"

lemma write_frame [simp]:
  "in_sysPin (writeSys on i) = in_sysPin i" "in_alertPin (writeSys on i) = in_alertPin i"
  "in_sysInv (writeSys on i) = in_sysInv i" "in_alertAh (writeSys on i) = in_alertAh i"
  "in_steady (writeSys on i) = in_steady i" "in_alert (writeSys on i) = in_alert i"
  "in_muted (writeSys on i) = in_muted i" "in_sirenOn (writeSys on i) = in_sirenOn i"
  "in_sysPin (writeAlert on i) = in_sysPin i" "in_alertPin (writeAlert on i) = in_alertPin i"
  "in_sysInv (writeAlert on i) = in_sysInv i" "in_alertAh (writeAlert on i) = in_alertAh i"
  "in_sysCur (writeSys on i) = on" "in_alertCur (writeAlert on i) = on" "in_sysCur (writeAlert on i) = in_sysCur i"
  by (simp_all add: writeSys_def writeAlert_def drive_def)

lemma writeSys_inv: "ledInv i \<Longrightarrow> ledInv (writeSys on i)"
  by (auto simp: ledInv_def writeSys_def drive_def)

lemma writeAlert_inv: "ledInv i \<Longrightarrow> ledInv (writeAlert on i)"
  by (auto simp: ledInv_def writeAlert_def drive_def)

lemma led_begin_inv: "sp \<noteq> ap \<Longrightarrow> ledInv (led_begin sp si ap ah st i)"
  by (auto simp: ledInv_def led_begin_def writeSys_def drive_def Let_def)

lemma alertLevel_writeSys [simp]: "alertLevel now (writeSys on i) = alertLevel now i"
  by (simp add: alertLevel_def)

text \<open>Whatever is done to the indicators between two ticks.\<close>

datatype LedAct = LedBegin bool bool | LedSystem SysState | LedAlert AlertView bool bool | LedTick u32

fun ledAct :: "LedAct \<Rightarrow> Indication \<Rightarrow> Indication" where
  "ledAct (LedBegin ah st) i = led_begin 2 True 16 ah st i"
| "ledAct (LedSystem s) i = setSystem s i"
| "ledAct (LedAlert v m s) i = setAlert v m s i"
| "ledAct (LedTick now) i = led_tick now i"

lemma set_inv: "ledInv (setSystem s i) = ledInv i" "ledInv (setAlert v m so i) = ledInv i"
  by (simp_all add: ledInv_def setSystem_def setAlert_def)

lemma led_tick_inv: "ledInv i \<Longrightarrow> ledInv (led_tick now i)"
  by (simp add: led_tick_def writeSys_inv writeAlert_inv)

lemma led_tick_frame:
  "in_sys (led_tick now i) = in_sys i" "alertLevel now' (led_tick now i) = alertLevel now' i"
  "in_sysCur (led_tick now i) = sysLevel now (in_sys i)" "in_alertCur (led_tick now i) = alertLevel now i"
proof -
  have frame: "in_sys (writeSys on i) = in_sys i" "in_sys (writeAlert on i) = in_sys i"
    "alertLevel now' (writeAlert on i) = alertLevel now' i" for on i
    by (simp_all add: writeSys_def writeAlert_def drive_def alertLevel_def)
  show "in_sys (led_tick now i) = in_sys i" "alertLevel now' (led_tick now i) = alertLevel now' i"
    "in_sysCur (led_tick now i) = sysLevel now (in_sys i)" "in_alertCur (led_tick now i) = alertLevel now i"
    by (simp_all add: led_tick_def Let_def frame)
qed

lemma ledAct_inv: "ledInv i \<Longrightarrow> ledInv (ledAct a i)"
  by (cases a) (simp_all add: led_begin_inv led_tick_inv set_inv)

lemma ledActs_inv: "ledInv i \<Longrightarrow> ledInv (fold ledAct as i)"
  by (induction as arbitrary: i) (simp_all add: ledAct_inv)

text \<open>
  C36. Whatever was done to the indicators before, also a change of the configuration in the
  middle of an alert, after every tick the pins show what they should: the system LED the
  system state, the alert output the alert. A lamp (steady mode) is lit exactly during alerts.
\<close>

theorem indicators_show_state:
  assumes "i = led_tick now (fold ledAct as (led_begin 2 True 16 ah st initIndication))"
  shows "in_pins i (in_sysPin i) = (sysLevel now (in_sys i) \<noteq> in_sysInv i) \<and>
    in_pins i (in_alertPin i) = (alertLevel now i = in_alertAh i) \<and>
    (in_steady i \<longrightarrow> (in_pins i (in_alertPin i) = in_alertAh i \<longleftrightarrow> in_alert i \<noteq> NoView))"
proof -
  define i0 where "i0 = fold ledAct as (led_begin 2 True 16 ah st initIndication)"
  have "ledInv i0" unfolding i0_def by (intro ledActs_inv led_begin_inv) simp
  moreover have i: "i = led_tick now i0" using assms by (simp add: i0_def)
  ultimately have inv: "ledInv i" by (simp add: led_tick_inv)
  have "in_sysCur i = sysLevel now (in_sys i)" "in_alertCur i = alertLevel now i"
    by (simp_all add: i led_tick_frame)
  moreover have "in_steady i \<Longrightarrow> alertLevel now i = (in_alert i \<noteq> NoView)" by (simp add: alertLevel_def)
  ultimately show ?thesis using inv by (auto simp: ledInv_def)
qed

theorem indicators_show_state_witness:
  "let i = led_tick 5000 (fold ledAct [LedAlert FullView False False, LedTick 4000, LedBegin False True]
             (led_begin 2 True 16 True False initIndication))
   in in_pins i 16 = False"
proof -
  define i where "i = led_tick 5000 (fold ledAct [LedAlert FullView False False, LedTick 4000, LedBegin False True]
             (led_begin 2 True 16 True False initIndication))"
  have "in_alertPin i = 16 \<and> \<not> in_alertAh i \<and> in_steady i \<and> in_alert i = FullView"
    unfolding i_def by code_simp
  then have "\<not> in_pins i 16" using indicators_show_state [OF i_def] by auto
  then show ?thesis unfolding i_def Let_def by blast
qed

end
