(* ===== verification/SecretsStore.thy ===== *)
theory SecretsStore
  imports JsonOps AtomicJsonFile
begin

text \<open>
  The secrets on flash (\<open>SecretsStore.h\<close>): Wi-Fi credentials, API token, the hash of the web
  password. SHA-256 (BearSSL) and the random source are parameters.
\<close>

record SecretsStore =
  ss_wifiSsid :: string
  ss_wifiPass :: string
  ss_apiToken :: string
  ss_webPassHash :: string
  ss_webSalt :: string
  ss_mockUrl :: string
  ss_provisioningPass :: string

definition emptySecrets :: SecretsStore where
  "emptySecrets = \<lparr>ss_wifiSsid = [], ss_wifiPass = [], ss_apiToken = [], ss_webPassHash = [], ss_webSalt = [],
     ss_mockUrl = [], ss_provisioningPass = []\<rparr>"

definition secrets_valid :: "SecretsStore \<Rightarrow> bool" where
  "secrets_valid s =
     (let passwordEmpty = (length (ss_webPassHash s) = 0 \<and> length (ss_webSalt s) = 0);
          passwordSet = (length (ss_webPassHash s) = 64 \<and> length (ss_webSalt s) = 16);
          mockUrlValid = (length (ss_mockUrl s) = 0 \<or>
            (length (ss_mockUrl s) \<le> 192 \<and>
             (startsWith (ss_mockUrl s) ''http://'' \<or> startsWith (ss_mockUrl s) ''https://'')))
      in length (ss_wifiSsid s) \<le> 32 \<and> length (ss_wifiPass s) \<le> 64 \<and>
         (length (ss_wifiSsid s) > 0 \<or> length (ss_wifiPass s) = 0) \<and>
         (length (ss_apiToken s) = 0 \<or> (length (ss_apiToken s) \<ge> 10 \<and> length (ss_apiToken s) \<le> 256)) \<and>
         (passwordEmpty \<or> passwordSet) \<and> mockUrlValid \<and>
         (length (ss_provisioningPass s) = 0 \<or>
          (length (ss_provisioningPass s) \<ge> 12 \<and> length (ss_provisioningPass s) \<le> 32)))"

definition kSecretsPath :: string where "kSecretsPath = ''/secrets.json''"
definition kSecretsTmp :: string where "kSecretsTmp = ''/secrets.new''"
definition kSecretsBackup :: string where "kSecretsBackup = ''/secrets.bak''"

definition strOrEmpty :: "'j JsonOps \<Rightarrow> 'j \<Rightarrow> string" where
  "strOrEmpty J v = (case js_str J v of None \<Rightarrow> [] | Some s \<Rightarrow> s)"

definition secretsFromJson :: "'j JsonOps \<Rightarrow> 'j \<Rightarrow> SecretsStore" where
  "secretsFromJson J d =
     \<lparr>ss_wifiSsid = strOrEmpty J (js_member J d ''wifi_ssid''),
      ss_wifiPass = strOrEmpty J (js_member J d ''wifi_pass''),
      ss_apiToken = strOrEmpty J (js_member J d ''api_token''),
      ss_webPassHash = strOrEmpty J (js_member J d ''web_pass_hash''),
      ss_webSalt = strOrEmpty J (js_member J d ''web_salt''),
      ss_mockUrl = strOrEmpty J (js_member J d ''mock_url''),
      ss_provisioningPass = strOrEmpty J (js_member J d ''provisioning_pass'')\<rparr>"

definition secrets_load :: "('f, 'j) FsOps \<Rightarrow> 'j JsonOps \<Rightarrow> 'f \<Rightarrow> SecretsStore \<Rightarrow> bool \<times> SecretsStore" where
  "secrets_load F J f s =
     (case readWithBackup F f kSecretsPath kSecretsBackup of
        None \<Rightarrow> (False, s)
      | Some d \<Rightarrow> let new = secretsFromJson J d in if secrets_valid new then (True, new) else (False, s))"

definition secretsToJson :: "'j JsonOps \<Rightarrow> SecretsStore \<Rightarrow> 'j" where
  "secretsToJson J s = js_mkObj J
     ([(''wifi_ssid'', js_mkStr J (ss_wifiSsid s)), (''wifi_pass'', js_mkStr J (ss_wifiPass s)),
       (''api_token'', js_mkStr J (ss_apiToken s)), (''web_pass_hash'', js_mkStr J (ss_webPassHash s)),
       (''web_salt'', js_mkStr J (ss_webSalt s))] @
      (if length (ss_mockUrl s) > 0 then [(''mock_url'', js_mkStr J (ss_mockUrl s))] else []) @
      [(''provisioning_pass'', js_mkStr J (ss_provisioningPass s))])"

definition secrets_save :: "('f, 'j) FsOps \<Rightarrow> 'j JsonOps \<Rightarrow> SecretsStore \<Rightarrow> 'f \<Rightarrow> bool \<times> 'f list" where
  "secrets_save F J s f =
     (if \<not> secrets_valid s then (False, [])
      else writeJson F kSecretsPath kSecretsTmp kSecretsBackup (secretsToJson J s) f)"

subsection \<open>The web password\<close>

definition hexDigit :: "nat \<Rightarrow> char" where
  "hexDigit n = ''0123456789abcdef'' ! n"

definition hexByte :: "u8 \<Rightarrow> string" where
  "hexByte b = [hexDigit (unat b div 16), hexDigit (unat b mod 16)]"

definition hexOf :: "u8 list \<Rightarrow> string" where
  "hexOf bs = concat (map hexByte bs)"

definition sha256Hex :: "(string \<Rightarrow> u8 list) \<Rightarrow> string \<Rightarrow> string" where
  "sha256Hex sha s = hexOf (sha s)"

definition setWebPassword :: "(string \<Rightarrow> u8 list) \<Rightarrow> u8 list \<Rightarrow> string \<Rightarrow> SecretsStore \<Rightarrow> SecretsStore" where
  "setWebPassword sha random pass s =
     (let salt = hexOf random in s\<lparr>ss_webSalt := salt, ss_webPassHash := sha256Hex sha (salt @ pass)\<rparr>)"

text \<open>The comparison looks at every character, so that its time tells nothing.\<close>

definition difference :: "string \<Rightarrow> string \<Rightarrow> u8" where
  "difference a b = fold (\<lambda>i d. d OR (of_char (a ! i) XOR of_char (b ! i))) [0..<length a] 0"

definition checkWebPassword :: "(string \<Rightarrow> u8 list) \<Rightarrow> string \<Rightarrow> SecretsStore \<Rightarrow> bool" where
  "checkWebPassword sha pass s =
     (if length (ss_webPassHash s) = 0 then False
      else let candidate = sha256Hex sha (ss_webSalt s @ pass) in
        if length candidate \<noteq> length (ss_webPassHash s) then False
        else difference candidate (ss_webPassHash s) = 0)"

definition hasWebPassword :: "SecretsStore \<Rightarrow> bool" where
  "hasWebPassword s = (length (ss_webPassHash s) > 0)"

subsection \<open>Lemmas\<close>

lemma of_char_inj: "(of_char c :: u8) = of_char d \<longleftrightarrow> c = d"
proof
  assume eq: "(of_char c :: u8) = of_char d"
  have "unat (of_char x :: u8) = of_char x" for x :: char
  proof -
    have "unat (of_nat (of_char x) :: u8) = of_char x" by (simp add: unat_of_nat)
    then show ?thesis by (simp only: of_nat_of_char)
  qed
  then have "(of_char c :: nat) = of_char d" using eq by metis
  then show "c = d" by simp
qed simp

lemma hexOf_length: "length (hexOf bs) = 2 * length bs"
  by (induction bs) (simp_all add: hexOf_def hexByte_def)

lemma fold_or_zero:
  "fold (\<lambda>i d. d OR f i) is (d0 :: u8) = 0 \<longleftrightarrow> d0 = 0 \<and> (\<forall>i\<in>set is. f i = 0)"
  by (induction "is" arbitrary: d0) (auto simp: or_eq_0_iff)

lemma xor_zero: "(a :: u8) XOR b = 0 \<longleftrightarrow> a = b"
  by (metis xor.assoc xor.left_neutral xor.right_neutral xor_self_eq)

lemma difference_zero: "length a = length b \<Longrightarrow> difference a b = 0 \<longleftrightarrow> a = b"
  by (simp add: difference_def fold_or_zero xor_zero of_char_inj) (auto intro: nth_equalityI)

lemma checkWebPassword_iff:
  "checkWebPassword sha pass s \<longleftrightarrow> ss_webPassHash s \<noteq> [] \<and> sha256Hex sha (ss_webSalt s @ pass) = ss_webPassHash s"
  by (auto simp: checkWebPassword_def Let_def difference_zero)

lemma secrets_paths:
  "kSecretsPath \<noteq> kSecretsTmp" "kSecretsBackup \<noteq> kSecretsTmp" "kSecretsPath \<noteq> kSecretsBackup"
  by (simp_all add: kSecretsPath_def kSecretsTmp_def kSecretsBackup_def)

context json_library begin

lemma secrets_back: "secretsFromJson J (secretsToJson J s) = s"
proof -
  have mock: "strOrEmpty J (js_member J (secretsToJson J s) ''mock_url'') = ss_mockUrl s"
  proof (cases "ss_mockUrl s = []")
    case True
    then have "js_null J (js_member J (secretsToJson J s) ''mock_url'')"
      unfolding secretsToJson_def by (intro member_missing) simp
    then show ?thesis using True by (simp add: strOrEmpty_def null_str)
  qed (simp add: secretsToJson_def strOrEmpty_def member_built str_built)
  have "strOrEmpty J (js_member J (secretsToJson J s) k) = x"
    if "map_of [(''wifi_ssid'', ss_wifiSsid s), (''wifi_pass'', ss_wifiPass s), (''api_token'', ss_apiToken s),
      (''web_pass_hash'', ss_webPassHash s), (''web_salt'', ss_webSalt s), (''provisioning_pass'', ss_provisioningPass s)] k = Some x" for k x
  proof -
    have "js_member J (secretsToJson J s) k = js_mkStr J x"
      unfolding secretsToJson_def by (rule member_built) (use that in \<open>auto split: if_splits\<close>)
    then show ?thesis by (simp add: strOrEmpty_def str_built)
  qed
  then show ?thesis using mock by (simp add: secretsFromJson_def)
qed

end

lemma secrets_load_cong:
  "readWithBackup F g kSecretsPath kSecretsBackup = readWithBackup F f kSecretsPath kSecretsBackup \<Longrightarrow>
   secrets_load F J g s0 = secrets_load F J f s0"
  by (simp add: secrets_load_def)

subsection \<open>Properties\<close>

lemma secrets_save_loads:
  assumes "littlefs F" and "json_library J"
    and "readOne F f kSecretsPath = readWithBackup F f kSecretsPath kSecretsBackup"
    and "secrets_valid s" and "secrets_save F J s f = (ok, tr)"
  shows "(\<forall>g\<in>set tr. secrets_load F J g s0 \<in> {secrets_load F J f s0, (True, s)}) \<and>
    secrets_load F J (last tr) s0 = (if ok then (True, s) else secrets_load F J f s0)"
proof -
  have w: "writeJson F kSecretsPath kSecretsTmp kSecretsBackup (secretsToJson J s) f = (ok, tr)"
    using assms(4,5) by (simp add: secrets_save_def)
  have new: "secrets_load F J g s0 = (True, s)" if "readWithBackup F g kSecretsPath kSecretsBackup = Some (secretsToJson J s)" for g
    using that assms(4) json_library.secrets_back [OF assms(2), of s] by (simp add: secrets_load_def Let_def)
  note reads = littlefs.writeJson_reads [OF assms(1) secrets_paths assms(3) w]
  have "secrets_load F J g s0 \<in> {secrets_load F J f s0, (True, s)}" if "g \<in> set tr" for g
    using reads(1) that new [of g] secrets_load_cong [of F g f J s0] by auto
  moreover have "secrets_load F J (last tr) s0 = (if ok then (True, s) else secrets_load F J f s0)"
    using reads(2) new [of "last tr"] secrets_load_cong [of F "last tr" f J s0] by auto
  ultimately show ?thesis by blast
qed



text \<open>
  The character-by-character comparison of the password hash, which always looks at all
  characters, is the comparison of the hashes: a password is accepted exactly when one is set and
  the salted hash of the candidate is the stored one. The password that was set is accepted, and
  the stored pair has the lengths that \<open>valid\<close> demands.
\<close>

theorem password_check_is_hash_equality:
  assumes "\<And>x. length (sha x) = 32" and "length random = 8"
  shows "(checkWebPassword sha pass s \<longleftrightarrow>
      ss_webPassHash s \<noteq> [] \<and> sha256Hex sha (ss_webSalt s @ pass) = ss_webPassHash s) \<and>
    checkWebPassword sha p (setWebPassword sha random p s) \<and>
    length (ss_webPassHash (setWebPassword sha random p s)) = 64 \<and>
    length (ss_webSalt (setWebPassword sha random p s)) = 16"
proof -
  have "length (sha256Hex sha x) = 64" for x by (simp add: sha256Hex_def hexOf_length assms(1))
  moreover from this have "sha256Hex sha x \<noteq> []" for x by (metis list.size(3) zero_neq_numeral)
  ultimately show ?thesis
    by (simp add: checkWebPassword_iff setWebPassword_def Let_def hexOf_length assms(2))
qed

theorem password_check_is_hash_equality_witness:
  "checkWebPassword (\<lambda>x. replicate 32 (of_nat (length x))) ''secret'' (setWebPassword (\<lambda>x. replicate 32 (of_nat (length x))) [1, 2, 3, 4, 5, 6, 7, 8] ''secret'' emptySecrets) \<and>
   \<not> checkWebPassword (\<lambda>x. replicate 32 (of_nat (length x))) ''secret'' emptySecrets"
  using password_check_is_hash_equality [of "\<lambda>x. replicate 32 (of_nat (length x))" "[1, 2, 3, 4, 5, 6, 7, 8]" "''secret''" emptySecrets "''secret''"]
  by (simp add: emptySecrets_def)

end
