(* ===== verification/WifiService.thy ===== *)
theory WifiService
  imports SecretsStore
begin

text \<open>
  The Wi-Fi lifecycle (\<open>src/network/WifiService.h\<close>): connecting as a station with a deadline,
  the recovery access point that keeps retrying, and clearing the credentials. The radio is a
  library: what it is told is part of the state, whether it is connected an argument.
\<close>

datatype WifiState = WifiConnecting | WifiConnected | WifiProvisioning
datatype RadioMode = ModeSta | ModeAp | ModeApSta

record WifiService =
  wf_state :: WifiState
  wf_apSsid :: string
  wf_apPass :: string
  wf_staDeadline :: u32
  wf_nextRetryAt :: u32
  wf_provisionAt :: u32
  wf_mode :: RadioMode
  wf_ap :: "(string \<times> string) option"
  wf_dns :: bool
  wf_station :: "(string \<times> string) option"

definition initWifi :: WifiService where
  "initWifi = \<lparr>wf_state = WifiConnecting, wf_apSsid = [], wf_apPass = [], wf_staDeadline = 0, wf_nextRetryAt = 0,
     wf_provisionAt = 0, wf_mode = ModeSta, wf_ap = None, wf_dns = False, wf_station = None\<rparr>"

definition kStaTimeoutMs :: u32 where "kStaTimeoutMs = 120000"
definition kRetryIntervalMs :: u32 where "kRetryIntervalMs = 30000"

text \<open>A time that has come, on a clock that wraps: the difference as a signed number.\<close>

definition timeReached :: "u32 \<Rightarrow> u32 \<Rightarrow> bool" where
  "timeReached now at = (sint (now - at) \<ge> 0)"

definition alphabet :: string where
  "alphabet = ''ABCDEFGHJKLMNPQRSTUVWXYZabcdefghijkmnopqrstuvwxyz23456789''"

definition makeProvisioningPass :: "u8 list \<Rightarrow> string" where
  "makeProvisioningPass random = map (\<lambda>v. alphabet ! (unat v mod length alphabet)) random"

definition radioBegin :: "SecretsStore \<Rightarrow> WifiService \<Rightarrow> WifiService" where
  "radioBegin sec w = w\<lparr>wf_station := Some (ss_wifiSsid sec, ss_wifiPass sec)\<rparr>"

definition startSta :: "u32 \<Rightarrow> SecretsStore \<Rightarrow> WifiService \<Rightarrow> WifiService" where
  "startSta now sec w = radioBegin sec (w\<lparr>wf_dns := False, wf_mode := ModeSta, wf_ap := None,
     wf_state := WifiConnecting, wf_staDeadline := now + kStaTimeoutMs\<rparr>)"

text \<open>\<open>applyNewCredentials\<close>: start with the credentials that have just been set.\<close>

definition applyNewCredentials :: "u32 \<Rightarrow> SecretsStore \<Rightarrow> WifiService \<Rightarrow> WifiService" where
  "applyNewCredentials now sec w = startSta now sec w"

definition becomeConnected :: "WifiService \<Rightarrow> WifiService" where
  "becomeConnected w = (let w = (if wf_mode w \<noteq> ModeSta then w\<lparr>wf_dns := False, wf_mode := ModeSta, wf_ap := None\<rparr> else w)
     in w\<lparr>wf_state := WifiConnected\<rparr>)"

definition startProvisioning :: "u32 \<Rightarrow> SecretsStore \<Rightarrow> WifiService \<Rightarrow> WifiService" where
  "startProvisioning now sec w = w\<lparr>wf_state := WifiProvisioning,
     wf_mode := (if length (ss_wifiSsid sec) > 0 then ModeApSta else ModeAp),
     wf_ap := Some (wf_apSsid w, wf_apPass w), wf_dns := True, wf_nextRetryAt := now + kRetryIntervalMs\<rparr>"

text \<open>
  At boot. \<open>save\<close> says whether the secrets with a fresh provisioning password could be stored;
  the password is used in any case.
\<close>

definition wifi_begin :: "u32 \<Rightarrow> string \<Rightarrow> u8 list \<Rightarrow> (SecretsStore \<Rightarrow> bool) \<Rightarrow> SecretsStore \<Rightarrow> WifiService \<Rightarrow>
    WifiService \<times> SecretsStore" where
  "wifi_begin now chipSsid random save sec w =
     (let w = w\<lparr>wf_apSsid := chipSsid\<rparr>;
          (w, sec) = (if length (ss_provisioningPass sec) < 12
            then let new = sec\<lparr>ss_provisioningPass := makeProvisioningPass random\<rparr>
                 in (w\<lparr>wf_apPass := ss_provisioningPass new\<rparr>, if save new then new else sec)
            else (w\<lparr>wf_apPass := ss_provisioningPass sec\<rparr>, sec))
      in (if length (ss_wifiSsid sec) > 0 then startSta now sec w else startProvisioning now sec w, sec))"

definition wifi_tick :: "u32 \<Rightarrow> bool \<Rightarrow> SecretsStore \<Rightarrow> WifiService \<Rightarrow> WifiService" where
  "wifi_tick now connected sec w =
     (let w = (if wf_provisionAt w \<noteq> 0 \<and> timeReached now (wf_provisionAt w)
               then startProvisioning now sec (w\<lparr>wf_provisionAt := 0\<rparr>) else w)
      in if wf_state w = WifiProvisioning then
           (if length (ss_wifiSsid sec) > 0 \<and> connected then becomeConnected w
            else if length (ss_wifiSsid sec) > 0 \<and> timeReached now (wf_nextRetryAt w)
            then radioBegin sec (w\<lparr>wf_nextRetryAt := now + kRetryIntervalMs\<rparr>)
            else w)
         else if wf_state w = WifiConnecting then
           (if connected then becomeConnected w
            else if timeReached now (wf_staDeadline w) then startProvisioning now sec w
            else w)
         else if \<not> connected \<and> wf_state w = WifiConnected
         then w\<lparr>wf_state := WifiConnecting, wf_staDeadline := now + kStaTimeoutMs\<rparr>
         else w)"

definition wifi_forget :: "u32 \<Rightarrow> (SecretsStore \<Rightarrow> bool) \<Rightarrow> SecretsStore \<Rightarrow> WifiService \<Rightarrow> bool \<times> SecretsStore \<times> WifiService" where
  "wifi_forget now save sec w =
     (let cleared = sec\<lparr>ss_wifiSsid := [], ss_wifiPass := []\<rparr> in
      if \<not> save cleared then (False, sec, w) else (True, cleared, w\<lparr>wf_provisionAt := now + 500\<rparr>))"

definition wifi_online :: "WifiService \<Rightarrow> bool" where
  "wifi_online w = (wf_state w = WifiConnected)"

lemma makeProvisioningPass_valid:
  assumes "length random = 16" "secrets_valid s"
  shows "secrets_valid (s\<lparr>ss_provisioningPass := makeProvisioningPass random\<rparr>)"
  using assms by (simp add: secrets_valid_def makeProvisioningPass_def Let_def)

end
