(* ===== verification/System.thy ===== *)
theory System
  imports LocationCatalog PreexistingAlerts BackoffPolicy Debouncer NotificationEngine RelayController
    ConfigData AlertsClient EventLog Indication WifiService
begin

text \<open>
  The wiring of \<open>src/main.cpp\<close>: the components as the fields of one record, and the functions
  that connect them: applying the configuration, one poll with everything that follows from it,
  muting, firmware updates and one turn of the main loop. \<open>millis()\<close> is an argument wherever it
  is read; \<open>sy_log\<close> lists what was handed to the event log.
\<close>

text \<open>The threats per selected location, for the dashboard (\<open>ActiveLocationView\<close>).\<close>

record Threat =
  th_startedAt :: u32
  th_type :: AlertType
  th_coverage :: Coverage

type_synonym ActiveLocationView = "(u16 \<times> Threat list) list"

type_synonym LogEntry = "LogEvent \<times> string option"

record System =
  sy_cfg :: AppConfig
  sy_secrets :: SecretsStore
  sy_client :: AlertsClient
  sy_engine :: AlertEngine
  sy_builder :: SnapshotBuilder
  sy_health :: ApiHealth
  sy_backoff :: BackoffPolicy
  sy_notify :: NotificationEngine
  sy_relay :: RelayController
  sy_btnMute :: Debouncer
  sy_btnTest :: Debouncer
  sy_led :: Indication
  sy_wifi :: WifiService
  sy_preexisting :: u8
  sy_view :: ActiveLocationView
  sy_nextPollAt :: u32
  sy_ntpStarted :: bool
  sy_ntpSynced :: bool
  sy_wasOnline :: bool
  sy_otaInProgress :: bool
  sy_otaDeadline :: "nat option"
  sy_lastApiHttpCode :: int
  sy_lastApiError :: string
  sy_auth401Streak :: u8
  sy_log :: "LogEntry list"

definition initSystem :: System where
  "initSystem = \<lparr>sy_cfg = defaultConfig, sy_secrets = emptySecrets, sy_client = initClient,
     sy_engine = initEngine defaultEngineConfig, sy_builder = initBuilder, sy_health = initHealth 90000,
     sy_backoff = initBackoff defaultBackoffConfig, sy_notify = initNotify, sy_relay = initRelay,
     sy_btnMute = initDebouncer defaultDebouncerConfig, sy_btnTest = initDebouncer defaultDebouncerConfig,
     sy_led = initIndication, sy_wifi = initWifi, sy_preexisting = 0, sy_view = [], sy_nextPollAt = 0,
     sy_ntpStarted = False, sy_ntpSynced = False, sy_wasOnline = False, sy_otaInProgress = False,
     sy_otaDeadline = None, sy_lastApiHttpCode = 0, sy_lastApiError = [], sy_auth401Streak = 0, sy_log = []\<rparr>"

definition kSirenStart :: u8 where "kSirenStart = 14"
definition kSirenStop :: u8 where "kSirenStop = 12"
definition kBuiltinLed :: u8 where "kBuiltinLed = 2"
definition kAlertOut :: u8 where "kAlertOut = 16"
definition kBadKeyStreak :: u8 where "kBadKeyStreak = 15"
definition kOtaDeadlineMs :: nat where "kOtaDeadlineMs = 300000"

definition logEvent :: "LogEvent \<Rightarrow> string option \<Rightarrow> System \<Rightarrow> System" where
  "logEvent e detail s = s\<lparr>sy_log := sy_log s @ [(e, detail)]\<rparr>"

subsection \<open>The dashboard\<close>

definition locationThreats :: "SnapshotBuilder \<Rightarrow> nat \<Rightarrow> Threat list" where
  "locationThreats b li = map (\<lambda>t. let cell = sb_perLoc b li t in
       \<lparr>th_startedAt = pl_startedAt cell, th_type = t, th_coverage = pl_coverage cell\<rparr>)
     (filter (\<lambda>t. pl_coverage (sb_perLoc b li t) \<noteq> NoCoverage) allTypes)"

definition fillActiveView :: "System \<Rightarrow> System" where
  "fillActiveView s = (let b = sy_builder s in
     s\<lparr>sy_view := map (\<lambda>li. (loc_uid (sb_selected b ! li), locationThreats b li)) [0..<length (sb_selected b)]\<rparr>)"

subsection \<open>Configuration\<close>

definition apiReady :: "System \<Rightarrow> bool" where
  "apiReady s \<longleftrightarrow> wifi_online (sy_wifi s) \<and> sy_ntpSynced s \<and> hasToken (sy_client s) \<and> length (ac_selected (sy_cfg s)) > 0"

definition muteNow :: "bool \<Rightarrow> u32 \<Rightarrow> System \<Rightarrow> System" where
  "muteNow longPress now s =
     (let s = s\<lparr>sy_relay := forceOff ''mute'' (sy_relay s)\<rparr>;
          s = s\<lparr>sy_notify := (if longPress then muteLong now (sy_notify s) else muteShort now (sy_notify s))\<rparr>
      in logEvent LogMute (Some (if longPress then ''scope=snooze'' else ''scope=until_clear'')) s)"

definition unmuteNow :: "System \<Rightarrow> System" where
  "unmuteNow s = logEvent LogUnmute None (s\<lparr>sy_notify := notify_unmute (sy_notify s)\<rparr>)"

definition prepareOta :: "System \<Rightarrow> System" where
  "prepareOta s =
     (let s = s\<lparr>sy_otaInProgress := True, sy_notify := stopAll (sy_notify s), sy_relay := forceOff ''ota'' (sy_relay s)\<rparr>
      in s\<lparr>sy_otaDeadline := Some (rw_clock (sy_relay s) + kOtaDeadlineMs)\<rparr>)"

definition finishFailedOta :: "System \<Rightarrow> System" where
  "finishFailedOta s = s\<lparr>sy_otaDeadline := None, sy_relay := forceOff ''ota'' (sy_relay s), sy_otaInProgress := False\<rparr>"

definition refreshLocations :: "u32 \<Rightarrow> System \<Rightarrow> System" where
  "refreshLocations now s = s\<lparr>sy_view := [], sy_relay := forceOff ''locations'' (sy_relay s),
     sy_notify := resetAlertState (sy_notify s), sy_engine := engine_reset (sy_engine s),
     sy_builder := builder_reset (sy_builder s), sy_client := invalidateCache (sy_client s),
     sy_lastApiHttpCode := 0, sy_lastApiError := [], sy_nextPollAt := now\<rparr>"

definition applyPollInterval :: "System \<Rightarrow> System" where
  "applyPollInterval s =
     (let sec = (if mocked (sy_client s) then ac_pollIntervalSec (sy_cfg s) else max (ac_pollIntervalSec (sy_cfg s)) 10)
      in s\<lparr>sy_backoff := backoff_setConfig \<lparr>bc_pollMs = ucast sec * 1000, bc_maxMs = 120000, bc_rateLimitMinMs = 60000,
             bc_authErrorMs = 300000, bc_jitterPct = 10\<rparr> (sy_backoff s)\<rparr>)"

definition regionsText :: "Location list \<Rightarrow> string" where
  "regionsText ls = concat (map (\<lambda>i. (if i > 0 then '','' else []) @ showNat (unat (loc_uid (ls ! i)))) [0..<length ls])"

definition applyConfig :: "System \<Rightarrow> System" where
  "applyConfig s =
     (let c = sy_cfg s;
          s = s\<lparr>sy_engine := engine_setConfig \<lparr>ec_startConfirmations = ac_startConfirmations c,
                  ec_endConfirmations = ac_endConfirmations c, ec_partialActive = ac_partialActive c\<rparr> (sy_engine s)\<rparr>;
          n = notify_setMuteConfig \<lparr>mc_snoozeMs = ucast (ac_snoozeMinutes c) * 60000,
                mc_muteAllAlertTypes = ac_muteAllAlertTypes c\<rparr> (sy_notify s);
          n = notify_setConfig \<lparr>nc_notifyEscalation = ac_notifyEscalation c,
                nc_notifyAdditionalLocation = ac_notifyAdditionalLocation c,
                nc_remindersWhenStale = ac_remindersWhenStale c,
                nc_manualTestMs = max (ac_relayTestMs c) (of_nat (2 * kPulseMs))\<rparr> n;
          n = fold (\<lambda>t. notify_setProfile t (ac_profiles c t)) allTypes n;
          s = s\<lparr>sy_notify := n,
                sy_relay := relay_begin kSirenStart kSirenStop (ac_relayActiveHigh c) (ac_relayMaxOnMs c)
                  (ac_relaySingle c) (sy_relay s)\<rparr>;
          s = applyPollInterval s
      in s\<lparr>sy_health := health_setConfig (ucast (ac_apiStaleAfterSec c) * 1000) (sy_health s),
           sy_builder := builder_setCatalog (Some shippedCatalog) (snd (builder_setSelected (ac_selected c) (sy_builder s))),
           sy_client := setRegions (regionsText (ac_selected c)) (sy_client s),
           sy_led := led_begin kBuiltinLed True kAlertOut (ac_alertIndicatorActiveHigh c)
             (ac_alertIndicatorSteady c) (sy_led s)\<rparr>)"

subsection \<open>From a snapshot to the siren\<close>

text \<open>How an event is announced: silently, or as the signal it asks for.\<close>

definition eventMode :: "bool \<Rightarrow> EngineEvent \<Rightarrow> EngineEvent list \<Rightarrow> System \<Rightarrow> StartupMode" where
  "eventMode alreadyActive ev batch s =
     (let c = sy_cfg s;
          mode = (if alreadyActive then SilentMode else NormalMode);
          mode = (if ee_kind ev = Started \<and> \<not> ac_partialSiren c \<and>
                     ts_coverage (ae_types (sy_engine s) (ee_type ev)) = Partial then SilentMode else mode)
      in if (ee_kind ev = Ended \<or> ac_quietTransitions c \<noteq> 0) \<and>
            isHandover ev batch (ac_quietTransitions c = 2) (sy_engine s) then SilentMode else mode)"

definition logAlert :: "EngineEvent \<Rightarrow> System \<Rightarrow> System" where
  "logAlert ev s = (case ee_kind ev of
       Started \<Rightarrow> logEvent (if ts_coverage (ae_types (sy_engine s) (ee_type ev)) = Full then LogAlertFull else LogAlertPartial)
         (Some (alertTypeToString (ee_type ev))) s
     | Ended \<Rightarrow> logEvent LogAlertEnd (Some (alertTypeToString (ee_type ev))) s
     | _ \<Rightarrow> s)"

definition announce :: "u32 \<Rightarrow> EngineEvent list \<Rightarrow> EngineEvent \<Rightarrow> System \<Rightarrow> System" where
  "announce now batch ev s =
     (let (alreadyActive, mask) = (if ee_kind ev = Started then consumeStart (ee_type ev) (sy_preexisting s)
            else (False, sy_preexisting s));
          s = s\<lparr>sy_preexisting := mask\<rparr>;
          s = s\<lparr>sy_notify := onEngineEvent ev (eventMode alreadyActive ev batch s) now (sy_notify s)\<rparr>
      in logAlert ev s)"

definition applyAndNotify :: "u32 \<Rightarrow> Snapshot \<Rightarrow> System \<Rightarrow> System" where
  "applyAndNotify now snap s =
     (let s = s\<lparr>sy_preexisting := observe snap (\<not> ae_synced (sy_engine s)) (ac_partialActive (sy_cfg s)) (sy_preexisting s)\<rparr>;
          (evs, eng) = applySnapshot snap 8 (sy_engine s);
          s = s\<lparr>sy_engine := eng\<rparr>
      in fold (announce now evs) evs s)"

subsection \<open>One poll\<close>

definition contact :: "u32 \<Rightarrow> System \<Rightarrow> System" where
  "contact now s =
     (let s = s\<lparr>sy_auth401Streak := 0\<rparr>;
          s = (if \<not> ah_online (sy_health s) then logEvent LogApiOnline None s else s)
      in s\<lparr>sy_health := health_onContact now (sy_health s)\<rparr>)"

definition failContact :: "System \<Rightarrow> System" where
  "failContact s = s\<lparr>sy_health := health_onFailure (sy_health s)\<rparr>"

definition parseDetailText :: "PollResult \<Rightarrow> string" where
  "parseDetailText r = take 63 ((case pr_parseDetail r of None \<Rightarrow> ''?'' | Some d \<Rightarrow> d) @ '' heap='' @ showNat (unat (pr_heapAtError r)))"

definition handleResult :: "u32 \<Rightarrow> PollResult \<Rightarrow> System \<Rightarrow> Outcome \<times> System" where
  "handleResult now r s =
     (let s = s\<lparr>sy_lastApiHttpCode := pr_httpCode r, sy_lastApiError := []\<rparr> in
      case pr_kind r of
        ResOk \<Rightarrow> (Success, applyAndNotify now (sb_snap (sy_builder s)) (fillActiveView (contact now s)))
      | ResNotModified \<Rightarrow> (NotModified, applyAndNotify now (sb_snap (sy_builder s)) (contact now s))
      | ResAuthError \<Rightarrow>
          (let s = s\<lparr>sy_auth401Streak := (if sy_auth401Streak s < 255 then sy_auth401Streak s + 1 else sy_auth401Streak s)\<rparr> in
           if sy_auth401Streak s < kBadKeyStreak then (Success, s\<lparr>sy_lastApiError := ''rate_limited''\<rparr>)
           else
             let s = failContact (s\<lparr>sy_lastApiError := ''unauthorized''\<rparr>)
             in (AuthError, if sy_auth401Streak s = kBadKeyStreak then logEvent LogApi401 None s else s))
      | ResForbidden \<Rightarrow> (AuthError, logEvent LogApi403 None (failContact (s\<lparr>sy_lastApiError := ''forbidden''\<rparr>)))
      | ResRateLimited \<Rightarrow> (RateLimited, logEvent LogApi429 None (failContact (s\<lparr>sy_lastApiError := ''rate_limited''\<rparr>)))
      | ResParseError \<Rightarrow>
          (ParseErrorOutcome, logEvent LogApiParseError (Some (parseDetailText r)) (failContact (s\<lparr>sy_lastApiError := ''parse_error''\<rparr>)))
      | _ \<Rightarrow>
          (let s = s\<lparr>sy_lastApiError := (if pr_httpCode r < 0 then ''network_error'' else ''http_error'')\<rparr>;
               s = (if ah_online (sy_health s) then logEvent LogApiOffline None s else s)
           in (NetError, failContact s)))"

text \<open>\<open>now\<close> is the time after the request, \<open>random\<close> the byte of jitter; None while the body is read.\<close>

definition doPoll :: "'j JsonOps \<Rightarrow> 'j PollEnv \<Rightarrow> u32 \<Rightarrow> u8 \<Rightarrow> System \<Rightarrow> System option" where
  "doPoll J env now random s =
     (case poll J env (sy_client s) (sy_builder s) of
        None \<Rightarrow> None
      | Some (r, c, b) \<Rightarrow>
          let (oc, s) = handleResult now r (s\<lparr>sy_client := c, sy_builder := b\<rparr>);
              (delayMs, bp) = backoff_next oc (pr_retryAfterSec r) random (sy_backoff s)
          in Some (s\<lparr>sy_backoff := bp, sy_nextPollAt := now + delayMs\<rparr>))"

subsection \<open>Indicators\<close>

definition systemState :: "u32 \<Rightarrow> System \<Rightarrow> SysState" where
  "systemState now s =
     (if wf_state (sy_wifi s) = WifiProvisioning \<or> \<not> length (ss_apiToken (sy_secrets s)) > 0 \<or> sy_otaInProgress s then SysSetup
      else if wifi_online (sy_wifi s) \<and> sy_ntpSynced s \<and> ah_online (sy_health s) \<and> \<not> health_stale now (sy_health s) then SysOk
      else SysDegraded)"

definition alertView :: "System \<Rightarrow> AlertView" where
  "alertView s =
     (if anyActive (sy_engine s) then
        (if list_ex (\<lambda>t. ts_coverage (ae_types (sy_engine s) t) = Full) allTypes then FullView
         else if ac_partialLed (sy_cfg s) then PartialView else NoView)
      else NoView)"

definition updateLed :: "u32 \<Rightarrow> System \<Rightarrow> System" where
  "updateLed now s = s\<lparr>sy_led := setAlert (alertView s) (muted (ne_mute (sy_notify s))) (rc_on (sy_relay s))
     (setSystem (systemState now s) (sy_led s))\<rparr>"

subsection \<open>One turn of the main loop\<close>

definition onlineStep :: "System \<Rightarrow> System" where
  "onlineStep s =
     (let online = wifi_online (sy_wifi s) in
      if online \<noteq> sy_wasOnline s
      then let s = logEvent (if online then LogWifiConnected else LogWifiDisconnected) None (s\<lparr>sy_wasOnline := online\<rparr>)
           in if online \<and> \<not> sy_ntpStarted s then s\<lparr>sy_ntpStarted := True\<rparr> else s
      else s)"

definition ntpStep :: "int \<Rightarrow> System \<Rightarrow> System" where
  "ntpStep time s = (if sy_ntpStarted s \<and> \<not> sy_ntpSynced s \<and> time > 1600000000 then s\<lparr>sy_ntpSynced := True\<rparr> else s)"

definition muteButton :: "u32 \<Rightarrow> bool \<Rightarrow> System \<Rightarrow> System" where
  "muteButton now levelHigh s =
     (let (ev, d) = button_tick levelHigh now (sy_btnMute s); s = s\<lparr>sy_btnMute := d\<rparr> in
      case ev of LongPress \<Rightarrow> muteNow True now s
        | Release \<Rightarrow> if wasShortPress d then muteNow False now s else s
        | _ \<Rightarrow> s)"

definition testButton :: "u32 \<Rightarrow> bool \<Rightarrow> System \<Rightarrow> System" where
  "testButton now levelHigh s =
     (let (ev, d) = button_tick levelHigh now (sy_btnTest s); s = s\<lparr>sy_btnTest := d\<rparr> in
      if ev = LongPress
      then logEvent LogTest (Some ''source=button'') (s\<lparr>sy_notify := manualTest (sy_notify s)\<rparr>)
      else s)"

definition sirenStep :: "u32 \<Rightarrow> System \<Rightarrow> System" where
  "sirenStep now s =
     (let (siren, n) = notify_tick now (setApiStale (health_stale now (sy_health s)) (sy_notify s));
          (trip, r) = consumeSafetyTrip (relay_tick siren now (sy_relay s));
          s = s\<lparr>sy_notify := n, sy_relay := r\<rparr>
      in if trip then logEvent LogRelaySafetyTrip None s else s)"

definition pressLogStep :: "System \<Rightarrow> System" where
  "pressLogStep s =
     (case logRelayPresses (rc_level (sy_relay s)) (rc_ring (sy_relay s)) of
        None \<Rightarrow> s
      | Some (details, q) \<Rightarrow>
          fold (\<lambda>d. logEvent LogRelayPress (Some d)) details (s\<lparr>sy_relay := (sy_relay s)\<lparr>rc_ring := q\<rparr>\<rparr>))"

definition pollDue :: "u32 \<Rightarrow> System \<Rightarrow> bool" where
  "pollDue now s \<longleftrightarrow> apiReady s \<and> \<not> rc_on (sy_relay s) \<and> timeReached now (sy_nextPollAt s)"

text \<open>What a turn meets: the clock, the radio, the buttons, and the answer of the API if it polls.\<close>

record 'j LoopEnv =
  le_now :: u32
  le_connected :: bool
  le_time :: int
  le_muteHigh :: bool
  le_testHigh :: bool
  le_poll :: "'j PollEnv"
  le_pollDone :: u32
  le_random :: u8

definition loopAlerting :: "'j LoopEnv \<Rightarrow> System \<Rightarrow> System" where
  "loopAlerting env s =
     (let now = le_now env;
          s = ntpStep (le_time env) (onlineStep s);
          s = testButton now (le_testHigh env) (muteButton now (le_muteHigh env) s);
          s = updateLed now (pressLogStep (sirenStep now s))
      in s\<lparr>sy_led := led_tick now (sy_led s)\<rparr>)"

text \<open>A turn after the console, the radio and the web server; during an update nothing else runs.\<close>

definition loopRest :: "'j JsonOps \<Rightarrow> 'j LoopEnv \<Rightarrow> System \<Rightarrow> System option" where
  "loopRest J env s =
     (if sy_otaInProgress s then Some s
      else let s = loopAlerting env s
           in if pollDue (le_now env) s then doPoll J (le_poll env) (le_pollDone env) (le_random env) s else Some s)"

end
