(* ===== verification/WebAuth.thy ===== *)
theory WebAuth
  imports WifiService
begin

text \<open>
  Sessions and login of the web interface (\<open>src/web/WebUi.cpp\<close>): a login with the web password
  yields a random token that every request carries; five wrong passwords lock the login for a
  minute. Times are 32-bit clocks compared as signed differences.
\<close>

record Session =
  se_token :: string
  se_expiresAt :: u32

record WebUi =
  wu_sessions :: "Session list"
  wu_loginFails :: u8
  wu_lockUntil :: u32
  wu_rebootAt :: u32
  wu_otaAuthorized :: bool
  wu_otaStarted :: bool
  wu_otaSucceeded :: bool

abbreviation kSessions :: nat where "kSessions \<equiv> 4"

definition kSessionTtlMs :: u32 where "kSessionTtlMs = 24 * 3600 * 1000"

definition initWeb :: WebUi where
  "initWeb = \<lparr>wu_sessions = replicate kSessions \<lparr>se_token = [], se_expiresAt = 0\<rparr>, wu_loginFails = 0, wu_lockUntil = 0,
     wu_rebootAt = 0, wu_otaAuthorized = False, wu_otaStarted = False, wu_otaSucceeded = False\<rparr>"

definition constantTimeEqual :: "string \<Rightarrow> string \<Rightarrow> bool" where
  "constantTimeEqual a b = (if length a \<noteq> length b then False else difference a b = 0)"

definition isSha256Hex :: "string \<Rightarrow> bool" where
  "isSha256Hex value \<longleftrightarrow> length value = 64 \<and> list_all (\<lambda>c.
     c \<in> set ''0123456789'' \<or> c \<in> set ''abcdef'' \<or> c \<in> set ''ABCDEF'') value"

definition authed :: "u32 \<Rightarrow> string \<Rightarrow> WebUi \<Rightarrow> bool" where
  "authed now tok w \<longleftrightarrow> length tok = 32 \<and>
     list_ex (\<lambda>s. se_token s \<noteq> [] \<and> tok = se_token s \<and> \<not> timeReached now (se_expiresAt s)) (wu_sessions w)"

text \<open>The slot to recycle: the first of those that expire the earliest.\<close>

definition oldestSlot :: "Session list \<Rightarrow> nat" where
  "oldestSlot ss = fold (\<lambda>i best. if sint (se_expiresAt (ss ! i) - se_expiresAt (ss ! best)) < 0 then i else best) [0..<length ss] 0"

datatype LoginResult = LoginLocked | LoginRefused | LoginToken string

definition handleLogin :: "(string \<Rightarrow> u8 list) \<Rightarrow> SecretsStore \<Rightarrow> u32 \<Rightarrow> u8 list \<Rightarrow> string option \<Rightarrow> WebUi \<Rightarrow> LoginResult \<times> WebUi" where
  "handleLogin sha sec now random password w =
     (if \<not> timeReached now (wu_lockUntil w) then (LoginLocked, w)
      else if \<not> hasWebPassword sec \<or> (case password of None \<Rightarrow> True | Some p \<Rightarrow> \<not> checkWebPassword sha p sec) then
        (let w = w\<lparr>wu_loginFails := wu_loginFails w + 1\<rparr>
         in (LoginRefused, if wu_loginFails w \<ge> 5 then w\<lparr>wu_loginFails := 0, wu_lockUntil := now + 60000\<rparr> else w))
      else
        (let slot = oldestSlot (wu_sessions w); tok = hexOf random
         in (LoginToken tok, w\<lparr>wu_loginFails := 0,
              wu_sessions := (wu_sessions w)[slot := \<lparr>se_token = tok, se_expiresAt = now + kSessionTtlMs\<rparr>]\<rparr>)))"

subsection \<open>Signed differences of clocks\<close>

lemma sint_u32: "- (2 ^ 31) \<le> x \<Longrightarrow> x < 2 ^ 31 \<Longrightarrow> sint (word_of_int x :: u32) = x"
  by (simp add: sint_sbintrunc' signed_take_bit_int_eq_self)

lemma timeReached_future:
  assumes "t < at" "at - t \<le> 2 ^ 31"
  shows "\<not> timeReached (of_nat t) (of_nat at)"
proof -
  have "(of_nat t :: u32) - of_nat at = word_of_int (int t - int at)" by simp
  moreover have "sint (word_of_int (int t - int at) :: u32) = int t - int at"
    by (rule sint_u32) (use assms in auto)
  ultimately show ?thesis using assms by (simp only: timeReached_def)
qed

lemma timeReached_past:
  assumes "at \<le> t" "t - at < 2 ^ 31"
  shows "timeReached (of_nat t) (of_nat at)"
proof -
  have "(of_nat t :: u32) - of_nat at = word_of_int (int t - int at)" by simp
  moreover have "sint (word_of_int (int t - int at) :: u32) = int t - int at"
    by (rule sint_u32) (use assms in auto)
  ultimately show ?thesis using assms by (simp only: timeReached_def)
qed

subsection \<open>Guessing the password\<close>

text \<open>
  A run of login attempts: the time and the password of each. \<open>guesses\<close> counts those that were
  compared with the stored hash, \<open>noSuccess\<close> says that none was right.
\<close>

fun loginRun :: "(string \<Rightarrow> u8 list) \<Rightarrow> SecretsStore \<Rightarrow> (nat \<times> string) list \<Rightarrow> WebUi \<Rightarrow> LoginResult list" where
  "loginRun sha sec [] w = []"
| "loginRun sha sec ((t, p) # as) w =
     (let (r, w') = handleLogin sha sec (of_nat t) [] (Some p) w in r # loginRun sha sec as w')"

definition guesses :: "LoginResult list \<Rightarrow> nat" where
  "guesses rs = length (filter (\<lambda>r. r \<noteq> LoginLocked) rs)"

lemma guesses_simps [simp]: "guesses [] = 0" "guesses (r # rs) = (if r = LoginLocked then guesses rs else Suc (guesses rs))"
  by (simp_all add: guesses_def)

lemma locked_run:
  assumes "\<forall>(t, p)\<in>set as. t < L \<and> L - t \<le> 60000" "wu_lockUntil w = of_nat L"
  shows "guesses (loginRun sha sec as w) = 0"
  using assms
proof (induction as)
  case (Cons a as)
  obtain t p where a: "a = (t, p)" by (cases a)
  then have "\<not> timeReached (of_nat t) (wu_lockUntil w)" using Cons.prems by (simp add: timeReached_future)
  then have "handleLogin sha sec (of_nat t) [] (Some p) w = (LoginLocked, w)" by (simp add: handleLogin_def)
  then show ?case using Cons a by simp
qed simp

lemma guesses_bounded:
  assumes "sorted (map fst as)" "\<forall>(t, p)\<in>set as. T \<le> t \<and> t < T + 60000"
    and "\<forall>r\<in>set (loginRun sha sec as w). \<not> (\<exists>tok. r = LoginToken tok)" "unat (wu_loginFails w) < 5"
  shows "guesses (loginRun sha sec as w) \<le> 5 - unat (wu_loginFails w)"
  using assms
proof (induction as arbitrary: w)
  case (Cons a as)
  obtain t p where a: "a = (t, p)" by (cases a)
  obtain r w' where h: "handleLogin sha sec (of_nat t) [] (Some p) w = (r, w')" by fastforce
  have rest: "sorted (map fst as)" "\<forall>(t, p)\<in>set as. T \<le> t \<and> t < T + 60000"
    "\<forall>r\<in>set (loginRun sha sec as w'). \<not> (\<exists>tok. r = LoginToken tok)" "\<forall>(t', p)\<in>set as. t \<le> t'"
    using Cons.prems a h by auto
  have t: "T \<le> t" using Cons.prems a by simp
  have nosuc: "\<not> (\<exists>tok. r = LoginToken tok)" using Cons.prems(3) a h by simp
  have inc: "unat (wu_loginFails w + 1) = Suc (unat (wu_loginFails w))"
    using Cons.prems(4) by (simp add: unat_word_ariths)
  consider (locked) "r = LoginLocked" "w' = w"
    | (refused) "r = LoginRefused" "w' = w\<lparr>wu_loginFails := wu_loginFails w + 1\<rparr>" "\<not> 5 \<le> wu_loginFails w + 1"
    | (last) "r = LoginRefused" "w' = w\<lparr>wu_loginFails := 0, wu_lockUntil := of_nat t + 60000\<rparr>" "5 \<le> wu_loginFails w + 1"
    using h nosuc by (auto simp: handleLogin_def Let_def split: if_split_asm)
  then show ?case
  proof cases
    case locked
    then show ?thesis using Cons.IH [OF rest(1,2,3)] Cons.prems(4) a h by simp
  next
    case refused
    then have f: "unat (wu_loginFails w') = Suc (unat (wu_loginFails w))" using inc by simp
    have "unat (wu_loginFails w') < 5" using refused f inc by (simp add: word_le_nat_alt)
    then show ?thesis using Cons.IH [OF rest(1,2,3)] f refused(1) a h by simp
  next
    case last
    have "\<forall>(t', p)\<in>set as. t' < t + 60000 \<and> t + 60000 - t' \<le> 60000" using rest(2,4) t by auto
    then have "guesses (loginRun sha sec as w') = 0" by (rule locked_run) (simp add: last(2))
    then show ?thesis using last(1) Cons.prems(4) a h by simp
  qed
qed simp



subsection \<open>Findings\<close>

text \<open>
  The lock starts out as time 0, so a device that has been up for 24.8 days refuses every login
  for as long again; and a session that expired is valid again after 24.8 days.
\<close>

lemma login_locked_by_uptime: "handleLogin sha sec 2147483648 random p initWeb = (LoginLocked, initWeb)"
proof -
  have "sint (2147483648 :: u32) < 0" by simp
  then show ?thesis by (simp add: handleLogin_def timeReached_def initWeb_def)
qed

lemma expired_session_revives:
  "length tok = 32 \<Longrightarrow> \<not> authed e tok (initWeb\<lparr>wu_sessions := [\<lparr>se_token = tok, se_expiresAt = e\<rparr>]\<rparr>) \<and>
   authed (e + 2147483648) tok (initWeb\<lparr>wu_sessions := [\<lparr>se_token = tok, se_expiresAt = e\<rparr>]\<rparr>)"
proof -
  have "sint (2147483648 :: u32) < 0" by simp
  then show "length tok = 32 \<Longrightarrow> \<not> authed e tok (initWeb\<lparr>wu_sessions := [\<lparr>se_token = tok, se_expiresAt = e\<rparr>]\<rparr>) \<and>
      authed (e + 2147483648) tok (initWeb\<lparr>wu_sessions := [\<lparr>se_token = tok, se_expiresAt = e\<rparr>]\<rparr>)"
    by (auto simp: authed_def timeReached_def)
qed

end
