(* ===== verification/WebServer.thy ===== *)
theory WebServer
  imports System WebAuth ConfigStore
begin

text \<open>
  The request handlers of the web interface (\<open>src/web/WebUi.cpp\<close>) that change the device: the
  configuration, the secrets, the first setup, and the buttons of the dashboard. A handler takes
  the request and the device and returns the response with the device after it. Every early
  return of the code is a \<open>Refused\<close> with its status and code.
\<close>

text \<open>
  The device as the handlers see it: the subsystems, the sessions, and the flash. A request has
  been parsed by the JSON library: no document stands for a body that is not JSON.
\<close>

record 'f Device =
  dv_sys :: System
  dv_web :: WebUi
  dv_fs :: 'f

record 'j Request =
  rq_now :: u32
  rq_auth :: string
  rq_doc :: "'j option"
  rq_relay :: string
  rq_random :: "u8 list"

datatype 'j Response = Refused nat string string | Done | Reply 'j | RawText string | RedirectTo string

definition onSys :: "(System \<Rightarrow> System) \<Rightarrow> 'f Device \<Rightarrow> 'f Device" where
  "onSys g d = d\<lparr>dv_sys := g (dv_sys d)\<rparr>"

definition rebootIn :: "u32 \<Rightarrow> 'j Request \<Rightarrow> 'f Device \<Rightarrow> 'f Device" where
  "rebootIn ms rq d = d\<lparr>dv_web := (dv_web d)\<lparr>wu_rebootAt := rq_now rq + ms\<rparr>\<rparr>"

definition withAuth :: "'j Request \<Rightarrow> ('f Device \<Rightarrow> 'j Response \<times> 'f Device) \<Rightarrow> 'f Device \<Rightarrow> 'j Response \<times> 'f Device" where
  "withAuth rq h d =
     (if authed (rq_now rq) (rq_auth rq) (dv_web d) then h d
      else (Refused 401 ''UNAUTHORIZED'' ''login required'', d))"

text \<open>A string member of the body, empty when there is none.\<close>

definition bodyString :: "'j JsonOps \<Rightarrow> 'j Request \<Rightarrow> string \<Rightarrow> string" where
  "bodyString J rq key = (case rq_doc rq of None \<Rightarrow> [] | Some doc \<Rightarrow> strOrEmpty J (js_member J doc key))"

definition saveConfig :: "('f, 'j) FsOps \<Rightarrow> 'j JsonOps \<Rightarrow> AppConfig \<Rightarrow> 'f Device \<Rightarrow> bool \<times> 'f Device" where
  "saveConfig F J c d = (case store_save F J c (dv_fs d) of (ok, tr) \<Rightarrow> (ok, d\<lparr>dv_fs := last (dv_fs d # tr)\<rparr>))"

definition saveSecrets :: "('f, 'j) FsOps \<Rightarrow> 'j JsonOps \<Rightarrow> SecretsStore \<Rightarrow> 'f Device \<Rightarrow> bool \<times> 'f Device" where
  "saveSecrets F J s d = (case secrets_save F J s (dv_fs d) of (ok, tr) \<Rightarrow> (ok, d\<lparr>dv_fs := last (dv_fs d # tr)\<rparr>))"

subsection \<open>Configuration\<close>

definition sameLocations :: "AppConfig \<Rightarrow> AppConfig \<Rightarrow> bool" where
  "sameLocations a b =
     (if length (ac_selected a) \<noteq> length (ac_selected b) then False
      else list_all (\<lambda>i. let left = ac_selected a ! i; right = ac_selected b ! i
         in loc_uid left = loc_uid right \<and> loc_type left = loc_type right \<and>
            loc_oblastUid left = loc_oblastUid right \<and> loc_raionUid left = loc_raionUid right)
        [0..<length (ac_selected a)])"

definition handleConfigGet :: "'j JsonOps \<Rightarrow> 'j Request \<Rightarrow> 'f Device \<Rightarrow> 'j Response \<times> 'f Device" where
  "handleConfigGet J rq = withAuth rq (\<lambda>d. (Reply (configToJson J (sy_cfg (dv_sys d))), d))"

text \<open>What follows a successful save: the configuration takes effect.\<close>

definition adoptConfig :: "u32 \<Rightarrow> bool \<Rightarrow> string \<Rightarrow> AppConfig \<Rightarrow> System \<Rightarrow> System" where
  "adoptConfig now refresh detail c s =
     (let s = applyConfig (s\<lparr>sy_cfg := c\<rparr>);
          s = (if refresh then refreshLocations now s else s)
      in logEvent LogConfigChanged (Some detail) s)"

definition handleConfigPut :: "('f, 'j) FsOps \<Rightarrow> 'j JsonOps \<Rightarrow> 'j Request \<Rightarrow> 'f Device \<Rightarrow> 'j Response \<times> 'f Device" where
  "handleConfigPut F J rq = withAuth rq (\<lambda>d.
     case rq_doc rq of
       None \<Rightarrow> (Refused 400 ''BAD_JSON'' ''invalid JSON body'', d)
     | Some doc \<Rightarrow>
         (case configFromJson J doc (sy_cfg (dv_sys d)) of
            Inl _ \<Rightarrow> (Refused 422 ''INVALID_CONFIG'' ''value out of allowed range'', d)
          | Inr new \<Rightarrow>
              let locationsChanged = \<not> sameLocations (sy_cfg (dv_sys d)) new;
                  (ok, d) = saveConfig F J new d
              in if \<not> ok then (Refused 500 ''FS_ERROR'' ''cannot persist config'', d)
                 else (Done, onSys (adoptConfig (rq_now rq) locationsChanged ''source=web'' new) d)))"

definition handleLocationsPut :: "('f, 'j) FsOps \<Rightarrow> 'j JsonOps \<Rightarrow> 'j Request \<Rightarrow> 'f Device \<Rightarrow> 'j Response \<times> 'f Device" where
  "handleLocationsPut F J rq = withAuth rq (\<lambda>d.
     case rq_doc rq of
       None \<Rightarrow> (Refused 400 ''BAD_JSON'' ''expected {locations:[...]}'', d)
     | Some doc \<Rightarrow>
         (let locations = js_member J doc ''locations'' in
          if js_null J locations then (Refused 400 ''BAD_JSON'' ''expected {locations:[...]}'', d)
          else case configFromJson J (js_mkObj J [(''locations'', locations)]) (sy_cfg (dv_sys d)) of
            Inl _ \<Rightarrow> (Refused 422 ''INVALID_CONFIG'' ''bad location list'', d)
          | Inr new \<Rightarrow>
              if length (ac_selected new) = 0 then (Refused 422 ''INVALID_CONFIG'' ''bad location list'', d)
              else let (ok, d) = saveConfig F J new d
                   in if \<not> ok then (Refused 500 ''FS_ERROR'' ''cannot persist locations'', d)
                      else (Done, onSys (adoptConfig (rq_now rq) True ''locations'' new) d)))"

subsection \<open>Secrets\<close>

definition setApiToken :: "string \<Rightarrow> u32 \<Rightarrow> System \<Rightarrow> System" where
  "setApiToken tok now s = s\<lparr>sy_client := client_begin tok (sy_client s), sy_auth401Streak := 0, sy_nextPollAt := now\<rparr>"

definition setApiUrl :: "string \<Rightarrow> u32 \<Rightarrow> System \<Rightarrow> System" where
  "setApiUrl url now s = (applyPollInterval (s\<lparr>sy_client := setMockUrl url (sy_client s)\<rparr>))\<lparr>sy_nextPollAt := now\<rparr>"

definition handleTokenPut :: "('f, 'j) FsOps \<Rightarrow> 'j JsonOps \<Rightarrow> 'j Request \<Rightarrow> 'f Device \<Rightarrow> 'j Response \<times> 'f Device" where
  "handleTokenPut F J rq = withAuth rq (\<lambda>d.
     let tok = bodyString J rq ''token'' in
     if length tok < 10 \<or> length tok > 256 then (Refused 422 ''BAD_TOKEN'' ''token length must be 10..256'', d)
     else let new = (sy_secrets (dv_sys d))\<lparr>ss_apiToken := tok\<rparr>; (ok, d) = saveSecrets F J new d
       in if \<not> ok then (Refused 500 ''FS_ERROR'' ''cannot persist API token'', d)
          else (Done, onSys (\<lambda>s. logEvent LogConfigChanged (Some ''api_token'')
             (setApiToken tok (rq_now rq) (s\<lparr>sy_secrets := new\<rparr>))) d))"

text \<open>\<open>String::trim\<close>: white space at both ends.\<close>

definition trim :: "string \<Rightarrow> string" where
  "trim s = rev (dropWhile isBlank (rev (dropWhile isBlank s)))"

definition badUrl :: "string \<Rightarrow> bool" where
  "badUrl url \<longleftrightarrow> length url > 192 \<or>
     (length url > 0 \<and> \<not> startsWith url ''http://'' \<and> \<not> startsWith url ''https://'')"

definition handleApiUrlPut :: "('f, 'j) FsOps \<Rightarrow> 'j JsonOps \<Rightarrow> 'j Request \<Rightarrow> 'f Device \<Rightarrow> 'j Response \<times> 'f Device" where
  "handleApiUrlPut F J rq = withAuth rq (\<lambda>d.
     let url = trim (bodyString J rq ''url'') in
     if badUrl url then (Refused 422 ''BAD_URL'' ''url must be empty or http(s)://..., max 192 chars'', d)
     else let new = (sy_secrets (dv_sys d))\<lparr>ss_mockUrl := url\<rparr>; (ok, d) = saveSecrets F J new d
       in if \<not> ok then (Refused 500 ''FS_ERROR'' ''cannot persist API url'', d)
          else (Done, onSys (\<lambda>s. logEvent LogConfigChanged (Some ''api_url'')
             (setApiUrl url (rq_now rq) (s\<lparr>sy_secrets := new\<rparr>))) d))"

text \<open>\<open>WifiService::forget\<close> with the save it makes; the console uses it too.\<close>

definition forgetWifi :: "('f, 'j) FsOps \<Rightarrow> 'j JsonOps \<Rightarrow> u32 \<Rightarrow> 'f Device \<Rightarrow> bool \<times> 'f Device" where
  "forgetWifi F J now d =
     (let sec = sy_secrets (dv_sys d);
          (saved, d) = saveSecrets F J (sec\<lparr>ss_wifiSsid := [], ss_wifiPass := []\<rparr>) d;
          (ok, sec, w) = wifi_forget now (\<lambda>_. saved) sec (sy_wifi (dv_sys d))
      in (ok, onSys (\<lambda>s. s\<lparr>sy_secrets := sec, sy_wifi := w\<rparr>) d))"

definition handleWifiForget :: "('f, 'j) FsOps \<Rightarrow> 'j JsonOps \<Rightarrow> 'j Request \<Rightarrow> 'f Device \<Rightarrow> 'j Response \<times> 'f Device" where
  "handleWifiForget F J rq = withAuth rq (\<lambda>d.
     let (ok, d) = forgetWifi F J (rq_now rq) d
     in if \<not> ok then (Refused 500 ''FS_ERROR'' ''cannot clear Wi-Fi credentials'', d)
        else (Done, onSys (logEvent LogConfigChanged (Some ''wifi_forget'')) d))"

subsection \<open>First setup\<close>

definition setupAuthorized :: "'j JsonOps \<Rightarrow> 'j Request \<Rightarrow> 'f Device \<Rightarrow> bool" where
  "setupAuthorized J rq d \<longleftrightarrow>
     wf_state (sy_wifi (dv_sys d)) = WifiProvisioning \<and>
     constantTimeEqual (bodyString J rq ''setup_key'') (wf_apPass (sy_wifi (dv_sys d)))"

text \<open>The values of the form, and the first complaint about them.\<close>

definition setupComplaint :: "string \<Rightarrow> string \<Rightarrow> string \<Rightarrow> string \<Rightarrow> string \<Rightarrow> SecretsStore \<Rightarrow> (string \<times> string) option" where
  "setupComplaint ssid wifiPass token apass name sec =
     (if length ssid = 0 \<or> length ssid > 32 then Some (''BAD_SSID'', ''wifi_ssid length must be 1..32'')
      else if length wifiPass > 64 then Some (''BAD_WIFI_PASSWORD'', ''wifi password too long'')
      else if length token > 0 \<and> (length token < 10 \<or> length token > 256)
      then Some (''BAD_TOKEN'', ''token length must be 10..256'')
      else if \<not> hasWebPassword sec \<and> length apass < 6 then Some (''BAD_PASSWORD'', ''admin password >= 6 chars'')
      else if length apass > 128 \<or> length name \<ge> 32 then Some (''BAD_VALUE'', ''admin password or device name too long'')
      else None)"

definition setupSecrets :: "(string \<Rightarrow> u8 list) \<Rightarrow> u8 list \<Rightarrow> string \<Rightarrow> string \<Rightarrow> string \<Rightarrow> string \<Rightarrow> SecretsStore \<Rightarrow> SecretsStore" where
  "setupSecrets sha random ssid wifiPass token apass sec =
     (let sec = sec\<lparr>ss_wifiSsid := ssid, ss_wifiPass := wifiPass\<rparr>;
          sec = (if length token > 0 then sec\<lparr>ss_apiToken := token\<rparr> else sec)
      in if length apass \<ge> 6 then setWebPassword sha random apass sec else sec)"

text \<open>Two saves, the second of which undoes the first if it fails.\<close>

definition finishSetup :: "('f, 'j) FsOps \<Rightarrow> 'j JsonOps \<Rightarrow> 'j Request \<Rightarrow> string \<Rightarrow> SecretsStore \<Rightarrow> 'f Device \<Rightarrow> 'j Response \<times> 'f Device" where
  "finishSetup F J rq name nextSecrets d =
     (let old = sy_cfg (dv_sys d);
          nextConfig = (if length name > 0 then old\<lparr>ac_deviceName := name\<rparr> else old);
          (okConfig, d) = (if validateConfig nextConfig \<noteq> None then (False, d) else saveConfig F J nextConfig d)
      in if \<not> okConfig then (Refused 500 ''FS_ERROR'' ''cannot persist device config'', d)
         else let (okSecrets, d) = saveSecrets F J nextSecrets d
           in if \<not> okSecrets then (Refused 500 ''FS_ERROR'' ''cannot persist secrets'', snd (saveConfig F J old d))
              else (Done, rebootIn 800 rq (onSys (\<lambda>s. logEvent LogConfigChanged (Some ''setup_portal'')
                (s\<lparr>sy_cfg := nextConfig, sy_secrets := nextSecrets\<rparr>)) d)))"

definition handleSetup :: "('f, 'j) FsOps \<Rightarrow> 'j JsonOps \<Rightarrow> (string \<Rightarrow> u8 list) \<Rightarrow> 'j Request \<Rightarrow> 'f Device \<Rightarrow> 'j Response \<times> 'f Device" where
  "handleSetup F J sha rq d =
     (if rq_doc rq = None then (Refused 400 ''BAD_JSON'' ''invalid JSON body'', d)
      else let sec = sy_secrets (dv_sys d) in
        if \<not> setupAuthorized J rq d \<and> \<not> hasWebPassword sec then (Refused 401 ''BAD_SETUP_KEY'' ''setup key required'', d)
        else if \<not> setupAuthorized J rq d \<and> \<not> authed (rq_now rq) (rq_auth rq) (dv_web d)
        then (Refused 401 ''UNAUTHORIZED'' ''login required'', d)
        else
          let ssid = bodyString J rq ''wifi_ssid''; wifiPass = bodyString J rq ''wifi_pass'';
              token = bodyString J rq ''api_token''; apass = bodyString J rq ''admin_pass'';
              name = bodyString J rq ''device_name''
          in case setupComplaint ssid wifiPass token apass name sec of
               Some (code, message) \<Rightarrow> (Refused 422 code message, d)
             | None \<Rightarrow> finishSetup F J rq name (setupSecrets sha (rq_random rq) ssid wifiPass token apass sec) d)"

subsection \<open>The buttons of the dashboard\<close>

definition handleMute :: "'j Request \<Rightarrow> 'f Device \<Rightarrow> 'j Response \<times> 'f Device" where
  "handleMute rq = withAuth rq (\<lambda>d. (Done, onSys (muteNow False (rq_now rq)) d))"

definition handleUnmute :: "'j Request \<Rightarrow> 'f Device \<Rightarrow> 'j Response \<times> 'f Device" where
  "handleUnmute rq = withAuth rq (\<lambda>d. (Done, onSys unmuteNow d))"

definition testRelayOne :: "bool \<Rightarrow> string \<Rightarrow> System \<Rightarrow> System" where
  "testRelayOne start detail s = logEvent LogTest (Some detail) (s\<lparr>sy_relay := testPulse start (sy_relay s)\<rparr>)"

definition testRelayCycle :: "string \<Rightarrow> System \<Rightarrow> System" where
  "testRelayCycle detail s = logEvent LogTest (Some detail) (s\<lparr>sy_notify := manualTest (sy_notify s)\<rparr>)"

definition handleTestRelay :: "'j Request \<Rightarrow> 'f Device \<Rightarrow> 'j Response \<times> 'f Device" where
  "handleTestRelay rq = withAuth rq (\<lambda>d.
     let relay = rq_relay rq in
     if relay = ''start'' \<or> relay = ''stop'' then
       (if ne_playing (sy_notify (dv_sys d)) then (Refused 409 ''BUSY'' ''a siren pattern is playing'', d)
        else (Done, onSys (testRelayOne (relay = ''start'')
          (if relay = ''start'' then ''source=web relay=start'' else ''source=web relay=stop'')) d))
     else if length relay > 0 then (Refused 400 ''BAD_RELAY'' ''relay must be start or stop'', d)
     else (Done, onSys (testRelayCycle ''source=web'') d))"

definition handleTestPattern :: "'j JsonOps \<Rightarrow> 'j Request \<Rightarrow> 'f Device \<Rightarrow> 'j Response \<times> 'f Device" where
  "handleTestPattern J rq = withAuth rq (\<lambda>d.
     case rq_doc rq of
       None \<Rightarrow> (Refused 400 ''BAD_JSON'' ''invalid JSON body'', d)
     | Some doc \<Rightarrow>
         (case (if js_isArray J (js_member J doc ''steps'') then patternFromJson J doc emptyPattern else None) of
            None \<Rightarrow> (Refused 422 ''BAD_PATTERN'' ''steps out of allowed range'', d)
          | Some p \<Rightarrow>
              if pat_repeat p > 20 \<or> \<not> hasOn p then (Refused 422 ''BAD_PATTERN'' ''steps out of allowed range'', d)
              else if ne_playing (sy_notify (dv_sys d)) then (Refused 409 ''BUSY'' ''a siren pattern is playing'', d)
              else (Done, onSys (\<lambda>s. logEvent LogTest (Some ''source=web pattern'')
                (s\<lparr>sy_notify := playTest (p\<lparr>pat_enabled := True\<rparr>) (sy_notify s)\<rparr>)) d)))"

definition handleRelayOff :: "'j Request \<Rightarrow> 'f Device \<Rightarrow> 'j Response \<times> 'f Device" where
  "handleRelayOff rq = withAuth rq (\<lambda>d.
     (Done, onSys (\<lambda>s. s\<lparr>sy_notify := stopAll (sy_notify s), sy_relay := forceOff ''web'' (sy_relay s)\<rparr>) d))"

definition handleReboot :: "'j Request \<Rightarrow> 'f Device \<Rightarrow> 'j Response \<times> 'f Device" where
  "handleReboot rq = withAuth rq (\<lambda>d. (Done, rebootIn 300 rq d))"

text \<open>The login of \<open>WebAuth\<close> as a handler.\<close>

definition handleLoginRequest :: "'j JsonOps \<Rightarrow> (string \<Rightarrow> u8 list) \<Rightarrow> 'j Request \<Rightarrow> 'f Device \<Rightarrow> 'j Response \<times> 'f Device" where
  "handleLoginRequest J sha rq d =
     (let sec = sy_secrets (dv_sys d);
          password = (case rq_doc rq of None \<Rightarrow> None | Some _ \<Rightarrow> Some (bodyString J rq ''password''));
          (r, w) = handleLogin sha sec (rq_now rq) (rq_random rq) password (dv_web d);
          d = d\<lparr>dv_web := w\<rparr>
      in case r of
           LoginLocked \<Rightarrow> (Refused 429 ''LOCKED'' ''too many attempts'', d)
         | LoginRefused \<Rightarrow> (Refused 401 ''BAD_CREDENTIALS''
             (if hasWebPassword sec then ''invalid password'' else ''password not set (serial: setpass)''), d)
         | LoginToken tok \<Rightarrow> (Reply (js_mkObj J [(''token'', js_mkStr J tok)]), d))"

text \<open>The probes of the captive portal.\<close>

definition handleCaptive :: "string \<Rightarrow> 'f Device \<Rightarrow> 'j Response \<times> 'f Device" where
  "handleCaptive softApIp d =
     (if wf_state (sy_wifi (dv_sys d)) = WifiProvisioning
      then (RedirectTo (''http://'' @ softApIp @ ''/setup''), d)
      else (Refused 404 ''NOT_FOUND'' ''not provisioning'', d))"

definition web_restart :: "u32 \<Rightarrow> WebUi \<Rightarrow> bool" where
  "web_restart now w \<longleftrightarrow> wu_rebootAt w \<noteq> 0 \<and> timeReached now (wu_rebootAt w)"

end
