(* ===== verification/Console.thy ===== *)
theory Console
  imports WebServer
begin

text \<open>
  The serial console and the boot sequence of \<open>src/main.cpp\<close>: \<open>handleSerialLine\<close>, \<open>pollSerial\<close> and
  \<open>setup\<close>. What the console prints is not modelled, only whether it accepted the line; a restart
  ends the reading. The production build is modelled (\<open>sim\<close> is a command of the development build).
\<close>

datatype ConsoleResult = Rejected | Accepted | Restart

text \<open>\<open>String::indexOf(char, from)\<close> and \<open>String::substring\<close>.\<close>

definition indexFrom :: "char \<Rightarrow> nat \<Rightarrow> string \<Rightarrow> nat option" where
  "indexFrom c from s = (let n = length (takeWhile (\<lambda>x. x \<noteq> c) (drop from s))
     in if from + n < length s then Some (from + n) else None)"

definition substring :: "nat \<Rightarrow> nat \<Rightarrow> string \<Rightarrow> string" where
  "substring a b s = take (b - a) (drop a s)"

subsection \<open>Commands that change the secrets\<close>

text \<open>Save, adopt, and restart or go on.\<close>

definition adoptSecrets :: "('f, 'j) FsOps \<Rightarrow> 'j JsonOps \<Rightarrow> ConsoleResult \<Rightarrow> SecretsStore \<Rightarrow> 'f Device \<Rightarrow> ConsoleResult \<times> 'f Device" where
  "adoptSecrets F J success new d =
     (case saveSecrets F J new d of (ok, d) \<Rightarrow>
        if \<not> ok then (Rejected, d) else (success, onSys (\<lambda>s. s\<lparr>sy_secrets := new\<rparr>) d))"

definition cmdSetWifi :: "('f, 'j) FsOps \<Rightarrow> 'j JsonOps \<Rightarrow> string \<Rightarrow> 'f Device \<Rightarrow> ConsoleResult \<times> 'f Device" where
  "cmdSetWifi F J line d =
     (case indexFrom CHR '' '' 8 line of
        None \<Rightarrow> (Rejected, d)
      | Some sp \<Rightarrow>
          let ssid = substring 8 sp line; pass = drop (sp + 1) line in
          if length ssid = 0 \<or> length ssid > 32 \<or> length pass > 64 then (Rejected, d)
          else adoptSecrets F J Restart ((sy_secrets (dv_sys d))\<lparr>ss_wifiSsid := ssid, ss_wifiPass := pass\<rparr>) d)"

definition cmdSetToken :: "('f, 'j) FsOps \<Rightarrow> 'j JsonOps \<Rightarrow> string \<Rightarrow> 'f Device \<Rightarrow> ConsoleResult \<times> 'f Device" where
  "cmdSetToken F J line d =
     (let tok = drop 9 line in
      if length tok < 10 \<or> length tok > 256 then (Rejected, d)
      else adoptSecrets F J Restart ((sy_secrets (dv_sys d))\<lparr>ss_apiToken := tok\<rparr>) d)"

definition cmdSetPass :: "('f, 'j) FsOps \<Rightarrow> 'j JsonOps \<Rightarrow> (string \<Rightarrow> u8 list) \<Rightarrow> u8 list \<Rightarrow> string \<Rightarrow> 'f Device \<Rightarrow> ConsoleResult \<times> 'f Device" where
  "cmdSetPass F J sha random line d =
     (let password = drop 8 line in
      if length password < 6 \<or> length password > 128 then (Rejected, d)
      else adoptSecrets F J Accepted (setWebPassword sha random password (sy_secrets (dv_sys d))) d)"

definition cmdSetApi :: "('f, 'j) FsOps \<Rightarrow> 'j JsonOps \<Rightarrow> string \<Rightarrow> 'f Device \<Rightarrow> ConsoleResult \<times> 'f Device" where
  "cmdSetApi F J line d =
     (let url = trim (case indexFrom CHR '' '' 0 line of None \<Rightarrow> [] | Some sp \<Rightarrow> if sp > 0 then drop (sp + 1) line else [])
      in if badUrl url then (Rejected, d)
         else adoptSecrets F J Restart ((sy_secrets (dv_sys d))\<lparr>ss_mockUrl := url\<rparr>) d)"

subsection \<open>One line\<close>

definition handleSerialLine :: "('f, 'j) FsOps \<Rightarrow> 'j JsonOps \<Rightarrow> (string \<Rightarrow> u8 list) \<Rightarrow> u8 list \<Rightarrow> u32 \<Rightarrow> string \<Rightarrow> 'f Device \<Rightarrow>
    ConsoleResult \<times> 'f Device" where
  "handleSerialLine F J sha random now raw d =
     (let line = trim raw in
      if startsWith line ''setwifi '' then cmdSetWifi F J line d
      else if startsWith line ''settoken '' then cmdSetToken F J line d
      else if startsWith line ''setpass '' then cmdSetPass F J sha random line d
      else if startsWith line ''setapi'' \<or> startsWith line ''setmock'' then cmdSetApi F J line d
      else if line = ''forgetwifi'' then
        (case forgetWifi F J now d of (ok, d) \<Rightarrow>
           if ok then (Accepted, onSys (logEvent LogConfigChanged (Some ''wifi_forget'')) d) else (Rejected, d))
      else if line = ''show'' then (Accepted, d)
      else if line = ''restart'' then (Restart, d)
      else if line = ''mute'' then (Accepted, onSys (muteNow False now) d)
      else if line = ''unmute'' then (Accepted, onSys unmuteNow d)
      else if line = ''test'' then (Accepted, onSys (testRelayCycle ''source=serial'') d)
      else if line = ''test start'' \<or> line = ''test stop'' then
        (if ne_playing (sy_notify (dv_sys d)) then (Rejected, d)
         else (Accepted, onSys (testRelayOne (line = ''test start'')
           (if line = ''test start'' then ''source=serial relay=start'' else ''source=serial relay=stop'')) d))
      else if line = ''status'' \<or> line = ''config'' \<or> line = ''log'' then (Accepted, d)
      else (Rejected, d))"

subsection \<open>Reading the line\<close>

text \<open>
  The characters that have arrived, over the buffer that is kept between turns. A line longer than
  the buffer is cut at its length. True stands for a restart.
\<close>

fun pollSerial :: "(string \<Rightarrow> 'd \<Rightarrow> ConsoleResult \<times> 'd) \<Rightarrow> string \<Rightarrow> string \<times> 'd \<Rightarrow> bool \<times> string \<times> 'd" where
  "pollSerial handle [] (buf, d) = (False, buf, d)"
| "pollSerial handle (c # cs) (buf, d) =
     (if c = CHR 0x0A \<or> c = CHR 0x0D then
        (if length buf > 0 then
           (case handle buf d of
              (Restart, d) \<Rightarrow> (True, [], d)
            | (_, d) \<Rightarrow> pollSerial handle cs ([], d))
         else pollSerial handle cs ([], d))
      else if length buf < 160 then pollSerial handle cs (buf @ [c], d)
      else pollSerial handle cs (buf, d))"

subsection \<open>Boot\<close>

text \<open>What the boot meets: the clock, the reset reason, random bytes and the SSID of the recovery network.\<close>

record BootEnv =
  be_now :: u32
  be_resetReason :: string
  be_random :: "u8 list"
  be_apSsid :: string

definition bootConfig :: "('f, 'j) FsOps \<Rightarrow> 'j JsonOps \<Rightarrow> 'f \<Rightarrow> AppConfig" where
  "bootConfig F J f = (case store_load F J f defaultConfig of (True, c) \<Rightarrow> c | (False, _) \<Rightarrow> defaultConfig)"

definition bootClient :: "System \<Rightarrow> System" where
  "bootClient s =
     (let s = s\<lparr>sy_client := client_begin (ss_apiToken (sy_secrets s)) (sy_client s)\<rparr>; url = ss_mockUrl (sy_secrets s)
      in if length url > 0 then applyPollInterval (s\<lparr>sy_client := setMockUrl url (sy_client s)\<rparr>) else s)"

definition bootWifi :: "('f, 'j) FsOps \<Rightarrow> 'j JsonOps \<Rightarrow> BootEnv \<Rightarrow> 'f Device \<Rightarrow> 'f Device" where
  "bootWifi F J env d =
     (let sec = sy_secrets (dv_sys d);
          (saved, d) = (if length (ss_provisioningPass sec) < 12
             then saveSecrets F J (sec\<lparr>ss_provisioningPass := makeProvisioningPass (be_random env)\<rparr>) d else (True, d));
          (w, sec) = wifi_begin (be_now env) (be_apSsid env) (be_random env) (\<lambda>_. saved) sec (sy_wifi (dv_sys d))
      in onSys (\<lambda>s. s\<lparr>sy_secrets := sec, sy_wifi := w\<rparr>) d)"

definition bootSystem :: "('f, 'j) FsOps \<Rightarrow> 'j JsonOps \<Rightarrow> BootEnv \<Rightarrow> 'f \<Rightarrow> System" where
  "bootSystem F J env f =
     (let s = initSystem\<lparr>sy_led := led_begin kBuiltinLed True kAlertOut True False initIndication\<rparr>;
          s = applyConfig (s\<lparr>sy_cfg := bootConfig F J f\<rparr>);
          s = logEvent LogBoot (Some (be_resetReason env)) s
      in bootClient (s\<lparr>sy_secrets := snd (secrets_load F J f (sy_secrets s))\<rparr>))"

definition boot :: "('f, 'j) FsOps \<Rightarrow> 'j JsonOps \<Rightarrow> BootEnv \<Rightarrow> 'f \<Rightarrow> 'f Device" where
  "boot F J env f = bootWifi F J env \<lparr>dv_sys = bootSystem F J env f, dv_web = initWeb, dv_fs = f\<rparr>"

subsection \<open>Finding\<close>

lemma pollSerial_keeps:
  "CHR 0x0A \<notin> set cs \<Longrightarrow> CHR 0x0D \<notin> set cs \<Longrightarrow> length buf \<le> 160 \<Longrightarrow>
   pollSerial handle (cs @ rest) (buf, d) = pollSerial handle rest (take 160 (buf @ cs), d)"
  by (induction cs arbitrary: buf) (auto simp: take_Cons')

text \<open>
  The console accepts tokens of up to 256 characters, but its line buffer holds 160: of a longer line
  the rest is dropped without a word, and the command is carried out with what is left.
\<close>

lemma long_line_is_cut:
  assumes "CHR 0x0A \<notin> set tok" "CHR 0x0D \<notin> set tok" "length tok > 151"
  shows "pollSerial handle (''settoken '' @ tok @ [CHR 0x0A]) ([], d) =
    (case handle (''settoken '' @ take 151 tok) d of (Restart, d) \<Rightarrow> (True, [], d) | (_, d) \<Rightarrow> (False, [], d))"
proof -
  have "pollSerial handle ((''settoken '' @ tok) @ [CHR 0x0A]) ([], d) =
      pollSerial handle [CHR 0x0A] (take 160 (''settoken '' @ tok), d)"
    using pollSerial_keeps [of "''settoken '' @ tok" "[]" handle "[CHR 0x0A]" d] assms(1,2) by simp
  then show ?thesis by (simp split: prod.split ConsoleResult.split)
qed

end
