(* ===== verification/WebStatus.thy ===== *)
theory WebStatus
  imports WebServer
begin

text \<open>
  The handlers of the web interface that only read: the dashboard's status, the event log, the
  system page and the Wi-Fi scan, and how a response is rendered. What the board reports (signal
  strength, heap, networks) is an argument.
\<close>

definition coverageName :: "Coverage \<Rightarrow> string" where
  "coverageName c = (if c = Full then ''full'' else if c = Partial then ''partial'' else ''none'')"

record BoardInfo =
  bi_firmware :: string
  bi_build :: string
  bi_core :: string
  bi_resetReason :: string
  bi_heapFree :: u32
  bi_heapMaxBlock :: u32
  bi_heapFrag :: u8
  bi_flashSize :: u32
  bi_sketchSize :: u32
  bi_sketchFree :: u32
  bi_fsInfo :: "(nat \<times> nat) option"
  bi_ip :: string
  bi_rssi :: int
  bi_connected :: bool

definition mkNat :: "'j JsonOps \<Rightarrow> nat \<Rightarrow> 'j" where
  "mkNat J n = js_mkInt J (int n)"

definition strOrNull :: "'j JsonOps \<Rightarrow> string option \<Rightarrow> 'j" where
  "strOrNull J s = (case s of None \<Rightarrow> js_mkNull J | Some t \<Rightarrow> js_mkStr J t)"

subsection \<open>Status\<close>

text \<open>Why there is no data yet: the first thing that is missing.\<close>

definition waitingReason :: "System \<Rightarrow> string option" where
  "waitingReason s =
     (if \<not> ae_synced (sy_engine s) then
        Some (if length (ac_selected (sy_cfg s)) = 0 then ''locations''
              else if \<not> wifi_online (sy_wifi s) then ''wifi''
              else if length (ss_apiToken (sy_secrets s)) = 0 then ''token''
              else if \<not> sy_ntpSynced s then ''time''
              else if length (sy_lastApiError s) > 0 then sy_lastApiError s
              else ''api'')
      else None)"

definition apiStatus :: "'j JsonOps \<Rightarrow> u32 \<Rightarrow> System \<Rightarrow> 'j" where
  "apiStatus J now s =
     (let since = health_sinceContactMs now (sy_health s) in
      js_mkObj J
        [(''online'', js_mkBool J (ah_online (sy_health s))),
         (''stale'', js_mkBool J (health_stale now (sy_health s))),
         (''ever_synced'', js_mkBool J (ae_synced (sy_engine s))),
         (''ntp_synced'', js_mkBool J (sy_ntpSynced s)),
         (''selected_locations'', mkNat J (length (ac_selected (sy_cfg s)))),
         (''last_http_code'', if sy_lastApiHttpCode s \<noteq> 0 then js_mkInt J (sy_lastApiHttpCode s) else js_mkNull J),
         (''last_error'', if length (sy_lastApiError s) > 0 then js_mkStr J (sy_lastApiError s) else js_mkNull J),
         (''waiting_reason'', strOrNull J (waitingReason s)),
         (''last_contact_sec'', if since = - 1 then js_mkNull J else mkNat J (unat since div 1000)),
         (''token_present'', js_mkBool J (length (ss_apiToken (sy_secrets s)) > 0)),
         (''url'', js_mkStr J (ss_mockUrl (sy_secrets s)))])"

definition activeTypes :: "System \<Rightarrow> AlertType list" where
  "activeTypes s = filter (\<lambda>t. ts_state (ae_types (sy_engine s) t) = Active) allTypes"

definition typeStatus :: "'j JsonOps \<Rightarrow> System \<Rightarrow> AlertType \<Rightarrow> 'j" where
  "typeStatus J s t = js_mkObj J
     [(''type'', js_mkStr J (alertTypeToString t)),
      (''coverage'', js_mkStr J (coverageName (ts_coverage (ae_types (sy_engine s) t)))),
      (''started_at'', js_mkInt J (ts_startedAt (ae_types (sy_engine s) t)))]"

definition threatStatus :: "'j JsonOps \<Rightarrow> Threat \<Rightarrow> 'j" where
  "threatStatus J t = js_mkObj J
     [(''type'', js_mkStr J (alertTypeToString (th_type t))),
      (''coverage'', js_mkStr J (coverageName (th_coverage t))),
      (''started_at'', mkNat J (unat (th_startedAt t)))]"

definition locationStatus :: "'j JsonOps \<Rightarrow> u16 \<times> Threat list \<Rightarrow> 'j" where
  "locationStatus J l = js_mkObj J
     [(''uid'', mkNat J (unat (fst l))), (''threats'', js_mkArr J (map (threatStatus J) (snd l)))]"

definition alertsStatus :: "'j JsonOps \<Rightarrow> System \<Rightarrow> 'j" where
  "alertsStatus J s = js_mkObj J
     [(''types'', js_mkArr J (map (typeStatus J s) (activeTypes s))),
      (''locations'', js_mkArr J (map (locationStatus J) (filter (\<lambda>l. snd l \<noteq> []) (sy_view s)))),
      (''active'', js_mkBool J (activeTypes s \<noteq> [])),
      (''muted'', js_mkBool J (muted (ne_mute (sy_notify s)))),
      (''count'', mkNat J (length (activeTypes s)))]"

definition handleStatus :: "'j JsonOps \<Rightarrow> BoardInfo \<Rightarrow> 'j Request \<Rightarrow> 'f Device \<Rightarrow> 'j Response \<times> 'f Device" where
  "handleStatus J info rq = withAuth rq (\<lambda>d.
     let s = dv_sys d in
     (Reply (js_mkObj J
        [(''device'', js_mkStr J (ac_deviceName (sy_cfg s))),
         (''firmware'', js_mkStr J (bi_firmware info)),
         (''uptime_sec'', mkNat J (unat (rq_now rq) div 1000)),
         (''wifi'', js_mkObj J [(''connected'', js_mkBool J (bi_connected info)), (''rssi'', js_mkInt J (bi_rssi info))]),
         (''api'', apiStatus J (rq_now rq) s),
         (''alerts'', alertsStatus J s),
         (''relay'', js_mkObj J [(''active'', js_mkBool J (rc_on (sy_relay s))),
                                 (''tripped'', js_mkBool J (safetyTripped (sy_relay s)))])]), d))"

subsection \<open>Event log, system page and scan\<close>

text \<open>The log is streamed from the older file to the newer one; a file that is missing is skipped.\<close>

definition handleEvents :: "EventLogStore \<Rightarrow> (string \<Rightarrow> string option) \<Rightarrow> 'j Request \<Rightarrow> 'f Device \<Rightarrow> 'j Response \<times> 'f Device" where
  "handleEvents el file rq = withAuth rq (\<lambda>d.
     if \<not> el_healthy el then (Refused 500 ''JOURNAL_ERROR'' ''event journal storage is unavailable'', d)
     else (RawText (concat (map (\<lambda>path. case file path of None \<Rightarrow> [] | Some text \<Rightarrow> text) [olderPath el, activePath el])), d))"

definition handleSystem :: "'j JsonOps \<Rightarrow> BoardInfo \<Rightarrow> 'j Request \<Rightarrow> 'f Device \<Rightarrow> 'j Response \<times> 'f Device" where
  "handleSystem J info rq = withAuth rq (\<lambda>d.
     (Reply (js_mkObj J
        ([(''firmware'', js_mkStr J (bi_firmware info)), (''build'', js_mkStr J (bi_build info)),
          (''core'', js_mkStr J (bi_core info)), (''reset_reason'', js_mkStr J (bi_resetReason info)),
          (''uptime_sec'', mkNat J (unat (rq_now rq) div 1000)),
          (''heap_free'', mkNat J (unat (bi_heapFree info))), (''heap_max_block'', mkNat J (unat (bi_heapMaxBlock info))),
          (''heap_frag_pct'', mkNat J (unat (bi_heapFrag info))), (''flash_size'', mkNat J (unat (bi_flashSize info))),
          (''sketch_size'', mkNat J (unat (bi_sketchSize info))), (''sketch_free'', mkNat J (unat (bi_sketchFree info)))] @
         (case bi_fsInfo info of None \<Rightarrow> []
          | Some (usedBytes, totalBytes) \<Rightarrow> [(''fs_used'', mkNat J usedBytes), (''fs_total'', mkNat J totalBytes)]) @
         [(''ip'', js_mkStr J (bi_ip info)), (''rssi'', js_mkInt J (bi_rssi info)),
          (''catalogue'', js_mkStr J ''ukrainealarm /api/v3/regions'')])), d))"

text \<open>Open on the portal of an unconfigured device only; at most 20 networks (SSID, RSSI, open).\<close>

definition networkJson :: "'j JsonOps \<Rightarrow> string \<times> int \<times> bool \<Rightarrow> 'j" where
  "networkJson J n = (case n of (ssid, rssi, isOpen) \<Rightarrow> js_mkObj J
     [(''ssid'', js_mkStr J ssid), (''rssi'', js_mkInt J rssi), (''open'', js_mkBool J isOpen)])"

definition handleScan :: "'j JsonOps \<Rightarrow> (string \<times> int \<times> bool) list \<Rightarrow> 'j Request \<Rightarrow> 'f Device \<Rightarrow> 'j Response \<times> 'f Device" where
  "handleScan J networks rq d =
     (if wf_state (sy_wifi (dv_sys d)) \<noteq> WifiProvisioning \<and> \<not> authed (rq_now rq) (rq_auth rq) (dv_web d)
      then (Refused 401 ''UNAUTHORIZED'' ''login required'', d)
      else (Reply (js_mkObj J [(''networks'', js_mkArr J (map (networkJson J) (take 20 networks)))]), d))"

subsection \<open>Rendering\<close>

definition sendError :: "'j JsonOps \<Rightarrow> string \<Rightarrow> string \<Rightarrow> 'j" where
  "sendError J code message = js_mkObj J
     [(''ok'', js_mkBool J False),
      (''error'', js_mkObj J [(''code'', js_mkStr J code), (''message'', js_mkStr J message)])]"

end
