(* ===== verification/WebOta.thy ===== *)
theory WebOta
  imports WebServer
begin

text \<open>
  Firmware updates through the web interface (\<open>handleOtaUpload\<close>, \<open>handleOtaUrl\<close> and the final
  response of an upload in \<open>src/web/WebUi.cpp\<close>). The updater of the core (\<open>Updater.h\<close>) is a
  parameter; the locale \<open>updater\<close> states what its documentation promises. The HTTP client enters
  as what it returns, SHA-256 as a function of the bytes hashed so far.
\<close>

record 'u UpdOps =
  up_begin :: "nat \<Rightarrow> 'u \<Rightarrow> bool \<times> 'u"
  up_write :: "u8 list \<Rightarrow> 'u \<Rightarrow> nat \<times> 'u"
  up_end :: "bool \<Rightarrow> 'u \<Rightarrow> bool \<times> 'u"
  up_hasError :: "'u \<Rightarrow> bool"
  up_errorString :: "'u \<Rightarrow> string"

definition maxSketch :: "u32 \<Rightarrow> u32" where
  "maxSketch freeSketch = (freeSketch - 0x1000) AND 0xFFFFF000"

definition otaFlags :: "bool \<Rightarrow> bool \<Rightarrow> bool \<Rightarrow> 'f Device \<Rightarrow> 'f Device" where
  "otaFlags authorized started succeeded d =
     d\<lparr>dv_web := (dv_web d)\<lparr>wu_otaAuthorized := authorized, wu_otaStarted := started, wu_otaSucceeded := succeeded\<rparr>\<rparr>"

subsection \<open>Upload\<close>

datatype UploadEvent = UploadStart | UploadWrite "u8 list" | UploadEnd | UploadAborted

definition uploadStart :: "'u UpdOps \<Rightarrow> u32 \<Rightarrow> 'j Request \<Rightarrow> 'f Device \<times> 'u \<Rightarrow> 'j Response option \<times> 'f Device \<times> 'u" where
  "uploadStart U freeSketch rq du = (case du of (d, u) \<Rightarrow>
     (let ok = authed (rq_now rq) (rq_auth rq) (dv_web d); d = otaFlags ok False False d in
      if \<not> ok then (Some (Refused 401 ''UNAUTHORIZED'' ''login required''), d, u)
      else let d = onSys (\<lambda>s. logEvent LogOtaStarted (Some ''source=upload'') (prepareOta s)) d;
               (started, u) = up_begin U (unat (maxSketch freeSketch)) u
           in (None, otaFlags ok started False d, u)))"

definition uploadWrite :: "'u UpdOps \<Rightarrow> u8 list \<Rightarrow> 'f Device \<times> 'u \<Rightarrow> 'f Device \<times> 'u" where
  "uploadWrite U bs du = (case du of (d, u) \<Rightarrow>
     if wu_otaStarted (dv_web d) then
       (case up_write U bs u of (n, u) \<Rightarrow>
          if n \<noteq> length bs then (d\<lparr>dv_web := (dv_web d)\<lparr>wu_otaStarted := False\<rparr>\<rparr>, snd (up_end U False u)) else (d, u))
     else (d, u))"

definition uploadEnd :: "'u UpdOps \<Rightarrow> 'f Device \<times> 'u \<Rightarrow> 'f Device \<times> 'u" where
  "uploadEnd U du = (case du of (d, u) \<Rightarrow>
     (let (ok, u) = (if wu_otaStarted (dv_web d) then up_end U True u else (False, u))
      in (d\<lparr>dv_web := (dv_web d)\<lparr>wu_otaSucceeded := ok\<rparr>\<rparr>, u)))"

definition uploadAborted :: "'u UpdOps \<Rightarrow> 'f Device \<times> 'u \<Rightarrow> 'f Device \<times> 'u" where
  "uploadAborted U du = (case du of (d, u) \<Rightarrow>
     (let u = snd (up_end U False u);
          d = d\<lparr>dv_web := (dv_web d)\<lparr>wu_otaStarted := False, wu_otaSucceeded := False\<rparr>\<rparr>
      in (onSys (\<lambda>s. finishFailedOta (logEvent LogOtaFailed (Some ''aborted'') s)) d, u)))"

definition handleOtaUpload :: "'u UpdOps \<Rightarrow> u32 \<Rightarrow> 'j Request \<Rightarrow> UploadEvent \<Rightarrow> 'f Device \<times> 'u \<Rightarrow>
    'j Response option \<times> 'f Device \<times> 'u" where
  "handleOtaUpload U freeSketch rq ev du = (case ev of
       UploadStart \<Rightarrow> uploadStart U freeSketch rq du
     | UploadWrite bs \<Rightarrow> (None, uploadWrite U bs du)
     | UploadEnd \<Rightarrow> (None, uploadEnd U du)
     | UploadAborted \<Rightarrow> (None, uploadAborted U du))"

text \<open>The response when the request is complete; none for an upload that was refused at its start.\<close>

definition uploadDone :: "'u UpdOps \<Rightarrow> 'j Request \<Rightarrow> 'f Device \<times> 'u \<Rightarrow> 'j Response option \<times> 'f Device \<times> 'u" where
  "uploadDone U rq du = (case du of (d, u) \<Rightarrow>
     if \<not> wu_otaAuthorized (dv_web d) then (None, d, u)
     else if \<not> wu_otaSucceeded (dv_web d) \<or> up_hasError U u then
       (let err = (if up_hasError U u then up_errorString U u else ''upload incomplete'')
        in (Some (Refused 500 ''OTA_FAILED'' err),
            onSys (\<lambda>s. finishFailedOta (logEvent LogOtaFailed None s)) d, snd (up_end U False u)))
     else (Some Done, rebootIn 500 rq (onSys (logEvent LogOtaSuccess None) d), u))"

subsection \<open>Download\<close>

record OtaEnv =
  oe_begin :: bool
  oe_code :: int
  oe_size :: int
  oe_freeSketch :: u32
  oe_chunks :: "u8 list list"

definition toLower :: "char \<Rightarrow> char" where
  "toLower c = (if c \<in> set ''ABCDEFGHIJKLMNOPQRSTUVWXYZ'' then char_of (of_char c + (32 :: nat)) else c)"

text \<open>
  The loop over the stream: what is left, what was hashed, and the updater. A chunk is what one
  read delivers, nothing when it timed out; after the last one the connection is closed.
\<close>

fun download :: "'u UpdOps \<Rightarrow> nat \<Rightarrow> u8 list \<Rightarrow> u8 list list \<Rightarrow> 'u \<Rightarrow> nat \<times> u8 list \<times> 'u" where
  "download U left hashed [] u = (left, hashed, u)"
| "download U left hashed (c # cs) u =
     (if left = 0 then (left, hashed, u)
      else let buf = take (min 1024 left) c in
        if buf = [] then (left, hashed, u)
        else let hashed = hashed @ buf; (n, u) = up_write U buf u in
          if n \<noteq> length buf then (left, hashed, u)
          else download U (left - length buf) hashed cs u)"

definition otaFail :: "nat \<Rightarrow> string \<Rightarrow> string \<Rightarrow> string \<Rightarrow> 'f Device \<times> 'u \<Rightarrow> 'j Response \<times> 'f Device \<times> 'u" where
  "otaFail status code message detail du = (case du of (d, u) \<Rightarrow>
     (Refused status code message, onSys (\<lambda>s. finishFailedOta (logEvent LogOtaFailed (Some detail) s)) d, u))"

text \<open>From the answer of the server to the armed image.\<close>

definition otaInstall :: "'u UpdOps \<Rightarrow> (u8 list \<Rightarrow> u8 list) \<Rightarrow> OtaEnv \<Rightarrow> 'j Request \<Rightarrow> string \<Rightarrow> 'f Device \<times> 'u \<Rightarrow>
    'j Response \<times> 'f Device \<times> 'u" where
  "otaInstall U sha env rq want du = (case du of (d, u) \<Rightarrow>
     if oe_size env \<le> 0 \<or> maxSketch (oe_freeSketch env) < word_of_int (oe_size env)
     then otaFail 422 ''BAD_SIZE'' ''image does not fit'' ''size'' (d, u)
     else case up_begin U (nat (oe_size env)) u of
       (False, u) \<Rightarrow> otaFail 500 ''OTA_FAILED'' (up_errorString U u) ''begin_update'' (d, u)
     | (True, u) \<Rightarrow>
         (case download U (nat (oe_size env)) [] (oe_chunks env) u of (left, hashed, u) \<Rightarrow>
            if left \<noteq> 0 \<or> want \<noteq> hexOf (sha hashed)
            then otaFail 422 ''VERIFY_FAILED'' (if left \<noteq> 0 then ''truncated download'' else ''sha256 mismatch'')
                   (if left \<noteq> 0 then ''truncated'' else ''sha256_mismatch'') (d, snd (up_end U False u))
            else case up_end U True u of
              (False, u) \<Rightarrow> otaFail 500 ''OTA_FAILED'' (up_errorString U u) ''finalize'' (d, u)
            | (True, u) \<Rightarrow> (Done, rebootIn 500 rq (onSys (logEvent LogOtaSuccess (Some ''source=url'')) d), u)))"

definition handleOtaUrl :: "'u UpdOps \<Rightarrow> 'j JsonOps \<Rightarrow> (u8 list \<Rightarrow> u8 list) \<Rightarrow> OtaEnv \<Rightarrow> 'j Request \<Rightarrow> 'f Device \<times> 'u \<Rightarrow>
    'j Response \<times> 'f Device \<times> 'u" where
  "handleOtaUrl U J sha env rq du = (case du of (d, u) \<Rightarrow>
     if \<not> authed (rq_now rq) (rq_auth rq) (dv_web d) then (Refused 401 ''UNAUTHORIZED'' ''login required'', d, u)
     else if rq_doc rq = None then (Refused 400 ''BAD_JSON'' ''invalid JSON body'', d, u)
     else
       let url = bodyString J rq ''url''; want = map toLower (bodyString J rq ''sha256'') in
       if \<not> startsWith url ''https://'' then (Refused 422 ''BAD_URL'' ''HTTPS required'', d, u)
       else if \<not> isSha256Hex want then (Refused 422 ''BAD_SHA'' ''sha256 hex required'', d, u)
       else
         let d = onSys (\<lambda>s. logEvent LogOtaStarted (Some ''source=url'') (prepareOta s)) d in
         if \<not> oe_begin env then otaFail 500 ''NET'' ''begin failed'' ''begin'' (d, u)
         else if oe_code env \<noteq> 200 then otaFail 502 ''HTTP_ERROR'' (showInt (oe_code env)) ''http'' (d, u)
         else otaInstall U sha env rq want (d, u))"

subsection \<open>What the updater promises\<close>

text \<open>
  \<open>staged\<close> is what the running update has written, \<open>armed\<close> the image the boot loader installs at
  the next restart. Ending an update that is complete arms the image whatever the argument;
  ending one that is not complete does so only with \<open>evenIfRemaining\<close>.
\<close>

locale updater =
  fixes U :: "'u UpdOps"
    and staged :: "'u \<Rightarrow> u8 list option"
    and announced :: "'u \<Rightarrow> nat"
    and armed :: "'u \<Rightarrow> u8 list option"
  assumes begin_armed: "up_begin U n u = (ok, u') \<Longrightarrow> armed u' = armed u"
    and begin_staged: "up_begin U n u = (True, u') \<Longrightarrow> staged u' = Some [] \<and> announced u' = n"
    and write_armed: "up_write U bs u = (n, u') \<Longrightarrow> armed u' = armed u \<and> announced u' = announced u"
    and write_staged: "up_write U bs u = (n, u') \<Longrightarrow> staged u = Some b \<Longrightarrow>
      n \<le> length bs \<and> staged u' = Some (b @ take n bs)"
    and end_done: "up_end U e u = (True, u') \<Longrightarrow> armed u' = staged u \<and> staged u \<noteq> None"
    and end_failed: "up_end U e u = (False, u') \<Longrightarrow> armed u' = armed u"
    and end_incomplete: "staged u = Some b \<Longrightarrow> length b < announced u \<Longrightarrow> \<not> fst (up_end U False u)"
    and end_complete: "staged u = Some b \<Longrightarrow> length b = announced u \<Longrightarrow> b \<noteq> [] \<Longrightarrow> \<not> up_hasError U u \<Longrightarrow> fst (up_end U e u)"
begin

text \<open>What the loop has hashed is what it handed to the updater, unless a write failed.\<close>

lemma download_staged:
  assumes "download U left hashed cs u = (left', hashed', u')" "staged u = Some hashed"
    "length hashed + left = announced u"
  shows "armed u' = armed u \<and> announced u' = announced u \<and>
    (\<exists>b. staged u' = Some b \<and> (left' = 0 \<longrightarrow> b = hashed' \<and> length b = announced u) \<and> (left' \<noteq> 0 \<longrightarrow> length b < announced u))"
  using assms
proof (induction cs arbitrary: left hashed u)
  case (Cons c cs)
  define buf where "buf = take (min 1024 left) c"
  obtain n u1 where w: "up_write U buf u = (n, u1)" by fastforce
  show ?case
  proof (cases "left = 0 \<or> buf = []")
    case False
    have len: "length buf \<le> left" "0 < length buf" using False by (auto simp: buf_def)
    have u1: "armed u1 = armed u" "announced u1 = announced u" "n \<le> length buf" "staged u1 = Some (hashed @ take n buf)"
      using write_armed [OF w] write_staged [OF w Cons.prems(2)] by simp_all
    show ?thesis
    proof (cases "n = length buf")
      case True
      then have "download U (left - length buf) (hashed @ buf) cs u1 = (left', hashed', u')"
        using Cons.prems(1) False w by (simp add: buf_def [symmetric] Let_def)
      then show ?thesis using Cons.IH [of "left - length buf" "hashed @ buf" u1] Cons.prems(3) True len u1 by simp
    next
      case short: False
      then have "left' = left" "u' = u1" using Cons.prems(1) False w by (auto simp: buf_def [symmetric] Let_def)
      then show ?thesis using short u1 len Cons.prems(3) False by simp
    qed
  next
    case True
    then have "left' = left" "hashed' = hashed" "u' = u"
      using Cons.prems(1) by (auto simp: buf_def [symmetric] Let_def split: if_split_asm)
    then show ?thesis using Cons.prems by auto
  qed
qed auto

lemma begun_download:
  assumes "up_begin U n u = (True, u1)" "download U n [] cs u1 = (left, hashed, u2)"
  shows "armed u2 = armed u \<and> announced u2 = n \<and>
    (\<exists>b. staged u2 = Some b \<and> (left = 0 \<longrightarrow> b = hashed \<and> length b = n) \<and> (left \<noteq> 0 \<longrightarrow> length b < n))"
  using download_staged [OF assms(2)] begin_staged [OF assms(1)] begin_armed [OF assms(1)] by simp

lemma otaInstall_done:
  assumes "otaInstall U sha env rq want (d, u) = (Done, d', u')"
  shows "\<exists>fw. armed u' = Some fw \<and> int (length fw) = oe_size env \<and> hexOf (sha fw) = want"
proof -
  obtain u1 left hashed u2 where steps: "0 < oe_size env" "up_begin U (nat (oe_size env)) u = (True, u1)"
    "download U (nat (oe_size env)) [] (oe_chunks env) u1 = (left, hashed, u2)"
    "left = 0" "want = hexOf (sha hashed)" "up_end U True u2 = (True, u')"
    using assms by (auto simp: otaInstall_def otaFail_def split: if_split_asm prod.split_asm bool.split_asm)
  show ?thesis using steps begun_download [OF steps(2,3)] end_done [OF steps(6)] by auto
qed

lemma otaInstall_refused:
  assumes "otaInstall U sha env rq want (d, u) = (Refused st code msg, d', u')" "msg \<noteq> ''sha256 mismatch''"
  shows "armed u' = armed u"
proof -
  consider (none) "u' = u"
    | (unbegun) "up_begin U (nat (oe_size env)) u = (False, u')"
    | (cut) u1 left hashed u2 where "0 < left" "up_begin U (nat (oe_size env)) u = (True, u1)"
        "download U (nat (oe_size env)) [] (oe_chunks env) u1 = (left, hashed, u2)" "u' = snd (up_end U False u2)"
    | (fail) u1 left hashed u2 where "up_begin U (nat (oe_size env)) u = (True, u1)"
        "download U (nat (oe_size env)) [] (oe_chunks env) u1 = (left, hashed, u2)" "up_end U True u2 = (False, u')"
    using assms by (auto simp: otaInstall_def otaFail_def split: if_split_asm prod.split_asm bool.split_asm)
  then show ?thesis
  proof cases
    case unbegun
    then show ?thesis by (rule begin_armed)
  next
    case cut
    note dl = begun_download [OF cut(2,3)]
    then have "\<not> fst (up_end U False u2)" using cut(1) end_incomplete [of u2] by auto
    then show ?thesis using cut(4) end_failed [of False u2] dl by (cases "up_end U False u2") simp
  next
    case fail
    show ?thesis using end_failed [OF fail(3)] begun_download [OF fail(1,2)] by simp
  qed simp
qed

text \<open>The one failure that installs: a complete download with the wrong checksum.\<close>

lemma wrong_checksum_armed:
  assumes "up_begin U (nat (oe_size env)) u = (True, u1)" and "0 < oe_size env"
    and "word_of_int (oe_size env) \<le> maxSketch (oe_freeSketch env)"
    and "download U (nat (oe_size env)) [] (oe_chunks env) u1 = (0, fw, u2)"
    and "\<not> up_hasError U u2" and "want \<noteq> hexOf (sha fw)"
    and "otaInstall U sha env rq want (d, u) = (r, d', u')"
  shows "r = Refused 422 ''VERIFY_FAILED'' ''sha256 mismatch'' \<and> armed u' = Some fw"
proof -
  have st: "staged u2 = Some fw" "length fw = announced u2" "fw \<noteq> []"
    using begun_download [OF assms(1,4)] assms(2) by auto
  obtain u3 where e: "up_end U False u2 = (True, u3)"
    using end_complete [OF st assms(5), of False] by (cases "up_end U False u2") auto
  show ?thesis using assms(7) e st end_done [OF e]
    by (simp add: otaInstall_def otaFail_def assms(1,2,4,6) assms(2) [THEN less_imp_le] not_less [THEN iffD2, OF assms(3)]
        not_le [THEN iffD2, OF assms(2)])
qed

end

subsection \<open>An updater\<close>

text \<open>One that stages in memory and refuses what does not fit meets the contract.\<close>

record Updater =
  ud_staged :: "u8 list option"
  ud_size :: nat
  ud_armed :: "u8 list option"

definition initUpdater :: Updater where
  "initUpdater = \<lparr>ud_staged = None, ud_size = 0, ud_armed = None\<rparr>"

definition updaterOps :: "Updater UpdOps" where
  "updaterOps = \<lparr>
     up_begin = (\<lambda>n u. if n = 0 then (False, u) else (True, u\<lparr>ud_staged := Some [], ud_size := n\<rparr>)),
     up_write = (\<lambda>bs u. case ud_staged u of None \<Rightarrow> (0, u)
       | Some b \<Rightarrow> if length b + length bs > ud_size u then (0, u) else (length bs, u\<lparr>ud_staged := Some (b @ bs)\<rparr>)),
     up_end = (\<lambda>e u. case ud_staged u of None \<Rightarrow> (False, u)
       | Some b \<Rightarrow> if b \<noteq> [] \<and> (e \<or> length b = ud_size u) then (True, u\<lparr>ud_staged := None, ud_armed := Some b\<rparr>)
           else (False, u\<lparr>ud_staged := None\<rparr>)),
     up_hasError = (\<lambda>u. False), up_errorString = (\<lambda>u. ''No Error'')\<rparr>"

interpretation core_updater: updater updaterOps ud_staged ud_size ud_armed
  by unfold_locales (auto simp: updaterOps_def split: option.splits if_splits)

subsection \<open>Properties\<close>

lemma otaFail_simps: "otaFail st code msg detail (d, u) =
    (Refused st code msg, onSys (\<lambda>s. finishFailedOta (logEvent LogOtaFailed (Some detail) s)) d, u)"
  by (simp add: otaFail_def)

lemma onSys_sys [simp]: "dv_sys (onSys g d) = g (dv_sys d)" "dv_web (onSys g d) = dv_web d" "dv_fs (onSys g d) = dv_fs d"
  by (simp_all add: onSys_def)

lemma otaInProgress_simps [simp]:
  "\<not> sy_otaInProgress (finishFailedOta s)" "sy_otaInProgress (prepareOta s)"
  "sy_otaInProgress (logEvent e x s) = sy_otaInProgress s"
  by (simp_all add: finishFailedOta_def prepareOta_def logEvent_def Let_def)

lemma rebootIn_sys [simp]: "dv_sys (rebootIn ms rq d) = dv_sys d" "dv_fs (rebootIn ms rq d) = dv_fs d"
  by (simp_all add: rebootIn_def)

lemma otaInstall_progress:
  assumes "otaInstall U sha env rq want (d, u) = (r, d', u')" "sy_otaInProgress (dv_sys d)"
  shows "sy_otaInProgress (dv_sys d') \<longleftrightarrow> r = Done"
  using assms by (auto simp: otaInstall_def otaFail_simps split: if_split_asm prod.split_asm bool.split_asm)

text \<open>How a request for a download ends: refused at once, given up, or with an attempt to install.\<close>

lemma handleOtaUrl_cases:
  assumes "handleOtaUrl U J sha env rq (d, u) = (r, d', u')"
  obtains (refused) st code msg where "r = Refused st code msg" "msg \<noteq> ''sha256 mismatch''" "u' = u" "d' = d"
  | (failed) st code msg where "r = Refused st code msg" "u' = u" "\<not> sy_otaInProgress (dv_sys d')"
  | (tried) d1 where "otaInstall U sha env rq (map toLower (bodyString J rq ''sha256'')) (d1, u) = (r, d', u')"
      "authed (rq_now rq) (rq_auth rq) (dv_web d)" "startsWith (bodyString J rq ''url'') ''https://''" "sy_otaInProgress (dv_sys d1)"
  using assms by (auto simp: handleOtaUrl_def otaFail_simps Let_def split: if_split_asm)

text \<open>
  C10. Only the image that was asked for is reported as installed: a download that ends with
  success was ordered by a logged-in client from an HTTPS address, and the image the boot loader will
  install has the announced length and the SHA-256 that was given. Every other outcome puts the
  siren back into service, and all but one leave what the boot loader will install as it was (the one
  is the finding below).
\<close>

theorem installed_image_verified:
  assumes "updater U staged announced armed" and "handleOtaUrl U J sha env rq (d, u) = (r, d', u')"
    and "\<not> sy_otaInProgress (dv_sys d)"
  shows "(r = Done \<longrightarrow> authed (rq_now rq) (rq_auth rq) (dv_web d) \<and> startsWith (bodyString J rq ''url'') ''https://'' \<and>
      (\<exists>fw. armed u' = Some fw \<and> int (length fw) = oe_size env \<and> hexOf (sha fw) = map toLower (bodyString J rq ''sha256''))) \<and>
    (r \<noteq> Done \<longrightarrow> (\<forall>st code. r \<noteq> Refused st code ''sha256 mismatch'') \<longrightarrow> armed u' = armed u) \<and>
    (sy_otaInProgress (dv_sys d') \<longleftrightarrow> r = Done)"
  using assms(2)
proof (cases rule: handleOtaUrl_cases)
  case refused
  then show ?thesis using assms(3) by simp
next
  case failed
  then show ?thesis by simp
next
  case (tried d1)
  have "r = Done \<or> (\<exists>st code msg. r = Refused st code msg)"
    using tried(1) by (auto simp: otaInstall_def otaFail_simps split: if_split_asm prod.split_asm bool.split_asm)
  then show ?thesis
  proof
    assume r: "r = Done"
    show ?thesis using updater.otaInstall_done [OF assms(1) tried(1) [unfolded r]] otaInstall_progress [OF tried(1,4)] tried(2,3)
      by (simp add: r)
  next
    assume "\<exists>st code msg. r = Refused st code msg"
    then obtain st code msg where r: "r = Refused st code msg" by blast
    show ?thesis using updater.otaInstall_refused [OF assms(1) tried(1) [unfolded r]] otaInstall_progress [OF tried(1,4)]
      by (auto simp: r)
  qed
qed

definition exampleRequest :: "json Request" where
  "exampleRequest = \<lparr>rq_now = 0, rq_auth = replicate 32 CHR ''t'',
     rq_doc = Some (JObj [(''url'', JStr ''https://host/fw.bin''), (''sha256'', JStr (concat (replicate 32 ''03'')))]),
     rq_relay = [], rq_random = []\<rparr>"

definition exampleDevice :: "flash Device" where
  "exampleDevice = \<lparr>dv_sys = initSystem, dv_web = initWeb\<lparr>wu_sessions := [\<lparr>se_token = replicate 32 CHR ''t'', se_expiresAt = 1000\<rparr>]\<rparr>,
     dv_fs = Map.empty\<rparr>"

definition exampleOta :: "u8 list list \<Rightarrow> OtaEnv" where
  "exampleOta cs = \<lparr>oe_begin = True, oe_code = 200, oe_size = int (length (concat cs)), oe_freeSketch = 0x100000, oe_chunks = cs\<rparr>"

definition lengthSum :: "u8 list \<Rightarrow> u8 list" where
  "lengthSum bs = replicate 32 (of_nat (length bs))"

lemma example_authed: "authed (rq_now exampleRequest) (rq_auth exampleRequest) (dv_web exampleDevice)"
  by (simp add: authed_def timeReached_def exampleRequest_def exampleDevice_def initWeb_def)

lemma example_body:
  "rq_doc exampleRequest \<noteq> None" "bodyString jsonOps exampleRequest ''url'' = ''https://host/fw.bin''"
  "bodyString jsonOps exampleRequest ''sha256'' = concat (replicate 32 ''03'')"
  by (simp_all add: bodyString_def exampleRequest_def strOrEmpty_def jsonOps_def)

theorem installed_image_verified_witness:
  "\<exists>d' u'. handleOtaUrl updaterOps jsonOps lengthSum (exampleOta [[7, 8], [9]]) exampleRequest (exampleDevice, initUpdater) = (Done, d', u') \<and>
     (\<exists>fw. ud_armed u' = Some fw \<and> length fw = 3)"
proof -
  obtain r d' u' where h: "handleOtaUrl updaterOps jsonOps lengthSum (exampleOta [[7, 8], [9]]) exampleRequest (exampleDevice, initUpdater) = (r, d', u')"
    by (metis surj_pair)
  have low: "map toLower (concat (replicate 32 ''03'')) = hexOf (lengthSum [7, 8, 9])" by code_simp
  have hex: "isSha256Hex (hexOf (lengthSum [7, 8, 9]))" by code_simp
  have https: "startsWith ''https://host/fw.bin'' ''https://''" by code_simp
  have fit: "\<not> maxSketch 0x100000 < 3" by code_simp
  have "r = Done"
    using h example_authed example_body(1) https hex fit
    by (auto simp: handleOtaUrl_def example_body(2,3) low otaInstall_def exampleOta_def updaterOps_def initUpdater_def otaFail_simps Let_def)
  moreover have "\<not> sy_otaInProgress (dv_sys exampleDevice)" by (simp add: exampleDevice_def initSystem_def)
  ultimately show ?thesis
    using installed_image_verified [OF core_updater.updater_axioms h] h by (auto simp: exampleOta_def)
qed

subsection \<open>Findings\<close>

text \<open>
  A download with the wrong checksum is installed all the same: the image is complete when the
  checksum is compared, and \<open>Update.end()\<close> of a complete image arms it. The client is told
  \<open>VERIFY_FAILED\<close>, and the next restart boots the image.
\<close>

lemma wrong_checksum_still_installs:
  assumes "want \<noteq> hexOf (sha [7, 8, 9])"
  shows "\<exists>d' u'. otaInstall updaterOps sha (exampleOta [[7, 8], [9]]) rq want (d, initUpdater) =
      (Refused 422 ''VERIFY_FAILED'' ''sha256 mismatch'', d', u') \<and> ud_armed u' = Some [7, 8, 9]"
proof -
  let ?env = "exampleOta [[7, 8], [9]]"
  define u1 where "u1 = initUpdater\<lparr>ud_staged := Some [], ud_size := 3\<rparr>"
  obtain r d' u' where i: "otaInstall updaterOps sha ?env rq want (d, initUpdater) = (r, d', u')" by (metis surj_pair)
  have "up_begin updaterOps (nat (oe_size ?env)) initUpdater = (True, u1)" "0 < oe_size ?env"
    "download updaterOps (nat (oe_size ?env)) [] (oe_chunks ?env) u1 = (0, [7, 8, 9], u1\<lparr>ud_staged := Some [7, 8, 9]\<rparr>)"
    "\<not> up_hasError updaterOps (u1\<lparr>ud_staged := Some [7, 8, 9]\<rparr>)"
    by (simp_all add: exampleOta_def updaterOps_def u1_def Let_def)
  moreover have "(word_of_int (oe_size ?env) :: u32) \<le> maxSketch (oe_freeSketch ?env)"
  proof -
    have "(3 :: u32) \<le> maxSketch 0x100000" by code_simp
    then show ?thesis by (simp add: exampleOta_def)
  qed
  ultimately show ?thesis using core_updater.wrong_checksum_armed [OF _ _ _ _ _ assms i] i by auto
qed

text \<open>
  An upload that is aborted ends the same way for everyone, logged in or not: the relay is forced
  off. So an unauthenticated client of the LAN can cut off a siren that is sounding.
\<close>

lemma aborted_upload_needs_no_login:
  assumes "\<not> authed (rq_now rq) (rq_auth rq) (dv_web d)"
  shows "\<exists>d1 u1. handleOtaUpload U free rq UploadStart (d, u) = (Some (Refused 401 ''UNAUTHORIZED'' ''login required''), d1, u1) \<and>
    sy_relay (dv_sys (fst (snd (handleOtaUpload U free rq UploadAborted (d1, u1))))) = forceOff ''ota'' (sy_relay (dv_sys d)) \<and>
    \<not> rc_on (sy_relay (dv_sys (fst (snd (handleOtaUpload U free rq UploadAborted (d1, u1))))))"
proof -
  have "\<not> rc_on (forceOff why r)" for why r
    by (simp add: forceOff_def Let_def)
  then show ?thesis using assms
    by (simp add: handleOtaUpload_def uploadStart_def uploadAborted_def otaFlags_def finishFailedOta_def logEvent_def)
qed

end
