(* ===== verification/WebRoutes.thy ===== *)
theory WebRoutes
  imports WebStatus WebOta
begin

text \<open>
  The routing table of \<open>WebUi::begin\<close>: which handler serves which endpoint, and the pages that
  are served as they are. A request meets the environment of its moment (\<open>WebEnv\<close>): the file
  system, the libraries, what the board reports.
\<close>

datatype Endpoint =
    EpPage string | EpCaptive | EpScan | EpSetup | EpWifiForget
  | EpOtaUpload UploadEvent | EpOtaUploadDone | EpOtaUrl
  | EpLogin | EpStatus | EpConfigGet | EpConfigPut | EpLocationsPut | EpTokenPut | EpApiUrlPut | EpEvents | EpSystem
  | EpMute | EpUnmute | EpTestRelay | EpTestPattern | EpRelayOff | EpReboot | EpUnknown

record ('f, 'j, 'u) WebEnv =
  we_fs :: "('f, 'j) FsOps"
  we_json :: "'j JsonOps"
  we_sha :: "string \<Rightarrow> u8 list"
  we_hash :: "u8 list \<Rightarrow> u8 list"
  we_upd :: "'u UpdOps"
  we_ota :: OtaEnv
  we_board :: BoardInfo
  we_networks :: "(string \<times> int \<times> bool) list"
  we_log :: EventLogStore
  we_files :: "string \<Rightarrow> string option"
  we_page :: "string \<Rightarrow> string"
  we_softApIp :: string

definition onDevice :: "('f Device \<Rightarrow> 'j Response \<times> 'f Device) \<Rightarrow> 'f Device \<times> 'u \<Rightarrow> 'j Response option \<times> 'f Device \<times> 'u" where
  "onDevice h du = (case du of (d, u) \<Rightarrow> case h d of (r, d) \<Rightarrow> (Some r, d, u))"

fun serve :: "('f, 'j, 'u) WebEnv \<Rightarrow> 'j Request \<Rightarrow> Endpoint \<Rightarrow> 'f Device \<times> 'u \<Rightarrow> 'j Response option \<times> 'f Device \<times> 'u" where
  "serve E rq (EpPage name) = onDevice (\<lambda>d. (RawText (we_page E name), d))"
| "serve E rq EpCaptive = onDevice (handleCaptive (we_softApIp E))"
| "serve E rq EpScan = onDevice (handleScan (we_json E) (we_networks E) rq)"
| "serve E rq EpSetup = onDevice (handleSetup (we_fs E) (we_json E) (we_sha E) rq)"
| "serve E rq EpWifiForget = onDevice (handleWifiForget (we_fs E) (we_json E) rq)"
| "serve E rq (EpOtaUpload ev) = handleOtaUpload (we_upd E) (oe_freeSketch (we_ota E)) rq ev"
| "serve E rq EpOtaUploadDone = uploadDone (we_upd E) rq"
| "serve E rq EpOtaUrl = (\<lambda>du. case handleOtaUrl (we_upd E) (we_json E) (we_hash E) (we_ota E) rq du of (r, du) \<Rightarrow> (Some r, du))"
| "serve E rq EpLogin = onDevice (handleLoginRequest (we_json E) (we_sha E) rq)"
| "serve E rq EpStatus = onDevice (handleStatus (we_json E) (we_board E) rq)"
| "serve E rq EpConfigGet = onDevice (handleConfigGet (we_json E) rq)"
| "serve E rq EpConfigPut = onDevice (handleConfigPut (we_fs E) (we_json E) rq)"
| "serve E rq EpLocationsPut = onDevice (handleLocationsPut (we_fs E) (we_json E) rq)"
| "serve E rq EpTokenPut = onDevice (handleTokenPut (we_fs E) (we_json E) rq)"
| "serve E rq EpApiUrlPut = onDevice (handleApiUrlPut (we_fs E) (we_json E) rq)"
| "serve E rq EpEvents = onDevice (handleEvents (we_log E) (we_files E) rq)"
| "serve E rq EpSystem = onDevice (handleSystem (we_json E) (we_board E) rq)"
| "serve E rq EpMute = onDevice (handleMute rq)"
| "serve E rq EpUnmute = onDevice (handleUnmute rq)"
| "serve E rq EpTestRelay = onDevice (handleTestRelay rq)"
| "serve E rq EpTestPattern = onDevice (handleTestPattern (we_json E) rq)"
| "serve E rq EpRelayOff = onDevice (handleRelayOff rq)"
| "serve E rq EpReboot = onDevice (handleReboot rq)"
| "serve E rq EpUnknown = onDevice (\<lambda>d. (Refused 404 ''NOT_FOUND'' ''unknown endpoint'', d))"

lemmas handler_defs = withAuth_def handleConfigGet_def handleConfigPut_def handleLocationsPut_def handleTokenPut_def
  handleApiUrlPut_def handleWifiForget_def handleMute_def handleUnmute_def handleTestRelay_def handleTestPattern_def
  handleRelayOff_def handleReboot_def handleStatus_def handleEvents_def handleSystem_def

subsection \<open>Clients without a login\<close>

text \<open>
  A request of a stranger: without the token of a valid session, not an attempt to log in, not a
  setup with the key of the portal, and not the end of an aborted upload.
\<close>

definition stranger :: "('f, 'j, 'u) WebEnv \<times> 'j Request \<times> Endpoint \<Rightarrow> 'f Device \<Rightarrow> bool" where
  "stranger c d = (case c of (E, rq, ep) \<Rightarrow>
     \<not> authed (rq_now rq) (rq_auth rq) (dv_web d) \<and> ep \<noteq> EpLogin \<and> ep \<noteq> EpOtaUpload UploadAborted \<and>
     (ep = EpSetup \<longrightarrow> \<not> setupAuthorized (we_json E) rq d))"

definition noUpload :: "'f Device \<Rightarrow> bool" where
  "noUpload d \<longleftrightarrow> \<not> wu_otaAuthorized (dv_web d) \<and> \<not> wu_otaStarted (dv_web d)"

text \<open>Two devices that differ in the flags of an upload at most.\<close>

definition untouched :: "'f Device \<Rightarrow> 'f Device \<Rightarrow> bool" where
  "untouched d d' \<longleftrightarrow> dv_sys d' = dv_sys d \<and> dv_fs d' = dv_fs d \<and> wu_sessions (dv_web d') = wu_sessions (dv_web d) \<and>
     wu_rebootAt (dv_web d') = wu_rebootAt (dv_web d) \<and> wu_lockUntil (dv_web d') = wu_lockUntil (dv_web d) \<and>
     wu_loginFails (dv_web d') = wu_loginFails (dv_web d)"

lemma untouched_refl [simp]: "untouched d d"
  by (simp add: untouched_def)

lemma stranger_cong: "untouched d d' \<Longrightarrow> stranger c d' = stranger c d"
  by (simp add: stranger_def untouched_def authed_def setupAuthorized_def split: prod.split)

lemma stranger_upload:
  assumes "\<not> authed (rq_now rq) (rq_auth rq) (dv_web d)" "noUpload d" "ev \<noteq> UploadAborted"
    "handleOtaUpload U free rq ev (d, u) = (r, d', u')"
  shows "untouched d d' \<and> noUpload d' \<and> u' = u"
  using assms
  by (cases ev) (auto simp: handleOtaUpload_def uploadStart_def uploadWrite_def uploadEnd_def otaFlags_def noUpload_def untouched_def Let_def)

lemma stranger_refused:
  assumes "stranger (E, rq, ep) d" "noUpload d" "serve E rq ep (d, u) = (r, d', u')"
  shows "untouched d d' \<and> noUpload d' \<and> u' = u"
proof (cases "\<exists>ev. ep = EpOtaUpload ev")
  case True
  then show ?thesis using assms stranger_upload by (fastforce simp: stranger_def)
next
  case False
  have no: "\<not> authed (rq_now rq) (rq_auth rq) (dv_web d)" using assms(1) by (simp add: stranger_def)
  have "d' = d \<and> u' = u"
    using assms False by (cases ep) (auto simp: stranger_def onDevice_def handler_defs no handleCaptive_def handleScan_def
        handleSetup_def handleOtaUrl_def uploadDone_def noUpload_def Let_def split: if_split_asm)
  then show ?thesis using assms(2) by simp
qed

fun serveAll :: "(('f, 'j, 'u) WebEnv \<times> 'j Request \<times> Endpoint) list \<Rightarrow> 'f Device \<times> 'u \<Rightarrow> 'f Device \<times> 'u" where
  "serveAll [] du = du"
| "serveAll ((E, rq, ep) # cs) du = serveAll cs (snd (serve E rq ep du))"


definition exampleWebEnv :: "(flash, json, Updater) WebEnv" where
  "exampleWebEnv = \<lparr>we_fs = flashOps 0, we_json = jsonOps, we_sha = (\<lambda>_. []), we_hash = lengthSum, we_upd = updaterOps,
     we_ota = exampleOta [], we_board = \<lparr>bi_firmware = [], bi_build = [], bi_core = [], bi_resetReason = [], bi_heapFree = 0,
       bi_heapMaxBlock = 0, bi_heapFrag = 0, bi_flashSize = 0, bi_sketchSize = 0, bi_sketchFree = 0, bi_fsInfo = None,
       bi_ip = [], bi_rssi = 0, bi_connected = True\<rparr>,
     we_networks = [], we_log = initLog, we_files = (\<lambda>_. None), we_page = (\<lambda>_. []), we_softApIp = []\<rparr>"


subsection \<open>Secrets stay on the device\<close>

text \<open>
  Two states of the device that differ in the secrets only: in their store, in the API client and
  in the radio, but not in the URL of the API and in whether there is a token.
\<close>

definition sameButSecrets :: "System \<Rightarrow> System \<Rightarrow> bool" where
  "sameButSecrets s t \<longleftrightarrow> t = s\<lparr>sy_secrets := sy_secrets t, sy_client := sy_client t, sy_wifi := sy_wifi t\<rparr> \<and>
     ss_mockUrl (sy_secrets t) = ss_mockUrl (sy_secrets s) \<and> (ss_apiToken (sy_secrets t) = [] \<longleftrightarrow> ss_apiToken (sy_secrets s) = []) \<and>
     wf_state (sy_wifi t) = wf_state (sy_wifi s)"

lemma status_sameButSecrets:
  assumes "ss_mockUrl sec = ss_mockUrl (sy_secrets s)" "ss_apiToken sec = [] \<longleftrightarrow> ss_apiToken (sy_secrets s) = []"
    "wf_state wif = wf_state (sy_wifi s)"
  shows "apiStatus J now (s\<lparr>sy_secrets := sec, sy_client := cl, sy_wifi := wif\<rparr>) = apiStatus J now s"
    and "alertsStatus J (s\<lparr>sy_secrets := sec, sy_client := cl, sy_wifi := wif\<rparr>) = alertsStatus J s"
proof -
  have "typeStatus J (s\<lparr>sy_secrets := sec, sy_client := cl, sy_wifi := wif\<rparr>) = typeStatus J s"
    by (rule ext) (simp add: typeStatus_def)
  then show "alertsStatus J (s\<lparr>sy_secrets := sec, sy_client := cl, sy_wifi := wif\<rparr>) = alertsStatus J s"
    by (simp add: alertsStatus_def activeTypes_def)
  show "apiStatus J now (s\<lparr>sy_secrets := sec, sy_client := cl, sy_wifi := wif\<rparr>) = apiStatus J now s"
    using assms by (simp add: apiStatus_def waitingReason_def wifi_online_def)
qed



end
