(* ===== verification/WebSettings.thy ===== *)
theory WebSettings
  imports WebRoutes
begin

text \<open>
  Changing the settings through the web interface: what the device runs with and what the flash
  would give it after a restart stay the same, whether a request succeeds or fails.
\<close>

text \<open>The current documents are in the files themselves, not in the backups.\<close>

definition filesCurrent :: "('f, 'j) FsOps \<Rightarrow> 'f \<Rightarrow> bool" where
  "filesCurrent F f \<longleftrightarrow> readOne F f kConfigPath = readWithBackup F f kConfigPath kConfigBackup \<and>
     readOne F f kSecretsPath = readWithBackup F f kSecretsPath kSecretsBackup"

text \<open>A restart would load what the device runs with.\<close>

definition stored :: "('f, 'j) FsOps \<Rightarrow> 'j JsonOps \<Rightarrow> 'f Device \<Rightarrow> bool" where
  "stored F J d \<longleftrightarrow>
     (\<exists>c. store_load F J (dv_fs d) defaultConfig = (True, c) \<and> sameConfig (sy_cfg (dv_sys d)) c) \<and>
     secrets_load F J (dv_fs d) emptySecrets = (True, sy_secrets (dv_sys d))"

subsection \<open>The two saves\<close>

lemma paths_apart:
  "kSecretsPath \<notin> {kConfigPath, kConfigTmp, kConfigBackup}" "kSecretsBackup \<notin> {kConfigPath, kConfigTmp, kConfigBackup}"
  "kConfigPath \<notin> {kSecretsPath, kSecretsTmp, kSecretsBackup}" "kConfigBackup \<notin> {kSecretsPath, kSecretsTmp, kSecretsBackup}"
  by (simp_all add: kConfigPath_def kConfigTmp_def kConfigBackup_def kSecretsPath_def kSecretsTmp_def kSecretsBackup_def)

lemma readWithBackup_cong:
  "fs_read F g p = fs_read F f p \<Longrightarrow> fs_read F g b = fs_read F f b \<Longrightarrow> readWithBackup F g p b = readWithBackup F f p b"
  by (simp add: readWithBackup_if readOne_def)

lemma saveConfig_effect:
  assumes "littlefs F" "json_library J" "configWf c" "filesCurrent F (dv_fs d)" "saveConfig F J c d = (ok, d1)"
  shows "dv_sys d1 = dv_sys d \<and> dv_web d1 = dv_web d \<and>
    secrets_load F J (dv_fs d1) emptySecrets = secrets_load F J (dv_fs d) emptySecrets \<and>
    (if ok then \<exists>c'. store_load F J (dv_fs d1) defaultConfig = (True, c') \<and> sameConfig c c'
     else store_load F J (dv_fs d1) defaultConfig = store_load F J (dv_fs d) defaultConfig)"
proof -
  obtain tr where st: "store_save F J c (dv_fs d) = (ok, tr)" "d1 = d\<lparr>dv_fs := last (dv_fs d # tr)\<rparr>"
    using assms(5) by (auto simp: saveConfig_def split: prod.split_asm)
  have w: "writeJson F kConfigPath kConfigTmp kConfigBackup (configToJson J c) (dv_fs d) = (ok, tr)"
    using assms(3) st(1) by (simp add: store_save_def configWf_def)
  have cur: "readOne F (dv_fs d) kConfigPath = readWithBackup F (dv_fs d) kConfigPath kConfigBackup"
    using assms(4) by (simp add: filesCurrent_def)
  have fs: "dv_fs d1 = last tr" "last tr \<in> set tr"
    using littlefs.writeJson_reads(2) [OF assms(1) config_paths cur w] st(2) by simp_all
  have other: "fs_read F (last tr) q = fs_read F (dv_fs d) q" if "q \<notin> {kConfigPath, kConfigTmp, kConfigBackup}" for q
    using littlefs.writeJson_other [OF assms(1) w that fs(2)] .
  have "readWithBackup F (last tr) kSecretsPath kSecretsBackup = readWithBackup F (dv_fs d) kSecretsPath kSecretsBackup"
    by (rule readWithBackup_cong) (use other paths_apart in blast)+
  then show ?thesis
    using store_save_loads [OF assms(1,2,3) cur st(1)] fs(1) st(2) secrets_load_cong by auto
qed

lemma saveSecrets_effect:
  assumes "littlefs F" "json_library J" "filesCurrent F (dv_fs d)" "saveSecrets F J s d = (ok, d1)"
  shows "dv_sys d1 = dv_sys d \<and> dv_web d1 = dv_web d \<and>
    store_load F J (dv_fs d1) defaultConfig = store_load F J (dv_fs d) defaultConfig \<and>
    secrets_load F J (dv_fs d1) emptySecrets = (if ok then (True, s) else secrets_load F J (dv_fs d) emptySecrets)"
proof -
  obtain tr where st: "secrets_save F J s (dv_fs d) = (ok, tr)" "d1 = d\<lparr>dv_fs := last (dv_fs d # tr)\<rparr>"
    using assms(4) by (auto simp: saveSecrets_def split: prod.split_asm)
  show ?thesis
  proof (cases "secrets_valid s")
    case True
    have w: "writeJson F kSecretsPath kSecretsTmp kSecretsBackup (secretsToJson J s) (dv_fs d) = (ok, tr)"
      using True st(1) by (simp add: secrets_save_def)
    have cur: "readOne F (dv_fs d) kSecretsPath = readWithBackup F (dv_fs d) kSecretsPath kSecretsBackup"
      using assms(3) by (simp add: filesCurrent_def)
    have fs: "dv_fs d1 = last tr" "last tr \<in> set tr"
      using littlefs.writeJson_reads(2) [OF assms(1) secrets_paths cur w] st(2) by simp_all
    have other: "fs_read F (last tr) q = fs_read F (dv_fs d) q" if "q \<notin> {kSecretsPath, kSecretsTmp, kSecretsBackup}" for q
      using littlefs.writeJson_other [OF assms(1) w that fs(2)] .
    have "readWithBackup F (last tr) kConfigPath kConfigBackup = readWithBackup F (dv_fs d) kConfigPath kConfigBackup"
      by (rule readWithBackup_cong) (use other paths_apart in blast)+
    then show ?thesis
      using secrets_save_loads [OF assms(1,2) cur True st(1)] fs(1) st(2) store_load_cong by auto
  qed (use st in \<open>auto simp: secrets_save_def\<close>)
qed

subsection \<open>The handlers\<close>

lemma adoptConfig_settings [simp]:
  "sy_cfg (adoptConfig now refresh detail c s) = c" "sy_secrets (adoptConfig now refresh detail c s) = sy_secrets s"
  by (simp_all add: adoptConfig_def logEvent_def refreshLocations_def applyConfig_def applyPollInterval_def Let_def)

lemma setApi_settings [simp]:
  "sy_cfg (setApiToken tok now s) = sy_cfg s" "sy_secrets (setApiToken tok now s) = sy_secrets s"
  "sy_cfg (setApiUrl url now s) = sy_cfg s" "sy_secrets (setApiUrl url now s) = sy_secrets s"
  by (simp_all add: setApiToken_def setApiUrl_def applyPollInterval_def Let_def)

lemma logEvent_settings [simp]:
  "sy_cfg (logEvent e x s) = sy_cfg s" "sy_secrets (logEvent e x s) = sy_secrets s"
  by (simp_all add: logEvent_def)

lemma adopted_stored:
  assumes "littlefs F" "json_library J" "configWf c" "filesCurrent F (dv_fs d)" "stored F J d"
    "saveConfig F J c d = (ok, d1)"
  shows "(ok \<longrightarrow> stored F J (onSys (adoptConfig now refresh detail c) d1)) \<and> (\<not> ok \<longrightarrow> stored F J d1) \<and> dv_sys d1 = dv_sys d"
  using saveConfig_effect [OF assms(1-4,6)] assms(5) by (auto simp: stored_def)

lemma secrets_stored:
  assumes "littlefs F" "json_library J" "filesCurrent F (dv_fs d)" "stored F J d" "saveSecrets F J s d = (ok, d1)"
    "\<And>t. sy_secrets (g t) = s \<and> sy_cfg (g t) = sy_cfg t"
  shows "(ok \<longrightarrow> stored F J (onSys g d1)) \<and> (\<not> ok \<longrightarrow> stored F J d1) \<and> dv_sys d1 = dv_sys d"
  using saveSecrets_effect [OF assms(1-3,5)] assms(4,6) by (auto simp: stored_def)

definition settingsHandlers :: "('f, 'j) FsOps \<Rightarrow> 'j JsonOps \<Rightarrow> 'j Request \<Rightarrow> ('f Device \<Rightarrow> 'j Response \<times> 'f Device) set" where
  "settingsHandlers F J rq =
     {handleConfigPut F J rq, handleLocationsPut F J rq, handleTokenPut F J rq, handleApiUrlPut F J rq, handleWifiForget F J rq}"

text \<open>A request about the configuration is refused, or comes down to one save of a document read over the current one.\<close>

definition savesConfig :: "('f, 'j) FsOps \<Rightarrow> 'j JsonOps \<Rightarrow> 'j \<Rightarrow> 'f Device \<Rightarrow> 'j Response \<times> 'f Device \<Rightarrow> bool" where
  "savesConfig F J doc d rd \<longleftrightarrow> (\<exists>new ok d1 now refresh detail.
     configFromJson J doc (sy_cfg (dv_sys d)) = Inr new \<and> saveConfig F J new d = (ok, d1) \<and>
     (fst rd = Done \<longleftrightarrow> ok) \<and> snd rd = (if ok then onSys (adoptConfig now refresh detail new) d1 else d1))"

lemma savesConfig_intro:
  assumes "configFromJson J doc (sy_cfg (dv_sys d)) = Inr new" "saveConfig F J new d = (ok, d1)"
  shows "savesConfig F J doc d (if ok then (Done, onSys (adoptConfig now refresh detail new) d1) else (Refused n a b, d1))"
  using assms unfolding savesConfig_def by (cases ok) (auto intro!: exI)

lemma handleConfigPut_cases:
  "(fst (handleConfigPut F J rq d) \<noteq> Done \<and> snd (handleConfigPut F J rq d) = d) \<or>
   (\<exists>doc. rq_doc rq = Some doc \<and> savesConfig F J doc d (handleConfigPut F J rq d))"
proof (cases "authed (rq_now rq) (rq_auth rq) (dv_web d)")
  case auth: True
  show ?thesis
  proof (cases "rq_doc rq")
    case doc: (Some doc)
    show ?thesis
    proof (cases "configFromJson J doc (sy_cfg (dv_sys d))")
      case (Inr new)
      obtain ok d1 where sv: "saveConfig F J new d = (ok, d1)" by fastforce
      note si = savesConfig_intro [OF Inr sv, of "rq_now rq" "\<not> sameLocations (sy_cfg (dv_sys d)) new" "''source=web''"
          500 "''FS_ERROR''" "''cannot persist config''"]
      then show ?thesis by (cases ok) (simp_all add: handleConfigPut_def withAuth_def auth doc Inr sv)
    qed (simp add: handleConfigPut_def withAuth_def auth doc)
  qed (simp add: handleConfigPut_def withAuth_def auth)
qed (simp add: handleConfigPut_def withAuth_def)

lemma handleLocationsPut_cases:
  "(fst (handleLocationsPut F J rq d) \<noteq> Done \<and> snd (handleLocationsPut F J rq d) = d) \<or>
   (\<exists>doc. savesConfig F J doc d (handleLocationsPut F J rq d))"
proof (cases "authed (rq_now rq) (rq_auth rq) (dv_web d)")
  case auth: True
  show ?thesis
  proof (cases "rq_doc rq")
    case doc: (Some doc)
    define wrap where "wrap = js_mkObj J [(''locations'', js_member J doc ''locations'')]"
    show ?thesis
    proof (cases "configFromJson J wrap (sy_cfg (dv_sys d))")
      case (Inr new)
      obtain ok d1 where sv: "saveConfig F J new d = (ok, d1)" by fastforce
      note si = savesConfig_intro [OF Inr sv, of "rq_now rq" True "''locations''" 500 "''FS_ERROR''" "''cannot persist locations''"]
      then show ?thesis
        by (cases ok) (auto simp: handleLocationsPut_def withAuth_def auth doc Inr sv Let_def wrap_def [symmetric])
    qed (simp add: handleLocationsPut_def withAuth_def auth doc Let_def wrap_def [symmetric])
  qed (simp add: handleLocationsPut_def withAuth_def auth)
qed (simp add: handleLocationsPut_def withAuth_def)

lemma savesConfig_stored:
  assumes "littlefs F" "json_library J" "configWf (sy_cfg (dv_sys d))" "filesCurrent F (dv_fs d)" "stored F J d"
    and "savesConfig F J doc d (r, d')"
  shows "stored F J d' \<and> configWf (sy_cfg (dv_sys d')) \<and> (r \<noteq> Done \<longrightarrow> dv_sys d' = dv_sys d) \<and>
    (r = Done \<longrightarrow> configFromJson J doc (sy_cfg (dv_sys d)) = Inr (sy_cfg (dv_sys d')))"
proof -
  obtain new ok d1 now refresh detail where
    new: "configFromJson J doc (sy_cfg (dv_sys d)) = Inr new" and sv: "saveConfig F J new d = (ok, d1)" and
    r: "r = Done \<longleftrightarrow> ok" "d' = (if ok then onSys (adoptConfig now refresh detail new) d1 else d1)"
    using assms(6) by (auto simp: savesConfig_def)
  have wf: "configWf new" using config_read_wf [OF _ new] assms(3) by (simp add: configWf_def)
  show ?thesis
    using adopted_stored [OF assms(1,2) wf assms(4,5) sv, of now refresh detail] wf assms(3) new r by simp
qed

text \<open>Likewise for the secrets.\<close>

definition savesSecrets :: "('f, 'j) FsOps \<Rightarrow> 'j JsonOps \<Rightarrow> 'f Device \<Rightarrow> 'j Response \<times> 'f Device \<Rightarrow> bool" where
  "savesSecrets F J d rd \<longleftrightarrow> (\<exists>new ok d1 g. saveSecrets F J new d = (ok, d1) \<and>
     (\<forall>t. sy_secrets (g t) = new \<and> sy_cfg (g t) = sy_cfg t) \<and>
     (fst rd = Done \<longleftrightarrow> ok) \<and> snd rd = (if ok then onSys g d1 else d1))"

lemma savesSecrets_intro:
  assumes "saveSecrets F J new d = (ok, d1)" "\<And>t. sy_secrets (g t) = new \<and> sy_cfg (g t) = sy_cfg t"
  shows "savesSecrets F J d (if ok then (Done, onSys g d1) else (Refused n a b, d1))"
  using assms unfolding savesSecrets_def by (cases ok) (auto intro!: exI [of _ g])

lemma handleTokenPut_cases:
  "(fst (handleTokenPut F J rq d) \<noteq> Done \<and> snd (handleTokenPut F J rq d) = d) \<or> savesSecrets F J d (handleTokenPut F J rq d)"
proof -
  define tok where "tok = bodyString J rq ''token''"
  obtain ok d1 where sv: "saveSecrets F J ((sy_secrets (dv_sys d))\<lparr>ss_apiToken := tok\<rparr>) d = (ok, d1)" by fastforce
  have "savesSecrets F J d (if ok then (Done, onSys (\<lambda>s. logEvent LogConfigChanged (Some ''api_token'')
      (setApiToken tok (rq_now rq) (s\<lparr>sy_secrets := (sy_secrets (dv_sys d))\<lparr>ss_apiToken := tok\<rparr>\<rparr>))) d1)
    else (Refused 500 ''FS_ERROR'' ''cannot persist API token'', d1))"
    by (rule savesSecrets_intro [OF sv]) simp
  then show ?thesis by (cases ok) (auto simp: handleTokenPut_def withAuth_def Let_def tok_def [symmetric] sv)
qed

lemma handleApiUrlPut_cases:
  "(fst (handleApiUrlPut F J rq d) \<noteq> Done \<and> snd (handleApiUrlPut F J rq d) = d) \<or> savesSecrets F J d (handleApiUrlPut F J rq d)"
proof -
  define url where "url = trim (bodyString J rq ''url'')"
  obtain ok d1 where sv: "saveSecrets F J ((sy_secrets (dv_sys d))\<lparr>ss_mockUrl := url\<rparr>) d = (ok, d1)" by fastforce
  have "savesSecrets F J d (if ok then (Done, onSys (\<lambda>s. logEvent LogConfigChanged (Some ''api_url'')
      (setApiUrl url (rq_now rq) (s\<lparr>sy_secrets := (sy_secrets (dv_sys d))\<lparr>ss_mockUrl := url\<rparr>\<rparr>))) d1)
    else (Refused 500 ''FS_ERROR'' ''cannot persist API url'', d1))"
    by (rule savesSecrets_intro [OF sv]) simp
  then show ?thesis by (cases ok) (auto simp: handleApiUrlPut_def withAuth_def Let_def url_def [symmetric] sv)
qed

lemma saveSecrets_frame: "saveSecrets F J new d = (ok, d1) \<Longrightarrow> dv_sys d1 = dv_sys d"
  by (auto simp: saveSecrets_def split: prod.split_asm)

lemma handleWifiForget_cases:
  "(fst (handleWifiForget F J rq d) \<noteq> Done \<and> snd (handleWifiForget F J rq d) = d) \<or> savesSecrets F J d (handleWifiForget F J rq d)"
proof -
  define sec where "sec = sy_secrets (dv_sys d)"
  define new where "new = sec\<lparr>ss_wifiSsid := [], ss_wifiPass := []\<rparr>"
  obtain ok d1 where sv: "saveSecrets F J new d = (ok, d1)" by fastforce
  have sys: "dv_sys d1 = dv_sys d" by (rule saveSecrets_frame [OF sv])
  define w where "w = (sy_wifi (dv_sys d))\<lparr>wf_provisionAt := rq_now rq + 500\<rparr>"
  have "savesSecrets F J d (if ok then (Done, onSys (\<lambda>s. logEvent LogConfigChanged (Some ''wifi_forget'')
      (s\<lparr>sy_secrets := new, sy_wifi := w\<rparr>)) d1) else (Refused 500 ''FS_ERROR'' ''cannot clear Wi-Fi credentials'', d1))"
    by (rule savesSecrets_intro [OF sv]) simp
  moreover have same: "d1\<lparr>dv_sys := (dv_sys d)\<lparr>sy_secrets := sec\<rparr>\<rparr> = d1"
    using sys [symmetric] by (simp add: sec_def)
  ultimately show ?thesis
    by (cases ok) (auto simp: same handleWifiForget_def forgetWifi_def withAuth_def Let_def sec_def [symmetric] new_def [symmetric] sv wifi_forget_def
        sys w_def onSys_def)
qed

lemma savesSecrets_stored:
  assumes "littlefs F" "json_library J" "filesCurrent F (dv_fs d)" "stored F J d" and "savesSecrets F J d (r, d')"
  shows "stored F J d' \<and> sy_cfg (dv_sys d') = sy_cfg (dv_sys d) \<and> (r \<noteq> Done \<longrightarrow> dv_sys d' = dv_sys d)"
proof -
  obtain new ok d1 g where sv: "saveSecrets F J new d = (ok, d1)" and g: "\<And>t. sy_secrets (g t) = new \<and> sy_cfg (g t) = sy_cfg t"
    and r: "r = Done \<longleftrightarrow> ok" "d' = (if ok then onSys g d1 else d1)"
    using assms(5) by (auto simp: savesSecrets_def)
  show ?thesis using secrets_stored [OF assms(1-4) sv g] g r by simp
qed

lemma config_result:
  assumes "littlefs F" "json_library J" "configWf (sy_cfg (dv_sys d))" "filesCurrent F (dv_fs d)" "stored F J d"
    and "(r \<noteq> Done \<and> d' = d) \<or> savesConfig F J doc d (r, d')"
  shows "stored F J d' \<and> configWf (sy_cfg (dv_sys d')) \<and> (r \<noteq> Done \<longrightarrow> dv_sys d' = dv_sys d)"
  using assms(6) savesConfig_stored [OF assms(1-5)] assms(3,5) by blast

lemma secrets_result:
  assumes "littlefs F" "json_library J" "configWf (sy_cfg (dv_sys d))" "filesCurrent F (dv_fs d)" "stored F J d"
    and "(r \<noteq> Done \<and> d' = d) \<or> savesSecrets F J d (r, d')"
  shows "stored F J d' \<and> configWf (sy_cfg (dv_sys d')) \<and> (r \<noteq> Done \<longrightarrow> dv_sys d' = dv_sys d)"
  using assms(6)
proof
  assume "savesSecrets F J d (r, d')"
  then show ?thesis using savesSecrets_stored [OF assms(1,2,4,5)] assms(3) by simp
qed (use assms(3,5) in simp)


text \<open>A device with both files on its flash, and a client that sets a token.\<close>

definition storedFlash :: flash where
  "storedFlash = [kConfigPath \<mapsto> js_serialize (flashOps 0) (configToJson jsonOps defaultConfig),
     kSecretsPath \<mapsto> js_serialize (flashOps 0) (secretsToJson jsonOps emptySecrets)]"

definition storedDevice :: "flash Device" where
  "storedDevice = exampleDevice\<lparr>dv_fs := storedFlash\<rparr>"

definition tokenRequest :: "json Request" where
  "tokenRequest = exampleRequest\<lparr>rq_doc := Some (JObj [(''token'', JStr ''0123456789'')])\<rparr>"

lemma flash_serialize: "js_serialize (flashOps cap) = js_serialize (flashOps 0)"
  by (simp add: flashOps_def)

lemma storedFlash_read:
  "readOne (flashOps cap) storedFlash kConfigPath = Some (configToJson jsonOps defaultConfig)"
  "readOne (flashOps cap) storedFlash kSecretsPath = Some (secretsToJson jsonOps emptySecrets)"
proof -
  have "kConfigPath \<noteq> kSecretsPath" using paths_apart by blast
  then have "fs_read (flashOps cap) storedFlash kConfigPath = Some (js_serialize (flashOps cap) (configToJson jsonOps defaultConfig))"
    "fs_read (flashOps cap) storedFlash kSecretsPath = Some (js_serialize (flashOps cap) (secretsToJson jsonOps emptySecrets))"
    by (simp_all add: storedFlash_def flash_serialize [of cap]) (simp_all add: flashOps_def)
  then show "readOne (flashOps cap) storedFlash kConfigPath = Some (configToJson jsonOps defaultConfig)"
    "readOne (flashOps cap) storedFlash kSecretsPath = Some (secretsToJson jsonOps emptySecrets)"
    by (simp_all add: readOne_def flash_parse)
qed

lemma storedFlash_current: "filesCurrent (flashOps cap) storedFlash"
  by (simp add: filesCurrent_def readWithBackup_if storedFlash_read)

lemma storedDevice_stored: "stored (flashOps cap) jsonOps storedDevice"
proof -
  have "\<exists>c. store_load (flashOps cap) jsonOps storedFlash defaultConfig = (True, c) \<and> sameConfig defaultConfig c"
    by (rule store_load_new [OF json_values.json_library_axioms defaultConfig_wf]) (simp add: readWithBackup_if storedFlash_read)
  moreover have "secrets_valid emptySecrets" by (simp add: secrets_valid_def emptySecrets_def)
  ultimately show ?thesis
    by (simp add: stored_def storedDevice_def exampleDevice_def initSystem_def secrets_load_def readWithBackup_if storedFlash_read
        json_values.secrets_back)
qed

lemma stored_write:
  "fst (writeJson (flashOps (to_nat d)) kSecretsPath kSecretsTmp kSecretsBackup d f)"
  by (auto simp: writeJson_def replaceFile_def swapIn_def readOne_def flashOps_def Let_def last_map
      kSecretsPath_def kSecretsTmp_def kSecretsBackup_def)


end
