(* ===== verification/SystemLaws.thy ===== *)
theory SystemLaws
  imports System
begin

text \<open>
  What holds of the components together: the notification engine knows which types are
  active, a failed poll changes nothing that sounds, and a snapshot is always that of one complete response.
\<close>

subsection \<open>Two views of the active types\<close>

definition inSync :: "AlertEngine \<Rightarrow> NotificationEngine \<Rightarrow> bool" where
  "inSync e n \<longleftrightarrow> (\<forall>t. typeInMask (ne_activeMask n) t \<longleftrightarrow> ts_state (ae_types e t) = Active)"

lemma logEvent_frame [simp]:
  "sy_engine (logEvent e d s) = sy_engine s" "sy_notify (logEvent e d s) = sy_notify s"
  "sy_relay (logEvent e d s) = sy_relay s" "sy_view (logEvent e d s) = sy_view s"
  "sy_preexisting (logEvent e d s) = sy_preexisting s" "sy_builder (logEvent e d s) = sy_builder s"
  "sy_client (logEvent e d s) = sy_client s" "sy_cfg (logEvent e d s) = sy_cfg s"
  "sy_health (logEvent e d s) = sy_health s" "sy_backoff (logEvent e d s) = sy_backoff s"
  "sy_auth401Streak (logEvent e d s) = sy_auth401Streak s" "sy_otaInProgress (logEvent e d s) = sy_otaInProgress s"
  by (simp_all add: logEvent_def)

lemma logAlert_frame [simp]:
  "sy_engine (logAlert ev s) = sy_engine s" "sy_notify (logAlert ev s) = sy_notify s"
  "sy_relay (logAlert ev s) = sy_relay s" "sy_cfg (logAlert ev s) = sy_cfg s"
  "sy_builder (logAlert ev s) = sy_builder s" "sy_client (logAlert ev s) = sy_client s"
  by (simp_all add: logAlert_def split: AlertEvent.split)

lemma announce_frame [simp]:
  "sy_engine (announce now evs ev s) = sy_engine s" "sy_relay (announce now evs ev s) = sy_relay s"
  "sy_cfg (announce now evs ev s) = sy_cfg s" "sy_builder (announce now evs ev s) = sy_builder s"
  "sy_client (announce now evs ev s) = sy_client s"
  by (simp_all add: announce_def Let_def split: prod.split)

lemma announce_notify:
  "\<exists>mode. sy_notify (announce now evs ev s) = onEngineEvent ev mode now (sy_notify s)"
  by (auto simp: announce_def Let_def split: prod.split)

lemma announce_fold_frame [simp]:
  "sy_engine (fold (announce now evs) xs s) = sy_engine s" "sy_relay (fold (announce now evs) xs s) = sy_relay s"
  "sy_cfg (fold (announce now evs) xs s) = sy_cfg s" "sy_builder (fold (announce now evs) xs s) = sy_builder s"
  "sy_client (fold (announce now evs) xs s) = sy_client s"
  by (induction xs arbitrary: s) simp_all

text \<open>What a list of events does to the mask of one type: the last start or end counts.\<close>

fun maskAfter :: "AlertType \<Rightarrow> EngineEvent list \<Rightarrow> bool \<Rightarrow> bool" where
  "maskAfter t [] b = b"
| "maskAfter t (ev # evs) b = maskAfter t evs
     (if ee_type ev = t \<and> ee_kind ev = Started then True else if ee_type ev = t \<and> ee_kind ev = Ended then False else b)"

lemma announce_mask:
  "typeInMask (ne_activeMask (sy_notify (fold (announce now evs) xs s))) t =
   maskAfter t xs (typeInMask (ne_activeMask (sy_notify s)) t)"
proof (induction xs arbitrary: s)
  case (Cons ev xs)
  obtain mode where m: "sy_notify (announce now evs ev s) = onEngineEvent ev mode now (sy_notify s)"
    using announce_notify by blast
  show ?case using Cons.IH [of "announce now evs ev s"] by (simp add: m onEngineEvent_mask)
qed simp

lemma maskAfter_append: "maskAfter t (xs @ ys) b = maskAfter t ys (maskAfter t xs b)"
  by (induction xs arbitrary: b) simp_all

lemma maskAfter_other: "\<forall>ev\<in>set xs. ee_type ev \<noteq> t \<Longrightarrow> maskAfter t xs b = b"
  by (induction xs) simp_all

lemma maskAfter_types:
  assumes "distinct tys"
  shows "maskAfter t (concat (map (eventsOf cfg snap types) tys)) b =
    (if t \<in> set tys then maskAfter t (eventsOf cfg snap types t) b else b)"
  using assms
proof (induction tys arbitrary: b)
  case (Cons ty tys)
  have "ty \<noteq> t \<Longrightarrow> maskAfter t (eventsOf cfg snap types ty) b = b" for b
    by (rule maskAfter_other) (auto simp: eventsOf_def)
  then show ?case using Cons by (cases "ty = t") (simp_all add: maskAfter_append)
qed simp

lemma maskAfter_type:
  "maskAfter t (eventsOf cfg snap types t) (ts_state (types t) = Active) =
   (ts_state (fst (applyType cfg (snap t) (types t))) = Active)"
  by (auto simp: eventsOf_def applyType_def Let_def initStatus_def)

lemma applyAndNotify_sync:
  assumes "inSync (sy_engine s) (sy_notify s)"
    and "length (concat (map (eventsOf (ae_cfg (sy_engine s)) snap (ae_types (sy_engine s))) allTypes)) \<le> 8"
  shows "inSync (sy_engine (applyAndNotify now snap s)) (sy_notify (applyAndNotify now snap s))"
proof -
  define e where "e = sy_engine s"
  have evs: "fst (applySnapshot snap 8 e) = concat (map (eventsOf (ae_cfg e) snap (ae_types e)) allTypes)"
    using assms(2) by (simp add: applySnapshot_events e_def)
  have "maskAfter t (fst (applySnapshot snap 8 e)) (typeInMask (ne_activeMask (sy_notify s)) t) =
      (ts_state (ae_types (snd (applySnapshot snap 8 e)) t) = Active)" for t
    using assms(1) maskAfter_types [OF distinct_allTypes, of t "ae_cfg e" snap "ae_types e"]
    by (simp add: evs inSync_def e_def [symmetric] applySnapshot_types maskAfter_type)
  then show ?thesis
    by (simp add: applyAndNotify_def Let_def split_beta e_def inSync_def announce_mask)
qed

subsection \<open>Reachable systems\<close>

text \<open>
  The snapshot of a complete response for a selection, and the system's steps: whatever the web
  interface, the console, the buttons and the timers do, in any order. \<open>H\<close> lists the complete
  responses received so far. With \<open>small\<close>, every snapshot that was applied caused at most the
  eight events that \<open>applyAndNotify\<close> has room for.
\<close>

definition responseSnapshot :: "'j JsonOps \<Rightarrow> Catalog option \<Rightarrow> Location list \<Rightarrow> 'j list \<Rightarrow> Snapshot" where
  "responseSnapshot J cat sel docs = sb_snap (fst (fold (regionToAlerts J) docs
     (builder_reset (initBuilder\<lparr>sb_selected := sel, sb_catalog := cat\<rparr>), initStats)))"

definition eventsFit :: "Snapshot \<Rightarrow> AlertEngine \<Rightarrow> bool" where
  "eventsFit snap e \<longleftrightarrow> length (concat (map (eventsOf (ae_cfg e) snap (ae_types e)) allTypes)) \<le> 8"

definition pollFits :: "'j JsonOps \<Rightarrow> 'j PollEnv \<Rightarrow> System \<Rightarrow> bool" where
  "pollFits J env s = (case poll J env (sy_client s) (sy_builder s) of None \<Rightarrow> True
     | Some (r, c, b) \<Rightarrow> pr_kind r \<in> {ResOk, ResNotModified} \<longrightarrow> eventsFit (sb_snap b) (sy_engine s))"

definition newDocs :: "'j PollEnv \<Rightarrow> 'j list list" where
  "newDocs env = (if pe_code env = 200
     then (case responseDocs (pe_start env) (pe_body env) of None \<Rightarrow> [] | Some docs \<Rightarrow> [docs]) else [])"

inductive sysReach :: "'j JsonOps \<Rightarrow> bool \<Rightarrow> 'j list list \<Rightarrow> System \<Rightarrow> bool" for J small where
  boot: "validateConfig c = None \<Longrightarrow> sysReach J small [] (applyConfig (initSystem\<lparr>sy_cfg := c\<rparr>))"
| config: "sysReach J small H s \<Longrightarrow> validateConfig c = None \<Longrightarrow> sysReach J small H (applyConfig (s\<lparr>sy_cfg := c\<rparr>))"
| refresh: "sysReach J small H s \<Longrightarrow> sysReach J small H (refreshLocations now s)"
| token: "sysReach J small H s \<Longrightarrow>
    sysReach J small H (s\<lparr>sy_client := client_begin tok (sy_client s), sy_auth401Streak := n, sy_nextPollAt := now\<rparr>)"
| url: "sysReach J small H s \<Longrightarrow>
    sysReach J small H ((applyPollInterval (s\<lparr>sy_client := setMockUrl u (sy_client s)\<rparr>))\<lparr>sy_nextPollAt := now\<rparr>)"
| muted: "sysReach J small H s \<Longrightarrow> sysReach J small H (muteNow longPress now s)"
| unmuted: "sysReach J small H s \<Longrightarrow> sysReach J small H (unmuteNow s)"
| test: "sysReach J small H s \<Longrightarrow> sysReach J small H (s\<lparr>sy_notify := playTest p (sy_notify s)\<rparr>)"
| testRelay: "sysReach J small H s \<Longrightarrow> sysReach J small H (s\<lparr>sy_relay := testPulse start (sy_relay s)\<rparr>)"
| off: "sysReach J small H s \<Longrightarrow>
    sysReach J small H (s\<lparr>sy_notify := stopAll (sy_notify s), sy_relay := forceOff why (sy_relay s)\<rparr>)"
| ota: "sysReach J small H s \<Longrightarrow> sysReach J small H (prepareOta s)"
| otaFailed: "sysReach J small H s \<Longrightarrow> sysReach J small H (finishFailedOta s)"
| secrets: "sysReach J small H s \<Longrightarrow> sysReach J small H (s\<lparr>sy_secrets := sec, sy_wifi := w\<rparr>)"
| renamed: "sysReach J small H s \<Longrightarrow> sysReach J small H (s\<lparr>sy_cfg := (sy_cfg s)\<lparr>ac_deviceName := name\<rparr>\<rparr>)"
| logged: "sysReach J small H s \<Longrightarrow> sysReach J small H (logEvent e x s)"
| indicator: "sysReach J small H s \<Longrightarrow> sysReach J small H (s\<lparr>sy_led := led\<rparr>)"
| timer: "sysReach J small H s \<Longrightarrow> relayAct a (sy_relay s) = Some r \<Longrightarrow> a \<in> {SafetyTimeout, PulseDone} \<union> range Wait \<Longrightarrow>
    sysReach J small H (s\<lparr>sy_relay := r\<rparr>)"
| alerting: "sysReach J small H s \<Longrightarrow> sysReach J small H (loopAlerting (env :: 'j LoopEnv) s)"
| polled: "sysReach J small H s \<Longrightarrow> doPoll J env now random s = Some s' \<Longrightarrow> small \<longrightarrow> pollFits J env s \<Longrightarrow>
    sysReach J small (newDocs env @ H) s'"

text \<open>What the steps leave alone.\<close>

lemma fold_logPress [simp]:
  "sy_engine (fold (\<lambda>d. logEvent LogRelayPress (Some d)) ds s) = sy_engine s"
  "sy_notify (fold (\<lambda>d. logEvent LogRelayPress (Some d)) ds s) = sy_notify s"
  "sy_client (fold (\<lambda>d. logEvent LogRelayPress (Some d)) ds s) = sy_client s"
  "sy_builder (fold (\<lambda>d. logEvent LogRelayPress (Some d)) ds s) = sy_builder s"
  "sy_relay (fold (\<lambda>d. logEvent LogRelayPress (Some d)) ds s) = sy_relay s"
  by (induction ds arbitrary: s) simp_all

lemma popLoop_mask: "ne_activeMask (snd (popLoop now e)) = ne_activeMask e"
  by (induction now e rule: popLoop.induct)
    (subst popLoop.simps, auto simp: Let_def split: option.split prod.split)

lemma remind_mask: "ne_activeMask (fold (remindType now) ts e) = ne_activeMask e"
  by (induction ts arbitrary: e) (simp_all add: remindType_def Let_def pushNotification_def)

lemma tick_mask [simp]: "ne_activeMask (snd (notify_tick now e)) = ne_activeMask e"
  by (simp add: notify_tick_def Let_def popLoop_mask remind_mask split: prod.split)

lemma doMute_mask [simp]:
  "ne_activeMask (muteLong now e) = ne_activeMask e" "ne_activeMask (muteShort now e) = ne_activeMask e"
  "ne_activeMask (notify_unmute e) = ne_activeMask e" "ne_activeMask (stopAll e) = ne_activeMask e"
  "ne_activeMask (playTest p e) = ne_activeMask e" "ne_activeMask (setApiStale b e) = ne_activeMask e"
  "ne_activeMask (manualTest e) = ne_activeMask e"
  by (simp_all add: muteLong_def muteShort_def doMute_def notify_unmute_def stopAll_def playTest_def
      pushNotification_def setApiStale_def manualTest_def)

lemma setProfiles_mask:
  "ne_activeMask (fold (\<lambda>t. notify_setProfile t (f t)) ts e) = ne_activeMask e"
  by (induction ts arbitrary: e) (simp_all add: notify_setProfile_def)

lemma inSync_cong: "ne_activeMask n' = ne_activeMask n \<Longrightarrow> ae_types e' = ae_types e \<Longrightarrow> inSync e' n' = inSync e n"
  by (simp add: inSync_def)

text \<open>Every step but a poll that was answered leaves the active types, or clears both views.\<close>

lemma applyConfig_frame [simp]:
  "ae_types (sy_engine (applyConfig s)) = ae_types (sy_engine s)"
  "ne_activeMask (sy_notify (applyConfig s)) = ne_activeMask (sy_notify s)"
  by (simp_all add: applyConfig_def applyPollInterval_def Let_def engine_setConfig_def setProfiles_mask
      notify_setConfig_def notify_setMuteConfig_def)

lemma muteNow_frame [simp]:
  "sy_engine (muteNow lp now s) = sy_engine s" "ne_activeMask (sy_notify (muteNow lp now s)) = ne_activeMask (sy_notify s)"
  "sy_client (muteNow lp now s) = sy_client s" "sy_builder (muteNow lp now s) = sy_builder s"
  by (simp_all add: muteNow_def Let_def)

lemma step_frames [simp]:
  "sy_engine (onlineStep s) = sy_engine s" "sy_notify (onlineStep s) = sy_notify s"
  "sy_client (onlineStep s) = sy_client s" "sy_builder (onlineStep s) = sy_builder s"
  "sy_engine (ntpStep t s) = sy_engine s" "sy_notify (ntpStep t s) = sy_notify s"
  "sy_client (ntpStep t s) = sy_client s" "sy_builder (ntpStep t s) = sy_builder s"
  "sy_engine (updateLed now s) = sy_engine s" "sy_notify (updateLed now s) = sy_notify s"
  "sy_client (updateLed now s) = sy_client s" "sy_builder (updateLed now s) = sy_builder s"
  "sy_engine (pressLogStep s) = sy_engine s" "sy_notify (pressLogStep s) = sy_notify s"
  "sy_client (pressLogStep s) = sy_client s" "sy_builder (pressLogStep s) = sy_builder s"
  by (simp_all add: onlineStep_def ntpStep_def updateLed_def pressLogStep_def Let_def split: option.split)

lemma button_frames [simp]:
  "sy_engine (muteButton now hi s) = sy_engine s" "sy_client (muteButton now hi s) = sy_client s"
  "sy_builder (muteButton now hi s) = sy_builder s"
  "ne_activeMask (sy_notify (muteButton now hi s)) = ne_activeMask (sy_notify s)"
  "sy_engine (testButton now hi s) = sy_engine s" "sy_client (testButton now hi s) = sy_client s"
  "sy_builder (testButton now hi s) = sy_builder s"
  "ne_activeMask (sy_notify (testButton now hi s)) = ne_activeMask (sy_notify s)"
  by (simp_all add: muteButton_def testButton_def Let_def split: prod.split ButtonEvent.split)

lemma sirenStep_frame [simp]:
  "sy_engine (sirenStep now s) = sy_engine s" "sy_client (sirenStep now s) = sy_client s"
  "sy_builder (sirenStep now s) = sy_builder s"
  "ne_activeMask (sy_notify (sirenStep now s)) = ne_activeMask (sy_notify s)"
  by (simp_all add: sirenStep_def Let_def split_beta)

lemma loopAlerting_frame [simp]:
  "sy_engine (loopAlerting env s) = sy_engine s" "sy_client (loopAlerting env s) = sy_client s"
  "sy_builder (loopAlerting env s) = sy_builder s"
  "ne_activeMask (sy_notify (loopAlerting env s)) = ne_activeMask (sy_notify s)"
  by (simp_all add: loopAlerting_def Let_def)

lemma ota_frame [simp]:
  "sy_engine (prepareOta s) = sy_engine s" "sy_client (prepareOta s) = sy_client s" "sy_builder (prepareOta s) = sy_builder s"
  "ne_activeMask (sy_notify (prepareOta s)) = ne_activeMask (sy_notify s)"
  "sy_engine (finishFailedOta s) = sy_engine s" "sy_client (finishFailedOta s) = sy_client s"
  "sy_builder (finishFailedOta s) = sy_builder s" "sy_notify (finishFailedOta s) = sy_notify s"
  "sy_engine (unmuteNow s) = sy_engine s" "sy_client (unmuteNow s) = sy_client s" "sy_builder (unmuteNow s) = sy_builder s"
  "ne_activeMask (sy_notify (unmuteNow s)) = ne_activeMask (sy_notify s)"
  "sy_engine (applyPollInterval s) = sy_engine s" "sy_notify (applyPollInterval s) = sy_notify s"
  "sy_client (applyPollInterval s) = sy_client s" "sy_builder (applyPollInterval s) = sy_builder s"
  by (simp_all add: prepareOta_def finishFailedOta_def unmuteNow_def applyPollInterval_def Let_def)

lemma refresh_sync: "inSync (sy_engine (refreshLocations now s)) (sy_notify (refreshLocations now s))"
  by (simp add: inSync_def refreshLocations_def engine_reset_def resetAlertState_def initStatus_def typeInMask_def maskTest_def)

text \<open>A poll that fails touches neither the alerts nor the siren.\<close>

lemma contact_frame [simp]:
  "sy_engine (contact now s) = sy_engine s" "sy_notify (contact now s) = sy_notify s"
  "sy_client (contact now s) = sy_client s" "sy_builder (contact now s) = sy_builder s"
  "sy_relay (contact now s) = sy_relay s"
  by (simp_all add: contact_def Let_def)

lemma fillActiveView_frame [simp]:
  "sy_engine (fillActiveView s) = sy_engine s" "sy_notify (fillActiveView s) = sy_notify s"
  "sy_client (fillActiveView s) = sy_client s" "sy_builder (fillActiveView s) = sy_builder s"
  "sy_relay (fillActiveView s) = sy_relay s"
  by (simp_all add: fillActiveView_def Let_def)

lemma applyAndNotify_frame [simp]:
  "sy_client (applyAndNotify now snap s) = sy_client s" "sy_builder (applyAndNotify now snap s) = sy_builder s"
  "sy_relay (applyAndNotify now snap s) = sy_relay s"
  by (simp_all add: applyAndNotify_def Let_def split_beta)

lemma handleResult_failed:
  assumes "pr_kind r \<notin> {ResOk, ResNotModified}"
  shows "sy_engine (snd (handleResult now r s)) = sy_engine s \<and> sy_notify (snd (handleResult now r s)) = sy_notify s \<and>
    sy_preexisting (snd (handleResult now r s)) = sy_preexisting s \<and> sy_view (snd (handleResult now r s)) = sy_view s \<and>
    ah_lastContact (sy_health (snd (handleResult now r s))) = ah_lastContact (sy_health s) \<and>
    ah_hadContact (sy_health (snd (handleResult now r s))) = ah_hadContact (sy_health s)"
  using assms by (cases "pr_kind r") (simp_all add: handleResult_def failContact_def health_onFailure_def Let_def)

lemma handleResult_frame [simp]:
  "sy_client (snd (handleResult now r s)) = sy_client s" "sy_builder (snd (handleResult now r s)) = sy_builder s"
  "sy_relay (snd (handleResult now r s)) = sy_relay s"
  by (cases "pr_kind r"; simp add: handleResult_def failContact_def Let_def)+

subsection \<open>Where snapshots come from\<close>

lemma probeMfln_frame [simp]:
  "cl_cache (probeMfln env c) = cl_cache c" "cl_regions (probeMfln env c) = cl_regions c"
  by (simp_all add: probeMfln_def)

lemma cache_simps [simp]:
  "\<not> canAcceptNotModified (cache_invalidate x)" "canAcceptNotModified (cache_commitValidSnapshot x)"
  by (simp_all add: canAcceptNotModified_def cache_invalidate_def cache_commitValidSnapshot_def)

lemma invalidateCache_frame [simp]:
  "\<not> canAcceptNotModified (cl_cache (invalidateCache c))" "cl_regions (invalidateCache c) = cl_regions c"
  by (simp_all add: invalidateCache_def)

lemma poll_cases:
  assumes "poll J env c b = Some (r, c', b')"
  shows "cl_regions c' = cl_regions c" and
    "canAcceptNotModified (cl_cache c') \<Longrightarrow>
      (\<exists>docs\<in>set (newDocs env). \<exists>st. (b', st) = fold (regionToAlerts J) docs (builder_reset b, initStats)) \<or>
      (b' = b \<and> canAcceptNotModified (cl_cache c))"
    and "pr_kind r \<in> {ResOk, ResNotModified} \<Longrightarrow> canAcceptNotModified (cl_cache c')"
proof -
  have ok: "cl_regions c' = cl_regions c2 \<and>
      (canAcceptNotModified (cl_cache c') \<longrightarrow> (\<exists>docs\<in>set (newDocs env). \<exists>st. (b', st) = fold (regionToAlerts J) docs (builder_reset b, initStats))) \<and>
      (pr_kind r \<in> {ResOk, ResNotModified} \<longrightarrow> canAcceptNotModified (cl_cache c'))"
    if run: "pollOk J env r2 c2 b = Some (r, c', b')" and st: "pr_stats r2 = initStats" and code: "pe_code env = 200" for r2 c2
  proof -
    obtain e b3 st3 where p: "parseBody J (pe_start env) (pe_body env) (b, initStats) = Some (e, b3, st3)"
      using run st by (auto simp: pollOk_def split: option.splits prod.splits)
    show ?thesis
    proof (cases e)
      case None
      then have r: "c' = c2\<lparr>cl_lastModified := pe_lastModified env, cl_cache := cache_commitValidSnapshot (cl_cache c2)\<rparr>" "b' = b3"
        using run p st by (auto simp: pollOk_def)
      obtain docs where "responseDocs (pe_start env) (pe_body env) = Some docs"
          "(b3, st3) = fold (regionToAlerts J) docs (builder_reset b, initStats)"
        using p None parseBody_complete by blast
      then show ?thesis using r code by (auto simp: newDocs_def)
    next
      case (Some err)
      then show ?thesis using run p st by (auto simp: pollOk_def)
    qed
  qed
  have "cl_regions c' = cl_regions c \<and>
    (canAcceptNotModified (cl_cache c') \<longrightarrow>
      (\<exists>docs\<in>set (newDocs env). \<exists>st. (b', st) = fold (regionToAlerts J) docs (builder_reset b, initStats)) \<or>
      (b' = b \<and> canAcceptNotModified (cl_cache c))) \<and>
    (pr_kind r \<in> {ResOk, ResNotModified} \<longrightarrow> canAcceptNotModified (cl_cache c'))"
  proof (cases "\<not> lowHeap env c \<and> pe_begin env \<and> pe_code env = 200")
    case True
    then have "pollOk J env (initResult\<lparr>pr_httpCode := pe_code env\<rparr>) (probeMfln env c) b = Some (r, c', b')"
      using assms by (simp add: poll_def Let_def)
    from ok [OF this] show ?thesis using True by (simp add: initResult_def)
  next
    case False
    then show ?thesis using assms
      by (auto simp: poll_def Let_def pollNotModified_def initResult_def split: if_split_asm)
  qed
  then show "cl_regions c' = cl_regions c" and
    "canAcceptNotModified (cl_cache c') \<Longrightarrow>
      (\<exists>docs\<in>set (newDocs env). \<exists>st. (b', st) = fold (regionToAlerts J) docs (builder_reset b, initStats)) \<or>
      (b' = b \<and> canAcceptNotModified (cl_cache c))"
    and "pr_kind r \<in> {ResOk, ResNotModified} \<Longrightarrow> canAcceptNotModified (cl_cache c')" by blast+
qed

lemma responseSnapshot_reset:
  "sb_snap (fst (fold (regionToAlerts J) docs (builder_reset b, initStats))) =
   responseSnapshot J (sb_catalog b) (sb_selected b) docs"
proof -
  have "builder_reset b = builder_reset (initBuilder\<lparr>sb_selected := sb_selected b, sb_catalog := sb_catalog b\<rparr>)"
    by (simp add: builder_reset_def initBuilder_def)
  then show ?thesis unfolding responseSnapshot_def by (rule arg_cong)
qed

text \<open>While the cache is valid, the builder holds a complete response for the current regions.\<close>

definition cacheInv :: "'j JsonOps \<Rightarrow> 'j list list \<Rightarrow> System \<Rightarrow> bool" where
  "cacheInv J H s \<longleftrightarrow> sb_catalog (sy_builder s) = Some shippedCatalog \<and>
     regionsText (sb_selected (sy_builder s)) = cl_regions (sy_client s) \<and>
     (hasCachedSnapshot (sy_client s) \<longrightarrow>
       (\<exists>docs\<in>set H. \<exists>sel. regionsText sel = cl_regions (sy_client s) \<and>
          sb_snap (sy_builder s) = responseSnapshot J (Some shippedCatalog) sel docs))"

lemma cacheInv_cong:
  "sy_client s' = sy_client s \<Longrightarrow> sy_builder s' = sy_builder s \<Longrightarrow> cacheInv J H s' = cacheInv J H s"
  by (simp add: cacheInv_def)

lemma cacheInv_invalid:
  "sb_catalog (sy_builder s) = Some shippedCatalog \<Longrightarrow> regionsText (sb_selected (sy_builder s)) = cl_regions (sy_client s) \<Longrightarrow>
   \<not> hasCachedSnapshot (sy_client s) \<Longrightarrow> cacheInv J H s"
  by (simp add: cacheInv_def)

lemma validate_selected: "validateConfig c = None \<Longrightarrow> length (ac_selected c) \<le> kMaxSelected"
  by (auto simp: validateConfig_def split: if_splits)

lemma applyConfig_cache:
  assumes "cacheInv J H s \<or> (\<not> hasCachedSnapshot (sy_client s))" "length (ac_selected (sy_cfg s)) \<le> kMaxSelected"
  shows "cacheInv J H (applyConfig s)"
proof -
  define s' where "s' = applyConfig s"
  have b: "sb_snap (sy_builder s') = sb_snap (sy_builder s)" "sb_catalog (sy_builder s') = Some shippedCatalog"
    "sb_selected (sy_builder s') = ac_selected (sy_cfg s)"
    "sy_client s' = setRegions (regionsText (ac_selected (sy_cfg s))) (sy_client s)"
    using assms(2) by (simp_all add: s'_def applyConfig_def applyPollInterval_def Let_def builder_setSelected_def builder_setCatalog_def)
  show ?thesis
  proof (cases "regionsText (ac_selected (sy_cfg s)) = cl_regions (sy_client s)")
    case True
    then have c: "hasCachedSnapshot (sy_client s') = hasCachedSnapshot (sy_client s)"
        "cl_regions (sy_client s') = cl_regions (sy_client s)"
      by (simp_all add: b setRegions_def hasCachedSnapshot_def)
    show ?thesis unfolding s'_def [symmetric] using assms(1) True b(1-3) c by (auto simp: cacheInv_def)
  next
    case False
    then have "\<not> hasCachedSnapshot (sy_client s')" "cl_regions (sy_client s') = regionsText (ac_selected (sy_cfg s))"
      by (simp_all add: b setRegions_def hasCachedSnapshot_def)
    then show ?thesis unfolding s'_def [symmetric] using b by (intro cacheInv_invalid) simp_all
  qed
qed

lemma doPoll_cases:
  assumes "doPoll J env now random s = Some s'"
  obtains r c b where "poll J env (sy_client s) (sy_builder s) = Some (r, c, b)"
    "sy_client s' = c" "sy_builder s' = b" "sy_relay s' = sy_relay s"
    "sy_engine s' = sy_engine (snd (handleResult now r (s\<lparr>sy_client := c, sy_builder := b\<rparr>)))"
    "sy_notify s' = sy_notify (snd (handleResult now r (s\<lparr>sy_client := c, sy_builder := b\<rparr>)))"
    "sy_preexisting s' = sy_preexisting (snd (handleResult now r (s\<lparr>sy_client := c, sy_builder := b\<rparr>)))"
    "sy_view s' = sy_view (snd (handleResult now r (s\<lparr>sy_client := c, sy_builder := b\<rparr>)))"
    "sy_health s' = sy_health (snd (handleResult now r (s\<lparr>sy_client := c, sy_builder := b\<rparr>)))"
proof -
  obtain r c b where p: "poll J env (sy_client s) (sy_builder s) = Some (r, c, b)"
    using assms by (auto simp: doPoll_def split: option.splits prod.splits)
  obtain oc s1 where h: "handleResult now r (s\<lparr>sy_client := c, sy_builder := b\<rparr>) = (oc, s1)" by fastforce
  then have "s1 = snd (handleResult now r (s\<lparr>sy_client := c, sy_builder := b\<rparr>))" by simp
  then have "sy_client s1 = c" "sy_builder s1 = b" "sy_relay s1 = sy_relay s" by simp_all
  moreover obtain bp d where "s' = s1\<lparr>sy_backoff := bp, sy_nextPollAt := d\<rparr>"
    using assms p h by (auto simp: doPoll_def split: prod.splits)
  ultimately show thesis using that [OF p] h by simp
qed

lemma poll_cache:
  assumes "cacheInv J H s" "doPoll J env now random s = Some s'"
  shows "cacheInv J (newDocs env @ H) s'"
proof -
  obtain r c b where p: "poll J env (sy_client s) (sy_builder s) = Some (r, c, b)" "sy_client s' = c" "sy_builder s' = b"
    using doPoll_cases [OF assms(2)] by metis
  note cases = poll_cases [OF p(1)]
  note frame = poll_frame [OF p(1)]
  show ?thesis
  proof (cases "hasCachedSnapshot c")
    case False
    then show ?thesis using assms(1) p frame cases(1) by (intro cacheInv_invalid) (simp_all add: cacheInv_def)
  next
    case True
    then consider (new) docs st where "docs \<in> set (newDocs env)" "(b, st) = fold (regionToAlerts J) docs (builder_reset (sy_builder s), initStats)"
      | (same) "b = sy_builder s" "hasCachedSnapshot (sy_client s)"
      using cases(2) by (auto simp: hasCachedSnapshot_def)
    then show ?thesis
    proof cases
      case new
      then have "sb_snap b = responseSnapshot J (sb_catalog (sy_builder s)) (sb_selected (sy_builder s)) docs"
        using responseSnapshot_reset by (metis fst_conv)
      then show ?thesis using new(1) assms(1) p frame cases(1) by (auto simp: cacheInv_def)
    next
      case same
      then show ?thesis using assms(1) p cases(1) by (auto simp: cacheInv_def)
    qed
  qed
qed

lemma sysReach_cache: "sysReach J small H s \<Longrightarrow> cacheInv J H s"
proof (induction rule: sysReach.induct)
  case (boot c)
  have "\<not> hasCachedSnapshot (sy_client (initSystem\<lparr>sy_cfg := c\<rparr>))"
    by (simp add: initSystem_def initClient_def initCache_def hasCachedSnapshot_def canAcceptNotModified_def)
  then show ?case using validate_selected [OF boot] by (intro applyConfig_cache) simp_all
next
  case (config H s c)
  have "cacheInv J H (s\<lparr>sy_cfg := c\<rparr>)" using config by (simp add: cacheInv_def)
  then show ?case using validate_selected [OF config(2)] by (intro applyConfig_cache) simp_all
next
  case (refresh H s now)
  then show ?case
    by (intro cacheInv_invalid) (simp_all add: cacheInv_def refreshLocations_def builder_reset_def hasCachedSnapshot_def)
next
  case (token H s tok n now)
  then show ?case by (auto simp: cacheInv_def client_begin_def hasCachedSnapshot_def)
next
  case (url H s u now)
  then show ?case by (auto simp: cacheInv_def setMockUrl_def hasCachedSnapshot_def)
next
  case (polled H s env now random s')
  then show ?case using poll_cache by blast
qed (simp_all add: cacheInv_def)

lemma poll_sync:
  assumes "inSync (sy_engine s) (sy_notify s)" "doPoll J env now random s = Some s'" "pollFits J env s"
  shows "inSync (sy_engine s') (sy_notify s')"
proof -
  obtain r c b where p: "poll J env (sy_client s) (sy_builder s) = Some (r, c, b)"
    and eng: "sy_engine s' = sy_engine (snd (handleResult now r (s\<lparr>sy_client := c, sy_builder := b\<rparr>)))"
    and ntf: "sy_notify s' = sy_notify (snd (handleResult now r (s\<lparr>sy_client := c, sy_builder := b\<rparr>)))"
    using doPoll_cases [OF assms(2)] by metis
  show ?thesis
  proof (cases "pr_kind r \<in> {ResOk, ResNotModified}")
    case False
    then show ?thesis using assms(1) handleResult_failed [OF False, of now "s\<lparr>sy_client := c, sy_builder := b\<rparr>"]
      by (simp add: eng ntf)
  next
    case True
    then have fits: "eventsFit (sb_snap b) (sy_engine s)" using assms(3) True by (auto simp: pollFits_def p)
    define s0 where "s0 = s\<lparr>sy_client := c, sy_builder := b, sy_lastApiHttpCode := pr_httpCode r, sy_lastApiError := []\<rparr>"
    have "\<exists>s1. snd (handleResult now r (s\<lparr>sy_client := c, sy_builder := b\<rparr>)) = applyAndNotify now (sb_snap b) s1 \<and>
        sy_engine s1 = sy_engine s \<and> sy_notify s1 = sy_notify s"
      using True by (intro exI [of _ "if pr_kind r = ResOk then fillActiveView (contact now s0) else contact now s0"])
        (auto simp: handleResult_def s0_def Let_def)
    then obtain s1 where s1: "snd (handleResult now r (s\<lparr>sy_client := c, sy_builder := b\<rparr>)) = applyAndNotify now (sb_snap b) s1"
        "sy_engine s1 = sy_engine s" "sy_notify s1 = sy_notify s" by blast
    then show ?thesis using applyAndNotify_sync [of s1 "sb_snap b" now] assms(1) fits
      by (simp add: eng ntf eventsFit_def)
  qed
qed

lemma sysReach_sync: "sysReach J True H s \<Longrightarrow> inSync (sy_engine s) (sy_notify s)"
proof (induction H s rule: sysReach.induct)
  case (boot c)
  show ?case by (simp add: inSync_def initSystem_def initEngine_def initStatus_def initNotify_def typeInMask_def maskTest_def)
next
  case (refresh H s now)
  show ?case by (rule refresh_sync)
next
  case (polled H s env now random s')
  then show ?case using poll_sync by blast
qed (simp_all add: inSync_def)

lemma poll_failed_cache:
  assumes "poll J env c b = Some (r, c', b')" "pr_kind r \<notin> {ResOk, ResNotModified}"
  shows "b' = b \<or> \<not> canAcceptNotModified (cl_cache c')"
proof (cases "\<not> lowHeap env c \<and> pe_begin env \<and> pe_code env = 200")
  case True
  then have "pollOk J env (initResult\<lparr>pr_httpCode := pe_code env\<rparr>) (probeMfln env c) b = Some (r, c', b')"
    using assms(1) by (simp add: poll_def Let_def)
  then show ?thesis using assms(2) by (auto simp: pollOk_def split: option.splits prod.splits)
next
  case False
  then show ?thesis using assms(1) by (auto simp: poll_def Let_def split: if_split_asm prod.splits)
qed

subsection \<open>Properties\<close>


definition exampleConfig :: AppConfig where
  "exampleConfig = defaultConfig\<lparr>ac_selected := [\<lparr>loc_uid = 31, loc_type = City, loc_oblastUid = 0, loc_raionUid = 0\<rparr>]\<rparr>"

lemma exampleConfig_valid: "validateConfig exampleConfig = None"
  unfolding exampleConfig_def by code_simp

definition exampleBoot :: System where
  "exampleBoot = applyConfig (initSystem\<lparr>sy_cfg := exampleConfig\<rparr>)"

lemma exampleBoot_reach: "sysReach J small [] exampleBoot"
  unfolding exampleBoot_def by (rule sysReach.boot [OF exampleConfig_valid])

text \<open>A response with one complete region.\<close>

definition exampleTurn :: "char \<Rightarrow> json BodyTurn" where
  "exampleTurn c = \<lparr>bt_now = 10, bt_byte = Some c, bt_byteAt = 10,
     bt_entry = Inr (JObj [(''activeAlerts'', JArr [JObj [(''regionId'', JStr ''31''), (''type'', JStr ''AIR'')]])])\<rparr>"

definition exampleEnv :: "json PollEnv" where
  "exampleEnv = \<lparr>pe_freeHeap = 20000, pe_maxBlock = 8000, pe_mfln = False, pe_begin = True, pe_code = 200,
     pe_lastModified = ''today'', pe_retryAfter = 0, pe_start = 0, pe_body = map exampleTurn ''[{]'', pe_heapAtError = 0\<rparr>"

definition exampleDocs :: "json list" where
  "exampleDocs = [JObj [(''activeAlerts'', JArr [JObj [(''regionId'', JStr ''31''), (''type'', JStr ''AIR'')]])]]"

lemma exampleDocs_read: "newDocs exampleEnv = [exampleDocs]"
  by (simp add: newDocs_def responseDocs_def exampleEnv_def exampleTurn_def exampleDocs_def timedOut_def isSpace_def)

lemma exampleEnv_fields:
  "pe_begin exampleEnv" "pe_code exampleEnv = 200" "\<not> lowHeap exampleEnv c"
  by (simp_all add: exampleEnv_def lowHeap_def kTlsMinFreeHeap_def kTlsMinBlock_def)

lemma exampleDocs_parse:
  "parseBody jsonOps (pe_start exampleEnv) (pe_body exampleEnv) (b, st) = Some (None, fold (regionToAlerts jsonOps) exampleDocs (builder_reset b, st))"
  using parseBody_complete [of jsonOps "pe_start exampleEnv" "pe_body exampleEnv" b st] exampleDocs_read
  by (simp add: newDocs_def exampleEnv_fields split: option.splits)

lemma examplePoll:
  "\<exists>r c' b'. poll jsonOps exampleEnv c b = Some (r, c', b') \<and> pr_kind r = ResOk"
  by (simp add: poll_def Let_def pollOk_def exampleEnv_fields exampleDocs_parse split: prod.split)

lemma doPoll_some: "poll J env (sy_client s) (sy_builder s) = Some x \<Longrightarrow> \<exists>s'. doPoll J env now random s = Some s'"
  by (cases x) (simp add: doPoll_def split_beta Let_def)

lemma idle_fits: "\<forall>t. ts_state (ae_types e t) \<noteq> Active \<Longrightarrow> eventsFit snap e"
proof -
  assume idle: "\<forall>t. ts_state (ae_types e t) \<noteq> Active"
  have one: "length (eventsOf cfg snap (ae_types e) t) \<le> 1" for cfg t
    using idle by (simp add: eventsOf_def applyType_def Let_def)
  have "length (concat (map (eventsOf cfg snap (ae_types e)) ts)) \<le> length ts" for cfg ts
  proof (induction ts)
    case (Cons t ts)
    then show ?case using one [of cfg t] by simp
  qed simp
  from this [of "ae_cfg e" allTypes] show ?thesis by (simp add: eventsFit_def allTypes_def)
qed

lemma exampleBoot_idle: "ts_state (ae_types (sy_engine exampleBoot) t) \<noteq> Active"
  by (simp add: exampleBoot_def initSystem_def initEngine_def initStatus_def)




text \<open>
  C6. Only complete responses count. In every reachable state, whenever a poll is answered with
  success or \<open>not modified\<close>, the snapshot that is applied is that of one complete response the
  device received, for the selected regions: never one that was cut off, and never the rest of a failed
  one that a later 304 brings back.
\<close>

theorem snapshots_are_complete_responses:
  assumes "sysReach J small H s" and "poll J env (sy_client s) (sy_builder s) = Some (r, c, b)"
    and "pr_kind r \<in> {ResOk, ResNotModified}"
  shows "\<exists>docs\<in>set (newDocs env @ H). \<exists>sel. regionsText sel = regionsText (sb_selected b) \<and>
    sb_snap b = responseSnapshot J (Some shippedCatalog) sel docs"
proof -
  obtain s' where run: "doPoll J env 0 0 s = Some s'" using doPoll_some [OF assms(2)] by blast
  then have s': "sy_client s' = c" "sy_builder s' = b" using doPoll_cases [OF run] assms(2) by auto
  have "hasCachedSnapshot (sy_client s')" using poll_cases(3) [OF assms(2,3)] s' by (simp add: hasCachedSnapshot_def)
  then show ?thesis using poll_cache [OF sysReach_cache [OF assms(1)] run] s' by (auto simp: cacheInv_def)
qed

theorem snapshots_are_complete_responses_witness:
  "\<exists>r c b sel. poll jsonOps exampleEnv (sy_client exampleBoot) (sy_builder exampleBoot) = Some (r, c, b) \<and>
     sb_snap b = responseSnapshot jsonOps (Some shippedCatalog) sel exampleDocs"
proof -
  obtain r c b where p: "poll jsonOps exampleEnv (sy_client exampleBoot) (sy_builder exampleBoot) = Some (r, c, b)" "pr_kind r = ResOk"
    using examplePoll by blast
  with snapshots_are_complete_responses [OF exampleBoot_reach p(1)] exampleDocs_read show ?thesis by auto
qed

text \<open>
  C7. A poll that fails, in whatever way, changes neither the alerts nor the siren (Invariant 6):
  the engines, the relay, the dashboard and the time of the last contact stay as they were. If
  the answer had begun to overwrite the snapshot, the cached one is given up, so no later 304 counts.
\<close>

theorem failed_poll_keeps_alerts:
  assumes "doPoll J env now random s = Some s'" and "poll J env (sy_client s) (sy_builder s) = Some (r, c, b)"
    and "pr_kind r \<notin> {ResOk, ResNotModified}"
  shows "sy_engine s' = sy_engine s \<and> sy_notify s' = sy_notify s \<and> sy_relay s' = sy_relay s \<and> sy_view s' = sy_view s \<and>
    sy_preexisting s' = sy_preexisting s \<and> ah_lastContact (sy_health s') = ah_lastContact (sy_health s) \<and>
    (sy_builder s' = sy_builder s \<or> \<not> hasCachedSnapshot (sy_client s'))"
proof -
  obtain r' c' b' where p: "poll J env (sy_client s) (sy_builder s) = Some (r', c', b')"
    and s': "sy_client s' = c'" "sy_builder s' = b'" "sy_relay s' = sy_relay s"
      "sy_engine s' = sy_engine (snd (handleResult now r' (s\<lparr>sy_client := c', sy_builder := b'\<rparr>)))"
      "sy_notify s' = sy_notify (snd (handleResult now r' (s\<lparr>sy_client := c', sy_builder := b'\<rparr>)))"
      "sy_preexisting s' = sy_preexisting (snd (handleResult now r' (s\<lparr>sy_client := c', sy_builder := b'\<rparr>)))"
      "sy_view s' = sy_view (snd (handleResult now r' (s\<lparr>sy_client := c', sy_builder := b'\<rparr>)))"
      "sy_health s' = sy_health (snd (handleResult now r' (s\<lparr>sy_client := c', sy_builder := b'\<rparr>)))"
    using doPoll_cases [OF assms(1)] by metis
  have eq: "r' = r" "c' = c" "b' = b" using p assms(2) by simp_all
  show ?thesis
    using handleResult_failed [OF assms(3), of now "s\<lparr>sy_client := c, sy_builder := b\<rparr>"]
      poll_failed_cache [OF assms(2,3)]
    by (simp add: s' eq hasCachedSnapshot_def)
qed

theorem failed_poll_keeps_alerts_witness:
  "\<exists>s'. doPoll jsonOps (exampleEnv\<lparr>pe_body := map exampleTurn ''[{'' @ [\<lparr>bt_now = 20000, bt_byte = None, bt_byteAt = 0, bt_entry = Inl []\<rparr>]\<rparr>)
     20001 0 exampleBoot = Some s' \<and> sy_engine s' = sy_engine exampleBoot \<and> \<not> hasCachedSnapshot (sy_client s')"
proof -
  let ?env = "exampleEnv\<lparr>pe_body := map exampleTurn ''[{'' @ [\<lparr>bt_now = 20000, bt_byte = None, bt_byteAt = 0, bt_entry = Inl []\<rparr>]\<rparr>"
  have "\<exists>bs. parseBody jsonOps 0 (pe_body ?env) (b, st) = Some (Some BodyTimeout, bs)" for b st
    by (simp add: parseBody_def exampleTurn_def timedOut_def isSpace_def)
  then obtain bs where "parseBody jsonOps 0 (pe_body ?env) (sy_builder exampleBoot, initStats) = Some (Some BodyTimeout, bs)" by blast
  moreover have "\<not> lowHeap ?env (sy_client exampleBoot)" by (simp add: lowHeap_def exampleEnv_def kTlsMinFreeHeap_def kTlsMinBlock_def)
  moreover have "pe_begin ?env" "pe_code ?env = 200" "pe_start ?env = 0" by (simp_all add: exampleEnv_def)
  ultimately obtain r c b where p: "poll jsonOps ?env (sy_client exampleBoot) (sy_builder exampleBoot) = Some (r, c, b)"
      "pr_kind r = ResParseError" "\<not> hasCachedSnapshot c"
    by (cases bs) (simp add: poll_def Let_def pollOk_def initResult_def hasCachedSnapshot_def)
  obtain s' where s': "doPoll jsonOps ?env 20001 0 exampleBoot = Some s'" using doPoll_some [OF p(1)] by blast
  moreover have "sy_client s' = c" using doPoll_cases [OF s'] p(1) by auto
  ultimately show ?thesis using failed_poll_keeps_alerts [OF s' p(1)] p(2,3) by auto
qed

subsection \<open>Findings\<close>

text \<open>
  The siren can be switched off for partial alerts, but only the start asks for it: the end of an alert
  that was partial all the time is not silent.
\<close>

lemma partial_siren_off_still_sounds_end:
  assumes "ee_kind ev = Ended" "\<not> ac_partialSiren (sy_cfg s)"
    "\<forall>t. t \<noteq> ee_type ev \<longrightarrow> ts_state (ae_types (sy_engine s) t) \<noteq> Active"
  shows "eventMode False ev batch s = NormalMode"
  using assms by (auto simp: eventMode_def isHandover_def list_ex_iff Let_def)

text \<open>
  The time of the next poll is compared as a signed difference. When the device could not poll for
  24.8 days (no Wi-Fi, no token), the due time seems to lie ahead for as long again.
\<close>

lemma polling_stalls_after_long_outage:
  "sy_nextPollAt s = at \<Longrightarrow> \<not> pollDue (at + 2147483648) s"
proof -
  have "sint (2147483648 :: u32) < 0" by simp
  then show "sy_nextPollAt s = at \<Longrightarrow> \<not> pollDue (at + 2147483648) s"
    by (simp add: pollDue_def timeReached_def)
qed

end
