(* ===== verification/WebReach.thy ===== *)
theory WebReach
  imports WebSettings SystemLaws
begin

text \<open>
  The requests of the web interface are steps of the reachable systems of \<open>SystemLaws\<close>: what is
  proved of every reachable system holds with the real handlers.
\<close>

lemma saveConfig_valid: "saveConfig F J c d = (True, d1) \<Longrightarrow> validateConfig c = None \<and> dv_sys d1 = dv_sys d"
  by (auto simp: saveConfig_def store_save_def split: prod.split_asm if_split_asm)

lemma adoptConfig_reach:
  "sysReach J small H s \<Longrightarrow> validateConfig c = None \<Longrightarrow> sysReach J small H (adoptConfig now refresh detail c s)"
  by (auto simp: adoptConfig_def Let_def intro: sysReach.logged sysReach.refresh sysReach.config)

lemma secrets_reach: "sysReach J small H s \<Longrightarrow> sysReach J small H (s\<lparr>sy_secrets := sec\<rparr>)"
  using sysReach.secrets [where sec = sec and w = "sy_wifi s"] by fastforce

lemma setApi_reach:
  "sysReach J small H s \<Longrightarrow> sysReach J small H (setApiToken tok now s)"
  "sysReach J small H s \<Longrightarrow> sysReach J small H (setApiUrl url now s)"
  unfolding setApiToken_def setApiUrl_def by (fact sysReach.token, fact sysReach.url)

lemma test_reach:
  "sysReach J small H s \<Longrightarrow> sysReach J small H (testRelayOne start detail s)"
  "sysReach J small H s \<Longrightarrow> sysReach J small H (testRelayCycle detail s)"
  by (auto simp: testRelayOne_def testRelayCycle_def manualTest_def intro: sysReach.logged sysReach.testRelay sysReach.test)

lemma giveUp_reach: "sysReach J small H s \<Longrightarrow> sysReach J small H (finishFailedOta (logEvent e x s))"
  by (intro sysReach.otaFailed sysReach.logged)

lemma savesConfig_reach:
  assumes "savesConfig F J' doc d (r, d')" "sysReach J small H (dv_sys d)"
  shows "sysReach J small H (dv_sys d')"
proof -
  obtain new ok d1 now refresh detail where s: "saveConfig F J' new d = (ok, d1)"
    "d' = (if ok then onSys (adoptConfig now refresh detail new) d1 else d1)"
    using assms(1) by (auto simp: savesConfig_def)
  then have "dv_sys d1 = dv_sys d" by (auto simp: saveConfig_def split: prod.split_asm)
  then show ?thesis using s saveConfig_valid [of F J' new d d1] assms(2) by (cases ok) (auto intro: adoptConfig_reach)
qed

lemma settings_reach:
  assumes "sysReach J small H (dv_sys d)"
  shows "sysReach J small H (dv_sys (snd (handleConfigPut F J' rq d)))"
    and "sysReach J small H (dv_sys (snd (handleLocationsPut F J' rq d)))"
    and "sysReach J small H (dv_sys (snd (handleTokenPut F J' rq d)))"
    and "sysReach J small H (dv_sys (snd (handleApiUrlPut F J' rq d)))"
    and "sysReach J small H (dv_sys (snd (handleWifiForget F J' rq d)))"
  using assms handleConfigPut_cases [of F J' rq d] handleLocationsPut_cases [of F J' rq d]
    savesConfig_reach [of F J' _ d "fst (handleConfigPut F J' rq d)" "snd (handleConfigPut F J' rq d)"]
    savesConfig_reach [of F J' _ d "fst (handleLocationsPut F J' rq d)" "snd (handleLocationsPut F J' rq d)"]
  by (auto simp: handleTokenPut_def handleApiUrlPut_def handleWifiForget_def forgetWifi_def withAuth_def Let_def wifi_forget_def
      dest!: saveSecrets_frame split: prod.split intro!: sysReach.logged setApi_reach secrets_reach sysReach.secrets)

lemma saveConfig_sys: "saveConfig F J c d = (ok, d1) \<Longrightarrow> dv_sys d1 = dv_sys d"
  by (auto simp: saveConfig_def split: prod.split_asm)

lemma finishSetup_reach:
  assumes "finishSetup F J' rq name sec d = (r, d')" "sysReach J small H (dv_sys d)"
  shows "sysReach J small H (dv_sys d')"
proof -
  define new where "new = (if length name > 0 then (sy_cfg (dv_sys d))\<lparr>ac_deviceName := name\<rparr> else sy_cfg (dv_sys d))"
  obtain ok1 d1 where s1: "(if validateConfig new \<noteq> None then (False, d) else saveConfig F J' new d) = (ok1, d1)" by fastforce
  obtain ok2 d2 where s2: "saveSecrets F J' sec d1 = (ok2, d2)" by fastforce
  obtain ok3 d3 where s3: "saveConfig F J' (sy_cfg (dv_sys d)) d2 = (ok3, d3)" by fastforce
  have sys: "dv_sys d1 = dv_sys d" "dv_sys d2 = dv_sys d" "dv_sys d3 = dv_sys d"
    using s1 saveSecrets_frame [OF s2] saveConfig_sys [OF s3] by (auto dest: saveConfig_sys split: if_split_asm)
  have "finishSetup F J' rq name sec d =
      (if \<not> ok1 then (Refused 500 ''FS_ERROR'' ''cannot persist device config'', d1)
       else if \<not> ok2 then (Refused 500 ''FS_ERROR'' ''cannot persist secrets'', d3)
       else (Done, rebootIn 800 rq (onSys (\<lambda>s. logEvent LogConfigChanged (Some ''setup_portal'') (s\<lparr>sy_cfg := new, sy_secrets := sec\<rparr>)) d2)))"
    unfolding finishSetup_def Let_def new_def [symmetric] s1 by (simp add: s2 s3)
  then have "d' = d1 \<or> d' = d3 \<or> dv_sys d' = logEvent LogConfigChanged (Some ''setup_portal'') ((dv_sys d)\<lparr>sy_cfg := new, sy_secrets := sec\<rparr>)"
    using assms(1) sys(2) by (simp split: if_split_asm)
  moreover have "sysReach J small H ((dv_sys d)\<lparr>sy_cfg := new\<rparr>)"
    using assms(2) sysReach.renamed [OF assms(2), of name] by (simp add: new_def)
  ultimately show ?thesis using sys assms(2) secrets_reach [of J small H "(dv_sys d)\<lparr>sy_cfg := new\<rparr>" sec]
    by (auto intro: sysReach.logged)
qed

lemma setup_reach:
  assumes "sysReach J small H (dv_sys d)"
  shows "sysReach J small H (dv_sys (snd (handleSetup F J' sha rq d)))"
proof -
  have "sysReach J small H (dv_sys (snd (finishSetup F J' rq name sec d)))" for name sec
    by (rule finishSetup_reach [OF _ assms]) (rule prod.collapse [symmetric])
  then show ?thesis using assms by (simp add: handleSetup_def Let_def split: option.split prod.split)
qed

lemma buttons_reach:
  assumes "sysReach J small H (dv_sys d)"
  shows "sysReach J small H (dv_sys (snd (handleMute rq d)))"
    and "sysReach J small H (dv_sys (snd (handleUnmute rq d)))"
    and "sysReach J small H (dv_sys (snd (handleTestRelay rq d)))"
    and "sysReach J small H (dv_sys (snd (handleTestPattern J' rq d)))"
    and "sysReach J small H (dv_sys (snd (handleRelayOff rq d)))"
    and "sysReach J small H (dv_sys (snd (handleReboot rq d)))"
  using assms by (auto simp: handleMute_def handleUnmute_def handleTestRelay_def handleTestPattern_def handleRelayOff_def
      handleReboot_def withAuth_def Let_def split: option.split
      intro: sysReach.muted sysReach.unmuted sysReach.off test_reach sysReach.logged [OF sysReach.test])

lemma upload_reach:
  assumes "sysReach J small H (dv_sys d)"
  shows "sysReach J small H (dv_sys (fst (snd (handleOtaUpload U free rq ev (d, u)))))"
    and "sysReach J small H (dv_sys (fst (snd (uploadDone U rq (d, u)))))"
  using assms by (auto simp: handleOtaUpload_def uploadStart_def uploadWrite_def uploadEnd_def uploadAborted_def uploadDone_def
      otaFlags_def Let_def split: UploadEvent.split prod.split intro: giveUp_reach sysReach.logged [OF sysReach.ota] sysReach.logged)

lemma otaUrl_reach:
  assumes "sysReach J small H (dv_sys d)"
  shows "sysReach J small H (dv_sys (fst (snd (handleOtaUrl U J' sha env rq (d, u)))))"
proof -
  have inst: "sysReach J small H (dv_sys (fst (snd (otaInstall U sha env rq want (d1, u1)))))"
    if "sysReach J small H (dv_sys d1)" for d1 u1 want
    using that by (auto simp: otaInstall_def otaFail_simps Let_def split: prod.split bool.split intro: giveUp_reach sysReach.logged)
  then show ?thesis using assms
    by (auto simp: handleOtaUrl_def otaFail_simps Let_def intro!: inst giveUp_reach sysReach.logged [OF sysReach.ota])
qed

lemma reads_reach:
  assumes "sysReach J small H (dv_sys d)"
  shows "sysReach J small H (dv_sys (snd (handleCaptive ip d)))"
    and "sysReach J small H (dv_sys (snd (handleScan J' ns rq d)))"
    and "sysReach J small H (dv_sys (snd (handleLoginRequest J' sha rq d)))"
    and "sysReach J small H (dv_sys (snd (handleStatus J' info rq d)))"
    and "sysReach J small H (dv_sys (snd (handleConfigGet J' rq d)))"
    and "sysReach J small H (dv_sys (snd (handleEvents el fl rq d)))"
    and "sysReach J small H (dv_sys (snd (handleSystem J' info rq d)))"
  using assms by (simp_all add: handleCaptive_def handleScan_def handleLoginRequest_def handleStatus_def handleConfigGet_def
      handleEvents_def handleSystem_def withAuth_def Let_def split: prod.split LoginResult.split)

lemma onDevice_reach:
  "sysReach J small H (dv_sys (snd (h d))) \<Longrightarrow> sysReach J small H (dv_sys (fst (snd (onDevice h (d, u)))))"
  by (cases "h d") (simp add: onDevice_def)

lemma serve_reach:
  assumes "sysReach J small H (dv_sys d)"
  shows "sysReach J small H (dv_sys (fst (snd (serve E rq ep (d, u)))))"
proof (cases ep)
  case EpOtaUrl
  then show ?thesis using otaUrl_reach [OF assms, of "we_upd E" "we_json E" "we_hash E" "we_ota E" rq u] by (simp add: split_beta)
qed (simp_all add: upload_reach assms onDevice_reach buttons_reach settings_reach setup_reach reads_reach)

end
