(* ===== verification/Watchdog.thy ===== *)
theory Watchdog
  imports SystemLaws
begin

text \<open>
  The timers of the system context that outlive a blocked loop, as invariants of the reachable
  systems: the deadline of an update (\<open>otaWatchdog\<close>) and the safety timer of the siren.
\<close>

text \<open>While an update is in progress its deadline is set, at most five minutes ahead.\<close>

definition otaGuarded :: "System \<Rightarrow> bool" where
  "otaGuarded s \<longleftrightarrow> (sy_otaInProgress s \<longrightarrow>
     (\<exists>t. sy_otaDeadline s = Some t \<and> t \<le> rw_clock (sy_relay s) + kOtaDeadlineMs))"

text \<open>While a pattern holds the siren on, the safety timer is armed and due within the limit.\<close>

definition sirenArmed :: "RelayController \<Rightarrow> bool" where
  "sirenArmed r \<longleftrightarrow> (rc_on r \<longrightarrow>
     (\<exists>d. rc_safetyTimer r = Some d \<and> rw_clock r \<le> d \<and> d \<le> rw_clock r + unat (rc_maxOnMs r)))"

subsection \<open>The relay controller\<close>

lemma relay_clock [simp]:
  "rw_clock (forceOff why r) = rw_clock r" "rw_clock (testPulse start r) = rw_clock r"
  "rw_clock (relay_apply on r) = rw_clock r" "rw_clock (emergencyOff r) = rw_clock r"
  "rw_clock (endPulse r) = rw_clock r" "rw_clock (release pin r) = rw_clock r" "rw_clock (driveReleased r) = rw_clock r"
  by (simp_all add: forceOff_def testPulse_def relay_apply_def emergencyOff_def endPulse_def relay_arm_def
      driveReleased_def pinMode_def release_def digitalWrite_def Let_def)

lemma relay_clock_calls [simp]:
  "rw_clock (relay_tick req now r) = rw_clock r" "rw_clock (snd (consumeSafetyTrip r)) = rw_clock r"
  "rw_clock (relay_begin p q ah maxOn level r) = rw_clock r"
  by (simp_all add: relay_tick_def consumeSafetyTrip_def relay_begin_def releaseOld_frame Let_def split_beta)

lemma armed_off: "\<not> rc_on r \<Longrightarrow> sirenArmed r"
  by (simp add: sirenArmed_def)

lemma armed_cong:
  "rc_on r' = rc_on r \<Longrightarrow> rc_safetyTimer r' = rc_safetyTimer r \<Longrightarrow> rw_clock r' = rw_clock r \<Longrightarrow>
   rc_maxOnMs r' = rc_maxOnMs r \<Longrightarrow> sirenArmed r' = sirenArmed r"
  by (simp add: sirenArmed_def)

lemma forceOff_armed: "sirenArmed (forceOff why r)"
  by (rule armed_off) (simp add: forceOff_def Let_def)

lemma begin_armed: "sirenArmed (relay_begin p q ah maxOn level r)"
  by (rule armed_off) (simp add: relay_begin_def Let_def)

lemma emergencyOff_armed: "sirenArmed (emergencyOff r)"
  by (rule armed_off) (simp add: emergencyOff_def Let_def)

lemma testPulse_armed: "sirenArmed r \<Longrightarrow> sirenArmed (testPulse start r)"
  by (simp add: sirenArmed_def testPulse_def relay_arm_def Let_def)

lemma apply_armed: "sirenArmed r \<Longrightarrow> sirenArmed (relay_apply on r)"
  by (simp add: sirenArmed_def relay_apply_def relay_arm_def Let_def)

lemma tick_armed: "sirenArmed r \<Longrightarrow> sirenArmed (relay_tick req now r)"
proof -
  assume "sirenArmed r"
  then have "sirenArmed (relay_apply on (r\<lparr>rc_guard := g\<rparr>))" for on g by (intro apply_armed) (simp add: sirenArmed_def)
  then show ?thesis by (simp add: relay_tick_def Let_def split_beta sirenArmed_def)
qed

lemma endPulse_armed: "sirenArmed r \<Longrightarrow> sirenArmed (endPulse r)"
  by (simp add: sirenArmed_def endPulse_def release_def digitalWrite_def Let_def)

lemma timer_armed:
  assumes "relayAct a r = Some r'" "a \<in> {SafetyTimeout, PulseDone} \<union> range Wait" "sirenArmed r"
  shows "sirenArmed r' \<and> rw_clock r \<le> rw_clock r'"
proof -
  consider "a = SafetyTimeout" | "a = PulseDone" | d where "a = Wait d" using assms(2) by blast
  then show ?thesis
  proof cases
    case 1
    then show ?thesis using assms(1) emergencyOff_armed by (auto split: option.split_asm if_split_asm)
  next
    case 2
    have "sirenArmed (r\<lparr>rc_pulseTimer := None\<rparr>)" using assms(3) by (simp add: sirenArmed_def)
    then show ?thesis using 2 assms(1) endPulse_armed by (auto split: option.split_asm if_split_asm)
  next
    case (3 d)
    then have "r' = r\<lparr>rw_clock := rw_clock r + d\<rparr>" "timersAllow (rw_clock r + d) r"
      using assms(1) by (simp_all split: if_split_asm)
    then show ?thesis using assms(3) by (auto simp: sirenArmed_def timersAllow_def)
  qed
qed

subsection \<open>The steps of the system\<close>

text \<open>Two states that agree on the update and on the clock.\<close>

abbreviation sameOta :: "System \<Rightarrow> System \<Rightarrow> bool" where
  "sameOta t s \<equiv> sy_otaInProgress t = sy_otaInProgress s \<and> sy_otaDeadline t = sy_otaDeadline s \<and>
     rw_clock (sy_relay t) = rw_clock (sy_relay s)"

lemma logEvent_deadline [simp]: "sy_otaDeadline (logEvent e x s) = sy_otaDeadline s"
  by (simp add: logEvent_def)

lemma guarded_cong: "sameOta t s \<Longrightarrow> otaGuarded t = otaGuarded s"
  by (simp add: otaGuarded_def)

lemma applyConfig_ota: "sameOta (applyConfig s) s" and applyConfig_armed: "sirenArmed (sy_relay (applyConfig s))"
  by (simp_all add: applyConfig_def applyPollInterval_def Let_def begin_armed)

lemma muteNow_ota: "sameOta (muteNow lp now s) s" and muteNow_armed: "sirenArmed (sy_relay (muteNow lp now s))"
  by (simp_all add: muteNow_def Let_def forceOff_armed)

lemma refresh_ota: "sameOta (refreshLocations now s) s" and refresh_armed: "sirenArmed (sy_relay (refreshLocations now s))"
  by (simp_all add: refreshLocations_def forceOff_armed)

lemma prepareOta_guarded: "otaGuarded (prepareOta s)" and prepareOta_armed: "sirenArmed (sy_relay (prepareOta s))"
  by (simp_all add: prepareOta_def otaGuarded_def Let_def forceOff_armed)

lemma finishOta_guarded: "otaGuarded (finishFailedOta s)" and finishOta_armed: "sirenArmed (sy_relay (finishFailedOta s))"
  by (simp_all add: finishFailedOta_def otaGuarded_def forceOff_armed)

lemma fold_logPress_ota [simp]:
  "sy_otaInProgress (fold (\<lambda>d. logEvent LogRelayPress (Some d)) ds s) = sy_otaInProgress s"
  "sy_otaDeadline (fold (\<lambda>d. logEvent LogRelayPress (Some d)) ds s) = sy_otaDeadline s"
  by (induction ds arbitrary: s) simp_all

lemma button_ota:
  "sameOta (muteButton now hi s) s" "sameOta (testButton now hi s) s"
  by (auto simp: muteButton_def testButton_def Let_def muteNow_ota split: prod.split ButtonEvent.split)

lemma button_armed:
  "sirenArmed (sy_relay s) \<Longrightarrow> sirenArmed (sy_relay (muteButton now hi s))"
  "sirenArmed (sy_relay s) \<Longrightarrow> sirenArmed (sy_relay (testButton now hi s))"
  by (auto simp: muteButton_def testButton_def Let_def muteNow_armed split: prod.split ButtonEvent.split)

lemma siren_ota: "sameOta (sirenStep now s) s"
  by (simp add: sirenStep_def Let_def split_beta consumeSafetyTrip_def)

lemma siren_armed: "sirenArmed (sy_relay s) \<Longrightarrow> sirenArmed (sy_relay (sirenStep now s))"
proof -
  assume "sirenArmed (sy_relay s)"
  then have "sirenArmed (snd (consumeSafetyTrip (relay_tick q now (sy_relay s))))" for q
    using tick_armed by (simp add: consumeSafetyTrip_def sirenArmed_def)
  then show ?thesis by (simp add: sirenStep_def Let_def split_beta)
qed

lemma small_steps_ota:
  "sameOta (onlineStep s) s" "sameOta (ntpStep t s) s" "sameOta (updateLed now s) s" "sameOta (pressLogStep s) s"
  by (simp_all add: onlineStep_def ntpStep_def updateLed_def pressLogStep_def Let_def split: option.split prod.split)

lemma small_steps_armed:
  "sirenArmed (sy_relay (onlineStep s)) = sirenArmed (sy_relay s)" "sirenArmed (sy_relay (ntpStep t s)) = sirenArmed (sy_relay s)"
  "sirenArmed (sy_relay (updateLed now s)) = sirenArmed (sy_relay s)"
  "sirenArmed (sy_relay (pressLogStep s)) = sirenArmed (sy_relay s)"
  by (simp_all add: onlineStep_def ntpStep_def updateLed_def pressLogStep_def sirenArmed_def Let_def
      split: option.split prod.split)

lemma alerting_ota: "sameOta (loopAlerting env s) s"
  by (simp add: loopAlerting_def Let_def small_steps_ota siren_ota button_ota)

lemma alerting_armed: "sirenArmed (sy_relay s) \<Longrightarrow> sirenArmed (sy_relay (loopAlerting env s))"
  by (simp add: loopAlerting_def Let_def small_steps_armed siren_armed button_armed)

lemma logAlert_ota [simp]:
  "sy_otaInProgress (logAlert ev s) = sy_otaInProgress s" "sy_otaDeadline (logAlert ev s) = sy_otaDeadline s"
  by (simp_all add: logAlert_def split: AlertEvent.split)

lemma announce_ota [simp]:
  "sy_otaInProgress (announce now batch ev s) = sy_otaInProgress s"
  "sy_otaDeadline (announce now batch ev s) = sy_otaDeadline s"
  by (simp_all add: announce_def Let_def split_beta)

lemma fold_announce_ota [simp]:
  "sy_otaInProgress (fold (announce now batch) evs s) = sy_otaInProgress s"
  "sy_otaDeadline (fold (announce now batch) evs s) = sy_otaDeadline s"
  by (induction evs arbitrary: s) simp_all

lemma handleResult_ota:
  "sy_otaInProgress (snd (handleResult now r s)) = sy_otaInProgress s"
  "sy_otaDeadline (snd (handleResult now r s)) = sy_otaDeadline s"
  by (cases "pr_kind r"; simp add: handleResult_def failContact_def applyAndNotify_def contact_def fillActiveView_def
      Let_def split_beta)+

lemma doPoll_frame:
  "doPoll J env now random s = Some s' \<Longrightarrow> sameOta s' s \<and> sy_relay s' = sy_relay s"
  by (auto simp: doPoll_def Let_def split_beta handleResult_ota split: option.split_asm)

subsection \<open>Every reachable system\<close>

lemma sysReach_timers: "sysReach J small H s \<Longrightarrow> otaGuarded s \<and> sirenArmed (sy_relay s)"
proof (induction rule: sysReach.induct)
  case (boot c)
  have "otaGuarded (initSystem\<lparr>sy_cfg := c\<rparr>)" by (simp add: otaGuarded_def initSystem_def)
  then show ?case by (simp add: guarded_cong [OF applyConfig_ota] applyConfig_armed)
next
  case (config H s c)
  then have "otaGuarded (s\<lparr>sy_cfg := c\<rparr>)" by (simp add: otaGuarded_def)
  then show ?case by (simp add: guarded_cong [OF applyConfig_ota] applyConfig_armed)
next
  case (timer H s a r)
  then have "sirenArmed r \<and> rw_clock (sy_relay s) \<le> rw_clock r" using timer_armed by blast
  then show ?case using timer.IH by (auto simp: otaGuarded_def intro: order_trans)
next
  case (polled H s env now random s')
  then show ?case using doPoll_frame [OF polled.hyps(2)] by (simp add: otaGuarded_def)
next
  case (testRelay H s start)
  then show ?case by (simp add: otaGuarded_def testPulse_armed)
next
  case (off H s why)
  then show ?case by (simp add: otaGuarded_def forceOff_armed)
qed (simp_all add: guarded_cong [OF refresh_ota] guarded_cong [OF muteNow_ota] guarded_cong [OF alerting_ota]
    refresh_armed muteNow_armed prepareOta_guarded prepareOta_armed finishOta_guarded finishOta_armed
    alerting_armed,
  simp_all add: otaGuarded_def unmuteNow_def applyPollInterval_def Let_def)

end
