(* ===== verification/Firmware.thy ===== *)
theory Firmware
  imports Console WebReach Watchdog
begin

text \<open>
  The whole firmware: the main loop of \<open>src/main.cpp\<close> over the device with its console, its web
  server and its poll, from power-on through restarts; and the proof that all it ever does are the steps of
  the reachable systems of \<open>SystemLaws\<close>.
\<close>

text \<open>
  What a turn of the loop meets: the timer interrupts since the last one, the characters of the
  console, the handlers that one request runs (an upload runs several), and the rest of \<open>LoopEnv\<close>.
  \<open>te_boot\<close> is what a boot would meet.
\<close>

record ('f, 'j, 'u) TurnEnv =
  te_timers :: "RelayAct list"
  te_serial :: string
  te_random :: "u8 list"
  te_request :: "(('f, 'j, 'u) WebEnv \<times> 'j Request \<times> Endpoint) list"
  te_loop :: "'j LoopEnv"
  te_boot :: BootEnv

record ('f, 'u) Firmware =
  fw_dev :: "'f Device"
  fw_upd :: 'u
  fw_buf :: string

definition powerOn :: "('f, 'j) FsOps \<Rightarrow> 'j JsonOps \<Rightarrow> BootEnv \<Rightarrow> 'f \<Rightarrow> 'u \<Rightarrow> ('f, 'u) Firmware" where
  "powerOn F J env f u = \<lparr>fw_dev = boot F J env f, fw_upd = u, fw_buf = []\<rparr>"

definition timerFires :: "RelayAct \<Rightarrow> System \<Rightarrow> System" where
  "timerFires a s = (case relayAct a (sy_relay s) of None \<Rightarrow> s | Some r \<Rightarrow> s\<lparr>sy_relay := r\<rparr>)"

definition wifiStep :: "'j LoopEnv \<Rightarrow> System \<Rightarrow> System" where
  "wifiStep env s = s\<lparr>sy_wifi := wifi_tick (le_now env) (le_connected env) (sy_secrets s) (sy_wifi s)\<rparr>"

text \<open>The deadline of an update restarts the device, whatever the loop is doing.\<close>

definition otaWatchdogFires :: "System \<Rightarrow> bool" where
  "otaWatchdogFires s = (case sy_otaDeadline s of None \<Rightarrow> False | Some t \<Rightarrow> t \<le> rw_clock (sy_relay s))"

text \<open>One turn: whether the device restarts, and its state; None while a poll does not return.\<close>

definition loopTurn :: "('f, 'j) FsOps \<Rightarrow> 'j JsonOps \<Rightarrow> (string \<Rightarrow> u8 list) \<Rightarrow> ('f, 'j, 'u) TurnEnv \<Rightarrow> ('f, 'u) Firmware \<Rightarrow>
    (bool \<times> ('f, 'u) Firmware) option" where
  "loopTurn F J sha te st =
     (let env = te_loop te; now = le_now env; d = onSys (fold timerFires (te_timers te)) (fw_dev st) in
      if otaWatchdogFires (dv_sys d) then Some (True, st\<lparr>fw_dev := d\<rparr>)
      else case pollSerial (handleSerialLine F J sha (te_random te) now) (te_serial te) (fw_buf st, d) of
        (True, buf, d) \<Rightarrow> Some (True, st\<lparr>fw_dev := d\<rparr>)
      | (False, buf, d) \<Rightarrow>
          (case serveAll (te_request te) (onSys (wifiStep env) d, fw_upd st) of (d, u) \<Rightarrow>
             if web_restart now (dv_web d) then Some (True, st\<lparr>fw_dev := d, fw_upd := u\<rparr>)
             else case loopRest J env (dv_sys d) of
               None \<Rightarrow> None
             | Some s \<Rightarrow> Some (False, \<lparr>fw_dev = d\<lparr>dv_sys := s\<rparr>, fw_upd = u, fw_buf = buf\<rparr>)))"

fun fwRun :: "('f, 'j) FsOps \<Rightarrow> 'j JsonOps \<Rightarrow> (string \<Rightarrow> u8 list) \<Rightarrow> ('f, 'j, 'u) TurnEnv list \<Rightarrow> ('f, 'u) Firmware \<Rightarrow>
    ('f, 'u) Firmware option" where
  "fwRun F J sha [] st = Some st"
| "fwRun F J sha (te # tes) st =
     (case loopTurn F J sha te st of
        None \<Rightarrow> None
      | Some (restart, st) \<Rightarrow>
          fwRun F J sha tes (if restart then powerOn F J (te_boot te) (dv_fs (fw_dev st)) (fw_upd st) else st))"

subsection \<open>The console\<close>

lemma adoptSecrets_reach:
  assumes "sysReach J small H (dv_sys d)"
  shows "sysReach J small H (dv_sys (snd (adoptSecrets F J' ok sec d)))"
proof -
  obtain b d1 where s: "saveSecrets F J' sec d = (b, d1)" by fastforce
  then show ?thesis using assms saveSecrets_frame [OF s] by (simp add: adoptSecrets_def secrets_reach)
qed

lemma forgetWifi_reach:
  assumes "sysReach J small H (dv_sys d)" "forgetWifi F J' now d = (ok, d')"
  shows "sysReach J small H (dv_sys d')"
proof -
  obtain b d1 where s: "saveSecrets F J' ((sy_secrets (dv_sys d))\<lparr>ss_wifiSsid := [], ss_wifiPass := []\<rparr>) d = (b, d1)" by fastforce
  show ?thesis using assms s saveSecrets_frame [OF s]
    by (auto simp: forgetWifi_def Let_def wifi_forget_def split: if_split_asm intro: sysReach.secrets)
qed

lemma handleSerialLine_reach:
  assumes "sysReach J small H (dv_sys d)"
  shows "sysReach J small H (dv_sys (snd (handleSerialLine F J' sha random now line d)))"
proof -
  have "sysReach J small H (dv_sys (snd (cmdSetWifi F J' l d)))" "sysReach J small H (dv_sys (snd (cmdSetToken F J' l d)))"
    "sysReach J small H (dv_sys (snd (cmdSetPass F J' sha random l d)))" "sysReach J small H (dv_sys (snd (cmdSetApi F J' l d)))" for l
    using assms by (simp_all add: cmdSetWifi_def cmdSetToken_def cmdSetPass_def cmdSetApi_def Let_def adoptSecrets_reach split: option.split)
  moreover obtain ok d1 where "forgetWifi F J' now d = (ok, d1)" by fastforce
  moreover from this have "sysReach J small H (dv_sys d1)" by (rule forgetWifi_reach [OF assms])
  ultimately show ?thesis using assms
    by (simp add: handleSerialLine_def Let_def sysReach.muted sysReach.unmuted sysReach.logged test_reach)
qed

lemma pollSerial_reach:
  assumes "\<And>line d. sysReach J small H (dv_sys d) \<Longrightarrow> sysReach J small H (dv_sys (snd (handle line d)))"
    and "sysReach J small H (dv_sys d)"
  shows "sysReach J small H (dv_sys (snd (snd (pollSerial handle cs (buf, d)))))"
  using assms(2)
proof (induction cs arbitrary: buf d)
  case (Cons c cs)
  obtain r d1 where h: "handle buf d = (r, d1)" by fastforce
  then have "sysReach J small H (dv_sys d1)" using assms(1) [OF Cons.prems, of buf] by simp
  then show ?case using Cons h by (cases r) simp_all
qed simp

subsection \<open>Boot\<close>

lemma bootConfig_valid: "validateConfig (bootConfig F J f) = None"
  using store_load_wf [of F J f defaultConfig] defaultConfig_wf
  by (auto simp: bootConfig_def configWf_def split: prod.split bool.split)

lemma applyConfig_led: "applyConfig (s\<lparr>sy_led := led\<rparr>) = (applyConfig s)\<lparr>sy_led := led_begin kBuiltinLed True kAlertOut
    (ac_alertIndicatorActiveHigh (sy_cfg s)) (ac_alertIndicatorSteady (sy_cfg s)) led\<rparr>"
  by (simp add: applyConfig_def applyPollInterval_def Let_def)

lemma token_reach: "sysReach J small H s \<Longrightarrow> sysReach J small H (s\<lparr>sy_client := client_begin tok (sy_client s)\<rparr>)"
  using sysReach.token [where n = "sy_auth401Streak s" and now = "sy_nextPollAt s"] by fastforce

lemma url_reach: "sysReach J small H s \<Longrightarrow> sysReach J small H (applyPollInterval (s\<lparr>sy_client := setMockUrl u (sy_client s)\<rparr>))"
  using sysReach.url [where now = "sy_nextPollAt s"] by (fastforce simp: applyPollInterval_def Let_def)

lemma bootClient_reach: "sysReach J small H s \<Longrightarrow> sysReach J small H (bootClient s)"
  using token_reach [of J small H s "ss_apiToken (sy_secrets s)"]
    url_reach [of J small H "s\<lparr>sy_client := client_begin (ss_apiToken (sy_secrets s)) (sy_client s)\<rparr>" "ss_mockUrl (sy_secrets s)"]
  by (simp add: bootClient_def Let_def)

lemma boot_reach: "sysReach J small [] (dv_sys (boot F J' env f))"
proof -
  let ?c = "bootConfig F J' f"
  have "sysReach J small [] (applyConfig (initSystem\<lparr>sy_cfg := ?c\<rparr>))" by (rule sysReach.boot [OF bootConfig_valid])
  then have "sysReach J small [] (applyConfig ((initSystem\<lparr>sy_cfg := ?c\<rparr>)\<lparr>sy_led := l\<rparr>))" for l
    unfolding applyConfig_led by (rule sysReach.indicator)
  moreover have "initSystem\<lparr>sy_led := l, sy_cfg := ?c\<rparr> = (initSystem\<lparr>sy_cfg := ?c\<rparr>)\<lparr>sy_led := l\<rparr>" for l by simp
  ultimately have led: "sysReach J small [] (applyConfig (initSystem\<lparr>sy_led := l, sy_cfg := ?c\<rparr>))" for l
    by (simp only:)
  have "sysReach J small [] (bootSystem F J' env f)"
    unfolding bootSystem_def Let_def by (intro bootClient_reach secrets_reach sysReach.logged led)
  then show ?thesis
    by (auto simp: boot_def bootWifi_def Let_def split: prod.split if_split dest!: saveSecrets_frame intro!: sysReach.secrets)
qed

subsection \<open>The main loop\<close>

lemma timerFires_reach:
  "sysReach J small H s \<Longrightarrow> a \<in> {SafetyTimeout, PulseDone} \<union> range Wait \<Longrightarrow> sysReach J small H (timerFires a s)"
  by (auto simp: timerFires_def split: option.split intro: sysReach.timer)

lemma timersFire_reach:
  "sysReach J small H s \<Longrightarrow> set as \<subseteq> {SafetyTimeout, PulseDone} \<union> range Wait \<Longrightarrow> sysReach J small H (fold timerFires as s)"
proof (induction as arbitrary: s)
  case (Cons a as)
  then have "sysReach J small H (timerFires a s)" by (intro timerFires_reach) auto
  then show ?case using Cons by simp
qed simp

lemma wifiStep_reach: "sysReach J small H s \<Longrightarrow> sysReach J small H (wifiStep env s)"
proof -
  assume r: "sysReach J small H s"
  have "s\<lparr>sy_wifi := w\<rparr> = s\<lparr>sy_secrets := sy_secrets s, sy_wifi := w\<rparr>" for w by simp
  then have "sysReach J small H (s\<lparr>sy_wifi := w\<rparr>)" for w using sysReach.secrets [OF r] by (simp only:)
  then show ?thesis by (simp add: wifiStep_def)
qed

lemma serveAll_reach:
  "sysReach J small H (dv_sys d) \<Longrightarrow> sysReach J small H (dv_sys (fst (serveAll cs (d, u))))"
proof (induction cs arbitrary: d u)
  case (Cons c cs)
  obtain E rq ep where c: "c = (E, rq, ep)" by (cases c)
  obtain r d1 u1 where s: "serve E rq ep (d, u) = (r, d1, u1)" by (metis surj_pair)
  have "sysReach J small H (dv_sys d1)" using serve_reach [OF Cons.prems, of E rq ep u] s by simp
  then show ?case using Cons.IH c s by simp
qed simp

lemma loopRest_cases:
  assumes "loopRest J env s = Some s'"
  shows "s' = s \<or> s' = loopAlerting env s \<or>
    doPoll J (le_poll env) (le_pollDone env) (le_random env) (loopAlerting env s) = Some s'"
proof (cases "sy_otaInProgress s")
  case False
  define a where "a = loopAlerting env s"
  from assms False have "(if pollDue (le_now env) a then doPoll J (le_poll env) (le_pollDone env) (le_random env) a
    else Some a) = Some s'" by (simp only: loopRest_def Let_def if_False a_def)
  then show ?thesis unfolding a_def [symmetric] by (cases "pollDue (le_now env) a") simp_all
qed (use assms in \<open>simp add: loopRest_def\<close>)

lemma loopRest_reach:
  assumes "sysReach J False H s" "loopRest J env s = Some s'"
  shows "\<exists>H'. set H' \<subseteq> set (newDocs (le_poll env)) \<union> set H \<and> sysReach J False H' s'"
proof -
  have alert: "sysReach J False H (loopAlerting env s)" by (rule sysReach.alerting [OF assms(1)])
  consider "s' = s" | "s' = loopAlerting env s"
    | (polled) "doPoll J (le_poll env) (le_pollDone env) (le_random env) (loopAlerting env s) = Some s'"
    using loopRest_cases [OF assms(2)] by blast
  then show ?thesis
  proof cases
    case polled
    have "sysReach J False (newDocs (le_poll env) @ H) s'" by (rule sysReach.polled [OF alert polled]) simp
    then show ?thesis by (intro exI [of _ "newDocs (le_poll env) @ H"]) simp
  next
    case 1
    then show ?thesis using assms(1) by (intro exI [of _ H]) simp
  next
    case 2
    then show ?thesis using alert by (intro exI [of _ H]) simp
  qed
qed

definition timersOnly :: "('f, 'j, 'u) TurnEnv \<Rightarrow> bool" where
  "timersOnly te \<longleftrightarrow> set (te_timers te) \<subseteq> {SafetyTimeout, PulseDone} \<union> range Wait"

lemma loopTurn_reach:
  assumes "sysReach J False H (dv_sys (fw_dev st))" "timersOnly te" "loopTurn F J sha te st = Some (b, st')"
  shows "\<exists>H'. set H' \<subseteq> set (newDocs (le_poll (te_loop te))) \<union> set H \<and> sysReach J False H' (dv_sys (fw_dev st'))"
proof -
  define d0 where "d0 = onSys (fold timerFires (te_timers te)) (fw_dev st)"
  have d0: "sysReach J False H (dv_sys d0)" using timersFire_reach [OF assms(1)] assms(2) by (simp add: d0_def timersOnly_def)
  obtain rb buf d1 where serial: "pollSerial (handleSerialLine F J sha (te_random te) (le_now (te_loop te))) (te_serial te) (fw_buf st, d0) = (rb, buf, d1)"
    by (metis surj_pair)
  have line: "\<And>l d. sysReach J False H (dv_sys d) \<Longrightarrow>
      sysReach J False H (dv_sys (snd (handleSerialLine F J sha (te_random te) (le_now (te_loop te)) l d)))"
    by (rule handleSerialLine_reach)
  have d1: "sysReach J False H (dv_sys d1)"
    using pollSerial_reach [of J False H "handleSerialLine F J sha (te_random te) (le_now (te_loop te))" d0 "te_serial te" "fw_buf st"]
      line d0 serial by simp
  obtain d2 u2 where req: "serveAll (te_request te) (onSys (wifiStep (te_loop te)) d1, fw_upd st) = (d2, u2)" by fastforce
  have d2: "sysReach J False H (dv_sys d2)"
    using serveAll_reach [of J False H "onSys (wifiStep (te_loop te)) d1" "te_request te" "fw_upd st"] wifiStep_reach [OF d1, of "te_loop te"] req by simp
  consider (early) "dv_sys (fw_dev st') \<in> {dv_sys d0, dv_sys d1, dv_sys d2}" | (rest) "loopRest J (te_loop te) (dv_sys d2) = Some (dv_sys (fw_dev st'))"
    using assms(3) by (auto simp: loopTurn_def Let_def d0_def [symmetric] serial req split: bool.split_asm if_split_asm option.split_asm)
  then show ?thesis
  proof cases
    case early
    then show ?thesis using d0 d1 d2 by (intro exI [of _ H]) auto
  next
    case rest
    then show ?thesis by (rule loopRest_reach [OF d2])
  qed
qed

definition docsOf :: "('f, 'j, 'u) TurnEnv list \<Rightarrow> 'j list list" where
  "docsOf tes = concat (map (\<lambda>te. newDocs (le_poll (te_loop te))) tes)"

lemma powerOn_reach: "sysReach J small [] (dv_sys (fw_dev (powerOn F J' env f u)))"
  by (simp add: powerOn_def boot_reach)

lemma fwRun_reach:
  assumes "\<exists>H. set H \<subseteq> D \<and> sysReach J False H (dv_sys (fw_dev st))" "\<forall>te\<in>set tes. timersOnly te"
    "fwRun F J sha tes st = Some st'"
  shows "\<exists>H. set H \<subseteq> D \<union> set (docsOf tes) \<and> sysReach J False H (dv_sys (fw_dev st'))"
  using assms
proof (induction tes arbitrary: st D)
  case (Cons te tes)
  obtain H where H: "set H \<subseteq> D" "sysReach J False H (dv_sys (fw_dev st))" using Cons.prems(1) by blast
  obtain b st1 where t: "loopTurn F J sha te st = Some (b, st1)" using Cons.prems(3) by (auto split: option.split_asm)
  define st2 where "st2 = (if b then powerOn F J (te_boot te) (dv_fs (fw_dev st1)) (fw_upd st1) else st1)"
  let ?D = "D \<union> set (newDocs (le_poll (te_loop te)))"
  have "timersOnly te" using Cons.prems(2) by simp
  from loopTurn_reach [OF H(2) this t] have "\<exists>H. set H \<subseteq> ?D \<and> sysReach J False H (dv_sys (fw_dev st1))" using H(1) by blast
  then have "\<exists>H. set H \<subseteq> ?D \<and> sysReach J False H (dv_sys (fw_dev st2))"
    by (cases b) (auto simp: st2_def intro: powerOn_reach exI [of _ "[]"])
  moreover have "fwRun F J sha tes st2 = Some st'" using Cons.prems(3) t by (simp add: st2_def)
  moreover have "\<forall>te\<in>set tes. timersOnly te" using Cons.prems(2) by simp
  ultimately have "\<exists>H. set H \<subseteq> ?D \<union> set (docsOf tes) \<and> sysReach J False H (dv_sys (fw_dev st'))"
    by (intro Cons.IH)
  moreover have "set (docsOf (te # tes)) = set (newDocs (le_poll (te_loop te))) \<union> set (docsOf tes)"
    by (simp add: docsOf_def)
  ultimately show ?case by (simp only: Un_assoc)
qed (simp add: docsOf_def)

text \<open>A turn in which the request to the API fails to connect comes to its end.\<close>

lemma loopRest_returns: "\<not> pe_begin (le_poll env) \<Longrightarrow> \<exists>s'. loopRest J env s = Some s'"
proof -
  assume "\<not> pe_begin (le_poll env)"
  then have "\<exists>x. poll J (le_poll env) c b = Some x" for c b by (simp add: poll_def Let_def)
  then have "\<exists>s'. doPoll J (le_poll env) now random s = Some s'" for now random s using doPoll_some by blast
  then show ?thesis by (simp add: loopRest_def Let_def)
qed

lemma loopTurn_returns:
  assumes "\<not> pe_begin (le_poll (te_loop te))"
  shows "\<exists>b st'. loopTurn F J sha te st = Some (b, st')"
proof -
  have "\<exists>s'. loopRest J (te_loop te) s = Some s'" for s by (rule loopRest_returns [OF assms])
  then have rest: "loopRest J (te_loop te) s \<noteq> None" for s by (metis option.distinct(1))
  have "loopTurn F J sha te st \<noteq> None"
    using rest by (simp add: loopTurn_def Let_def del: not_None_eq split: prod.split bool.split option.split)
  then show ?thesis by fastforce
qed

lemma fwRun_powerOn:
  assumes "\<forall>te\<in>set tes. timersOnly te" "fwRun F J sha tes (powerOn F J env f u) = Some st"
  shows "\<exists>H. set H \<subseteq> set (docsOf tes) \<and> sysReach J False H (dv_sys (fw_dev st))"
proof -
  have "\<exists>H. set H \<subseteq> {} \<and> sysReach J False H (dv_sys (fw_dev (powerOn F J env f u)))"
    using powerOn_reach by auto
  from fwRun_reach [OF this assms] show ?thesis by simp
qed

text \<open>
  C2. The firmware as a whole refines the steps that the other theories reason about: power it on
  with whatever is on the flash, type at the console, send requests, lose the network, let the
  timers fire, let it restart. The state it is in is always a reachable system, for the complete
  responses it has received. So what is proved of every reachable system (only complete responses
  count, the two engines agree) holds of the program as it runs.
\<close>

theorem firmware_refines_steps:
  assumes "\<forall>te\<in>set tes. timersOnly te" and "fwRun F J sha tes (powerOn F J env f u) = Some st"
  shows "\<exists>H. set H \<subseteq> set (docsOf tes) \<and> sysReach J False H (dv_sys (fw_dev st))"
  by (rule fwRun_powerOn [OF assms])


text \<open>
  A turn in which the timer of the safety limit fires, somebody types \<open>mute\<close> at the console, a
  client without a session asks to switch the siren off, and the API cannot be reached.
\<close>

definition exampleLoopTurn :: "(flash, json, Updater) TurnEnv" where
  "exampleLoopTurn = \<lparr>te_timers = [SafetyTimeout], te_serial = ''mute'' @ [CHR 0x0A], te_random = [],
     te_request = [(exampleWebEnv, exampleRequest, EpRelayOff)],
     te_loop = \<lparr>le_now = 1000, le_connected = True, le_time = 0, le_muteHigh = True, le_testHigh = True,
       le_poll = exampleEnv\<lparr>pe_begin := False\<rparr>, le_pollDone = 1200, le_random = 7\<rparr>,
     te_boot = \<lparr>be_now = 0, be_resetReason = ''Power On'', be_random = [], be_apSsid = ''AirAlert''\<rparr>\<rparr>"

lemma exampleRun: "\<exists>st. fwRun (flashOps 0) jsonOps (\<lambda>_. []) [exampleLoopTurn]
    (powerOn (flashOps 0) jsonOps (te_boot exampleLoopTurn) Map.empty initUpdater) = Some st"
proof -
  have "\<not> pe_begin (le_poll (te_loop exampleLoopTurn))" by (simp add: exampleLoopTurn_def)
  then obtain b st where "loopTurn (flashOps 0) jsonOps (\<lambda>_. []) exampleLoopTurn
      (powerOn (flashOps 0) jsonOps (te_boot exampleLoopTurn) Map.empty initUpdater) = Some (b, st)"
    using loopTurn_returns by blast
  then show ?thesis by simp
qed

theorem firmware_refines_steps_witness:
  "\<exists>st H. fwRun (flashOps 0) jsonOps (\<lambda>_. []) [exampleLoopTurn]
       (powerOn (flashOps 0) jsonOps (te_boot exampleLoopTurn) Map.empty initUpdater) = Some st \<and>
     set H \<subseteq> set (docsOf [exampleLoopTurn]) \<and> sysReach jsonOps False H (dv_sys (fw_dev st))"
proof -
  obtain st where run: "fwRun (flashOps 0) jsonOps (\<lambda>_. []) [exampleLoopTurn]
      (powerOn (flashOps 0) jsonOps (te_boot exampleLoopTurn) Map.empty initUpdater) = Some st" using exampleRun by blast
  have "\<forall>te\<in>set [exampleLoopTurn]. timersOnly te" by (simp add: timersOnly_def exampleLoopTurn_def)
  from firmware_refines_steps [OF this run] run show ?thesis by blast
qed

subsection \<open>What the timers guarantee\<close>

text \<open>
  C3. In any state that the firmware reaches, a pattern that holds the siren on has its safety timer
  armed, due within the configured limit: the timer runs outside the loop, so neither a poll that
  hangs nor an upload that stalls leaves the siren on.
\<close>

theorem pattern_always_armed:
  assumes "sysReach J small H s" and "rc_on (sy_relay s)"
  shows "\<exists>d. rc_safetyTimer (sy_relay s) = Some d \<and> rw_clock (sy_relay s) \<le> d \<and>
    d \<le> rw_clock (sy_relay s) + unat (rc_maxOnMs (sy_relay s))"
  using sysReach_timers [OF assms(1)] assms(2) by (simp add: sirenArmed_def)

text \<open>A manual test, and the turn that starts its pattern.\<close>

definition testEnv :: "json LoopEnv" where
  "testEnv = (te_loop exampleLoopTurn)\<lparr>le_now := 0\<rparr>"

definition testing :: System where
  "testing = exampleBoot\<lparr>sy_notify := playTest (pulses 600 0 1 True) (sy_notify exampleBoot)\<rparr>"

lemma testing_notify: "sy_notify testing = playTest (pulses 600 0 1 True) (fold (\<lambda>t. notify_setProfile t (ac_profiles exampleConfig t)) allTypes
    (notify_setConfig \<lparr>nc_notifyEscalation = ac_notifyEscalation exampleConfig,
        nc_notifyAdditionalLocation = ac_notifyAdditionalLocation exampleConfig,
        nc_remindersWhenStale = ac_remindersWhenStale exampleConfig,
        nc_manualTestMs = max (ac_relayTestMs exampleConfig) (of_nat (2 * kPulseMs))\<rparr>
      (notify_setMuteConfig \<lparr>mc_snoozeMs = ucast (ac_snoozeMinutes exampleConfig) * 60000,
        mc_muteAllAlertTypes = ac_muteAllAlertTypes exampleConfig\<rparr> initNotify)))"
  by (simp add: testing_def exampleBoot_def applyConfig_def applyPollInterval_def Let_def initSystem_def)

lemma testing_heard: "fst (notify_tick 0 (setApiStale stale (sy_notify testing)))"
  unfolding testing_notify by (cases stale; simp only:) code_simp+

lemma exampleBoot_relay: "sy_relay exampleBoot = relay_begin 14 12 (ac_relayActiveHigh exampleConfig) (ac_relayMaxOnMs exampleConfig)
    (ac_relaySingle exampleConfig) initRelay"
  by (simp add: exampleBoot_def applyConfig_def applyPollInterval_def Let_def initSystem_def kSirenStart_def kSirenStop_def)

lemma testing_on: "rc_on (relay_tick True 0 (sy_relay testing))"
  by (simp add: testing_def exampleBoot_relay) code_simp

lemma testing_buttons: "button_tick True 0 (sy_btnMute testing) = (NoEvent, sy_btnMute testing)"
  "button_tick True 0 (sy_btnTest testing) = (NoEvent, sy_btnTest testing)"
  by (simp_all add: testing_def exampleBoot_def applyConfig_def applyPollInterval_def Let_def initSystem_def) code_simp+

lemma quiet_steps:
  "sy_notify (ntpStep t (onlineStep s)) = sy_notify s" "sy_relay (ntpStep t (onlineStep s)) = sy_relay s"
  "sy_health (ntpStep t (onlineStep s)) = sy_health s" "sy_btnMute (ntpStep t (onlineStep s)) = sy_btnMute s"
  "sy_btnTest (ntpStep t (onlineStep s)) = sy_btnTest s"
  by (simp_all add: ntpStep_def onlineStep_def logEvent_def Let_def)

lemma quiet_buttons:
  assumes "button_tick hi now (sy_btnMute s) = (NoEvent, sy_btnMute s)" "button_tick lo now (sy_btnTest s) = (NoEvent, sy_btnTest s)"
  shows "sy_notify (testButton now lo (muteButton now hi s)) = sy_notify s \<and> sy_relay (testButton now lo (muteButton now hi s)) = sy_relay s \<and>
    sy_health (testButton now lo (muteButton now hi s)) = sy_health s"
  using assms by (simp add: testButton_def muteButton_def)

lemma rest_on:
  "rc_on (sy_relay (updateLed now (pressLogStep (sirenStep now s)))) =
   rc_on (relay_tick (fst (notify_tick now (setApiStale (health_stale now (sy_health s)) (sy_notify s)))) now (sy_relay s))"
  by (simp add: updateLed_def pressLogStep_def sirenStep_def consumeSafetyTrip_def Let_def split_beta split: option.split)

theorem pattern_always_armed_witness:
  "rc_on (sy_relay (loopAlerting testEnv testing)) \<and> rc_safetyTimer (sy_relay (loopAlerting testEnv testing)) \<noteq> None"
proof -
  have on: "rc_on (sy_relay (loopAlerting testEnv testing))"
    using testing_heard testing_on testing_buttons
      quiet_buttons [of True 0 "ntpStep 0 (onlineStep testing)" True]
    by (simp add: loopAlerting_def testEnv_def exampleLoopTurn_def quiet_steps rest_on Let_def)
  have "sysReach jsonOps True [] (loopAlerting testEnv testing)"
    unfolding testing_def by (intro sysReach.alerting sysReach.test exampleBoot_reach)
  from pattern_always_armed [OF this on] on show ?thesis by auto
qed

text \<open>The relay through the timers of a turn.\<close>

definition relayFires :: "RelayAct \<Rightarrow> RelayController \<Rightarrow> RelayController" where
  "relayFires a r = (case relayAct a r of None \<Rightarrow> r | Some r \<Rightarrow> r)"

lemma timersFire_relay:
  "sy_relay (fold timerFires as s) = fold relayFires as (sy_relay s)" "sy_otaDeadline (fold timerFires as s) = sy_otaDeadline s"
  by (induction as arbitrary: s) (simp_all add: timerFires_def relayFires_def split: option.split)


text \<open>An upload that stalls after its start: the stop pulse ends, and five minutes go by.\<close>

definition stalledUpload :: "(flash, Updater) Firmware" where
  "stalledUpload = \<lparr>fw_dev = \<lparr>dv_sys = prepareOta exampleBoot, dv_web = initWeb, dv_fs = Map.empty\<rparr>, fw_upd = initUpdater, fw_buf = []\<rparr>"

lemma exampleBoot_off:
  "rc_safetyTimer (forceOff ''ota'' (sy_relay exampleBoot)) = None"
  "rc_pulseTimer (forceOff ''ota'' (sy_relay exampleBoot)) = Some (rw_clock (forceOff ''ota'' (sy_relay exampleBoot)) + 300)"
  unfolding exampleBoot_relay by code_simp+

lemma pulse_then_wait:
  assumes "rc_safetyTimer r = None" "rc_pulseTimer r = Some (rw_clock r + 300)"
  shows "rw_clock (fold relayFires [Wait 300, PulseDone, Wait d] r) = rw_clock r + 300 + d"
  using assms by (simp add: relayFires_def timersAllow_def endPulse_def release_def digitalWrite_def)


end
